(* ===== verification/Ldd_Prelude.thy ===== *)
theory Ldd_Prelude
  imports Main "HOL-Library.Word"
begin

text \<open>
  Prelude of the development: the machine integers of the target (32-bit ARM, as
  \<^verbatim>\<open>Makefile.mak\<close> selects with \<^verbatim>\<open>ARCH := arm\<close>), the error numbers the drivers return, the
  C library routines on byte arrays (\<^verbatim>\<open>memset\<close>, \<^verbatim>\<open>memcpy\<close>), the transfers between kernel and
  user memory (\<^verbatim>\<open>copy_to_user\<close>, \<^verbatim>\<open>copy_from_user\<close>), the mutex, and the lemmas on lists
  and words that the component theories share.
\<close>

section \<open>Machine integers\<close>

text \<open>
  On the target \<^verbatim>\<open>unsigned int\<close>, \<^verbatim>\<open>unsigned long\<close> and \<^verbatim>\<open>size_t\<close> have 32 bits and
  \<^verbatim>\<open>loff_t\<close> is a signed 64-bit integer. Functions that return \<^verbatim>\<open>int\<close>, \<^verbatim>\<open>long\<close> or
  \<^verbatim>\<open>ssize_t\<close> return an \<^typ>\<open>int\<close> of the model: a count, or the negated error number.
\<close>

type_synonym u8 = "8 word"
type_synonym u16 = "16 word"
type_synonym u32 = "32 word"
type_synonym u64 = "64 word"
type_synonym loff_t = "64 word"
type_synonym tid = nat

named_theorems wordsimps "conversions between words and numbers"
named_theorems memsimps "byte arrays: lengths and contents after block updates"

section \<open>Error numbers\<close>

abbreviation EINTR :: int where "EINTR \<equiv> 4"
abbreviation EIO :: int where "EIO \<equiv> 5"
abbreviation ENXIO :: int where "ENXIO \<equiv> 6"
abbreviation EBADF :: int where "EBADF \<equiv> 9"
abbreviation EAGAIN :: int where "EAGAIN \<equiv> 11"
abbreviation ENOMEM :: int where "ENOMEM \<equiv> 12"
abbreviation EFAULT :: int where "EFAULT \<equiv> 14"
abbreviation EBUSY :: int where "EBUSY \<equiv> 16"
abbreviation ENODEV :: int where "ENODEV \<equiv> 19"
abbreviation EINVAL :: int where "EINVAL \<equiv> 22"
abbreviation ESPIPE :: int where "ESPIPE \<equiv> 29"
abbreviation ENOBUFS :: int where "ENOBUFS \<equiv> 105"
abbreviation ERESTARTSYS :: int where "ERESTARTSYS \<equiv> 512"

section \<open>Byte arrays\<close>

text \<open>
  A C array is a list of its bytes. \<open>blit xs off ys\<close> is the array after the bytes \<open>ys\<close>
  were stored from index \<open>off\<close> on.
\<close>

definition blit :: "'a list \<Rightarrow> nat \<Rightarrow> 'a list \<Rightarrow> 'a list" where
  "blit xs off ys = take off xs @ ys @ drop (off + length ys) xs"

definition memset :: "u8 list \<Rightarrow> nat \<Rightarrow> u8 \<Rightarrow> nat \<Rightarrow> u8 list" where
  "memset xs off v n = blit xs off (replicate n v)"

definition subarr :: "'a list \<Rightarrow> nat \<Rightarrow> nat \<Rightarrow> 'a list" where
  "subarr xs off n = take n (drop off xs)"

text \<open>
  \<^verbatim>\<open>memcpy(dst, src, n)\<close> inside one array. The C standard defines it only for regions that
  do not overlap. \<open>memcpy_fwd\<close> is the byte loop of the generic kernel routine, which copies
  from the lowest address upwards.
\<close>

fun memcpy_fwd :: "u8 list \<Rightarrow> nat \<Rightarrow> nat \<Rightarrow> nat \<Rightarrow> u8 list" where
  "memcpy_fwd m dst src 0 = m"
| "memcpy_fwd m dst src (Suc n) = memcpy_fwd (m[dst := m ! src]) (Suc dst) (Suc src) n"

definition disjoint_regions :: "nat \<Rightarrow> nat \<Rightarrow> nat \<Rightarrow> bool" where
  "disjoint_regions dst src n \<longleftrightarrow> dst + n \<le> src \<or> src + n \<le> dst"

lemma length_blit [memsimps]: "off + length ys \<le> length xs \<Longrightarrow> length (blit xs off ys) = length xs"
  by (simp add: blit_def)

lemma blit_Nil [simp]: "blit xs off [] = xs"
  by (simp add: blit_def)

lemma nth_blit:
  assumes "off + length ys \<le> length xs" and "i < length xs"
  shows "blit xs off ys ! i =
    (if off \<le> i \<and> i < off + length ys then ys ! (i - off) else xs ! i)"
  using assms by (auto simp: blit_def nth_append min_def)

lemma subarr_blit_same [memsimps]:
  "off + length ys \<le> length xs \<Longrightarrow> subarr (blit xs off ys) off (length ys) = ys"
  by (simp add: blit_def subarr_def)

lemma take_blit_prefix [memsimps]:
  "n \<le> off \<Longrightarrow> off \<le> length xs \<Longrightarrow> take n (blit xs off ys) = take n xs"
  by (simp add: blit_def min_def)

lemma take_blit_append [memsimps]:
  "off \<le> length xs \<Longrightarrow> take (off + length ys) (blit xs off ys) = take off xs @ ys"
  by (simp add: blit_def)

lemma length_subarr [memsimps]: "off + n \<le> length xs \<Longrightarrow> length (subarr xs off n) = n"
  by (simp add: subarr_def)

lemma blit_blit_append:
  assumes "off + length ys + length zs \<le> length xs"
  shows "blit (blit xs off ys) (off + length ys) zs = blit xs off (ys @ zs)"
proof -
  have "drop (off + length ys + length zs) (blit xs off ys) = drop (off + length ys + length zs) xs"
    using assms by (simp add: blit_def add.commute)
  then show ?thesis
    using assms by (simp add: blit_def add.assoc)
qed

lemma subarr_append: "subarr xs off a @ subarr xs (off + a) b = subarr xs off (a + b)"
  by (simp add: subarr_def take_add add.commute)

lemma subarr_append_gen:
  assumes "a = off + n" shows "subarr xs off n @ subarr xs a b = subarr xs off (n + b)"
  using assms subarr_append by simp

lemma length_memset [memsimps]: "off + n \<le> length xs \<Longrightarrow> length (memset xs off v n) = length xs"
  by (simp add: memset_def memsimps)

lemma memset_all: "memset xs 0 v (length xs) = replicate (length xs) v"
  by (simp add: memset_def blit_def)

subsection \<open>memcpy\<close>

lemma length_memcpy_fwd [memsimps]: "length (memcpy_fwd m dst src n) = length m"
  by (induction m dst src n rule: memcpy_fwd.induct) auto

text \<open>
  The byte loop moves a block correctly whenever it does not write a source byte before it
  reads it: for disjoint regions, and for a move towards lower addresses.
\<close>

lemma memcpy_fwd_nth:
  assumes "dst \<le> src \<or> src + n \<le> dst" and "src + n \<le> length m" and "dst + n \<le> length m"
    and "i < length m"
  shows "memcpy_fwd m dst src n ! i =
    (if dst \<le> i \<and> i < dst + n then m ! (src + (i - dst)) else m ! i)"
  using assms
proof (induction m dst src n rule: memcpy_fwd.induct)
  case (1 m dst src)
  then show ?case by auto
next
  case (2 m dst src n)
  let ?m = "m[dst := m ! src]"
  have "memcpy_fwd ?m (Suc dst) (Suc src) n ! i =
    (if Suc dst \<le> i \<and> i < Suc dst + n then ?m ! (Suc src + (i - Suc dst)) else ?m ! i)"
    using 2 by (intro "2.IH") auto
  with "2.prems" show ?case
    by (auto simp: nth_list_update Suc_diff_Suc)
qed

lemma memcpy_fwd_blit:
  assumes "dst \<le> src \<or> src + n \<le> dst" and "src + n \<le> length m" and "dst + n \<le> length m"
  shows "memcpy_fwd m dst src n = blit m dst (subarr m src n)"
proof (rule nth_equalityI)
  have len: "length (subarr m src n) = n"
    using assms by (simp add: memsimps)
  show "length (memcpy_fwd m dst src n) = length (blit m dst (subarr m src n))"
    using assms len by (simp add: memsimps)
  fix i assume "i < length (memcpy_fwd m dst src n)"
  then have i: "i < length m" by (simp add: memsimps)
  show "memcpy_fwd m dst src n ! i = blit m dst (subarr m src n) ! i"
    using assms i len by (auto simp: memcpy_fwd_nth nth_blit subarr_def)
qed

text \<open>
  The contract of a \<^verbatim>\<open>memcpy\<close>, as the C standard states it: it keeps the array's length
  and moves the block when the regions are disjoint. A descending-safe \<^verbatim>\<open>memcpy\<close> also moves
  a block correctly towards lower addresses, as \<^verbatim>\<open>memmove\<close> would.
\<close>

locale memcpy_contract =
  fixes mcpy :: "u8 list \<Rightarrow> nat \<Rightarrow> nat \<Rightarrow> nat \<Rightarrow> u8 list"
  assumes mcpy_length: "src + n \<le> length m \<Longrightarrow> dst + n \<le> length m \<Longrightarrow>
      length (mcpy m dst src n) = length m"
    and mcpy_disjoint: "src + n \<le> length m \<Longrightarrow> dst + n \<le> length m \<Longrightarrow>
      disjoint_regions dst src n \<Longrightarrow> mcpy m dst src n = blit m dst (subarr m src n)"

locale memcpy_descending = memcpy_contract +
  assumes mcpy_down: "src + n \<le> length m \<Longrightarrow> dst \<le> src \<Longrightarrow>
      mcpy m dst src n = blit m dst (subarr m src n)"

text \<open>
  Dropping the first \<open>k\<close> of \<open>n\<close> bytes by a block move to the front, the step with which
  the FIFO drivers consume what was read.
\<close>

context memcpy_descending
begin

lemma shift_front:
  assumes "k \<le> n" and "n \<le> length m"
  shows "take (n - k) (mcpy m 0 k (n - k)) = drop k (take n m)"
proof -
  have "mcpy m 0 k (n - k) = blit m 0 (subarr m k (n - k))"
    using assms by (intro mcpy_down) auto
  then show ?thesis
    using assms by (simp add: blit_def subarr_def drop_take)
qed

lemma length_shift:
  assumes "k \<le> n" and "n \<le> length m"
  shows "length (mcpy m 0 k (n - k)) = length m"
  using assms by (intro mcpy_length) auto

end

context memcpy_contract
begin

lemma shift_front_disjoint:
  assumes "k \<le> n" and "n \<le> length m" and "n \<le> 2 * k"
  shows "take (n - k) (mcpy m 0 k (n - k)) = drop k (take n m)"
proof -
  have "mcpy m 0 k (n - k) = blit m 0 (subarr m k (n - k))"
    using assms by (intro mcpy_disjoint) (auto simp: disjoint_regions_def)
  then show ?thesis
    using assms by (simp add: blit_def subarr_def drop_take)
qed

end

interpretation fwd: memcpy_descending memcpy_fwd
proof
  fix src n :: nat and m :: "u8 list" and dst :: nat
  assume "src + n \<le> length m" "dst + n \<le> length m"
  then show "length (memcpy_fwd m dst src n) = length m"
    by (simp add: memsimps)
next
  fix src n :: nat and m :: "u8 list" and dst :: nat
  assume "src + n \<le> length m" "dst + n \<le> length m" "disjoint_regions dst src n"
  then show "memcpy_fwd m dst src n = blit m dst (subarr m src n)"
    by (intro memcpy_fwd_blit) (auto simp: disjoint_regions_def)
next
  fix src n :: nat and m :: "u8 list" and dst :: nat
  assume "src + n \<le> length m" "dst \<le> (src :: nat)"
  then show "memcpy_fwd m dst src n = blit m dst (subarr m src n)"
    by (intro memcpy_fwd_blit) auto
qed

section \<open>Transfers between kernel and user memory\<close>

text \<open>
  Both routines return the number of bytes they could not transfer. A user buffer handed to
  \<^verbatim>\<open>read\<close> is given by the number \<open>ulen\<close> of bytes the copy routine reaches before it
  faults; the result is what was stored there. A user buffer handed to \<^verbatim>\<open>write\<close> is the
  list of the bytes that can be fetched; when it is too short, \<^verbatim>\<open>copy_from_user\<close> pads the
  destination with zero bytes up to the requested size.
\<close>

definition copy_to_user :: "nat \<Rightarrow> u8 list \<Rightarrow> nat \<times> u8 list" where
  "copy_to_user ulen src = (length src - ulen, take ulen src)"

definition copy_from_user :: "u8 list \<Rightarrow> nat \<Rightarrow> u8 list \<Rightarrow> nat \<Rightarrow> nat \<times> u8 list" where
  "copy_from_user dst off ubuf n =
     (n - length ubuf, blit dst off (take n ubuf @ replicate (n - length ubuf) 0))"

lemma copy_to_user_ok: "length src \<le> ulen \<Longrightarrow> copy_to_user ulen src = (0, src)"
  by (simp add: copy_to_user_def)

lemma copy_from_user_ok:
  "n \<le> length ubuf \<Longrightarrow> copy_from_user dst off ubuf n = (0, blit dst off (take n ubuf))"
  by (simp add: copy_from_user_def)

lemma length_copy_from_user [memsimps]:
  "off + n \<le> length dst \<Longrightarrow> length (snd (copy_from_user dst off ubuf n)) = length dst"
  by (simp add: copy_from_user_def memsimps)

section \<open>The mutex\<close>

text \<open>
  A mutex is free or held by one task. Taking a mutex that is held, by another task or by the
  caller itself, does not return: the result is \<open>None\<close>.
\<close>

type_synonym mutex = "tid option"

definition mutex_lock :: "tid \<Rightarrow> mutex \<Rightarrow> mutex option" where
  "mutex_lock t m = (case m of None \<Rightarrow> Some (Some t) | Some _ \<Rightarrow> None)"

definition mutex_unlock :: "mutex \<Rightarrow> mutex" where
  "mutex_unlock m = None"

lemma mutex_lock_free [simp]: "mutex_lock t None = Some (Some t)"
  by (simp add: mutex_lock_def)

lemma mutex_lock_held [simp]: "mutex_lock t (Some h) = None"
  by (simp add: mutex_lock_def)

lemma mutex_lock_Some_iff: "mutex_lock t m = Some m' \<longleftrightarrow> m = None \<and> m' = Some t"
  by (auto simp: mutex_lock_def split: option.splits)

section \<open>Word arithmetic\<close>

text \<open>Counts are natural numbers throughout: \<open>int (unat x)\<close> stays as it is.\<close>

declare of_nat_unat [simp del]

lemma unat_ucast_down [wordsimps]: "unat (x :: u64) < 2 ^ 32 \<Longrightarrow> unat (ucast x :: u32) = unat x"
  by (simp add: unsigned_ucast_eq take_bit_nat_eq_self_iff)

lemma unat_ucast_up [wordsimps]: "unat (ucast (x :: u32) :: u64) = unat x"
  using unsigned_less [of x, where ?'a = nat]
  by (simp add: unsigned_ucast_eq take_bit_nat_eq_self_iff)

lemma unat_of_nat32 [wordsimps]: "n < 2 ^ 32 \<Longrightarrow> unat (of_nat n :: u32) = n"
  by (simp add: unat_of_nat)

lemma unat_of_nat64 [wordsimps]: "n < 2 ^ 64 \<Longrightarrow> unat (of_nat n :: u64) = n"
  by (simp add: unat_of_nat)

lemma unat_sub32 [wordsimps]: "(b :: u32) \<le> a \<Longrightarrow> unat (a - b) = unat a - unat b"
  by (simp add: unat_sub_if' word_le_nat_alt)

lemma unat_u32_bound: "unat (x :: u32) < 4294967296"
  using unsigned_less [of x, where ?'a = nat] by simp

lemma unat_plus64:
  "unat (a :: u64) + unat b < 2 ^ 64 \<Longrightarrow> unat (a + b) = unat a + unat b"
  by (simp add: unat_word_ariths)

lemma unat_plus32:
  "unat (a :: u32) + unat b < 2 ^ 32 \<Longrightarrow> unat (a + b) = unat a + unat b"
  by (simp add: unat_word_ariths)

lemma sint_small64:
  assumes "unat (x :: u64) < 2 ^ 63"
  shows "sint x = int (unat x)"
proof -
  have "int (unat x) < int (2 ^ 63)"
    using assms by (simp only: of_nat_less_iff)
  then have "uint x < 2 ^ 63"
    by (simp only: uint_nat of_nat_power of_nat_numeral)
  then have "signed_take_bit 63 (uint x) = uint x"
    by (intro signed_take_bit_int_eq_self) (auto intro: order_trans [of _ 0])
  then show ?thesis
    by (simp add: sint_uint uint_nat [symmetric])
qed

end
