(* ===== verification/Chr_Common.thy ===== *)
theory Chr_Common
  imports Ldd_Prelude
begin

text \<open>
  What the character drivers have in common: the seek handler, which every driver carries in
  the same words and with its own size constant; the registration of a device-number region and
  of the \<^verbatim>\<open>cdev\<close>s, with the kernel's answers as a parameter; and two interfaces. The locale
  \<open>byte_file\<close> is what a reader or writer of a fixed-size byte device relies on; the locale
  \<open>chr_lifecycle\<close> is what the module loader relies on.
\<close>

section \<open>Seeking\<close>

text \<open>
  \<open>chr_llseek SIZE f_pos offset orig\<close> returns the handler's result and the new
  \<^verbatim>\<open>filp->f_pos\<close>. The cast \<^verbatim>\<open>(unsigned int)offset\<close> keeps 32 bits; the sum
  \<^verbatim>\<open>filp->f_pos + offset\<close> is a 64-bit signed sum, compared as signed numbers.
\<close>

definition chr_llseek :: "nat \<Rightarrow> loff_t \<Rightarrow> loff_t \<Rightarrow> int \<Rightarrow> int \<times> loff_t" where
  "chr_llseek SIZE f_pos offset orig =
    (if orig = 0 then
       (if sint offset < 0 then (- EINVAL, f_pos)
        else if SIZE < unat (ucast offset :: u32) then (- EINVAL, f_pos)
        else (let p = ucast (ucast offset :: u32) in (sint p, p)))
     else if orig = 1 then
       (if int SIZE < sint (f_pos + offset) then (- EINVAL, f_pos)
        else if sint (f_pos + offset) < 0 then (- EINVAL, f_pos)
        else (let p = f_pos + offset in (sint p, p)))
     else (- EINVAL, f_pos))"

lemma sint_ge_0_unat:
  assumes "0 \<le> sint (x :: u64)"
  shows "unat x < 2 ^ 63 \<and> sint x = int (unat x)"
proof -
  have "unat x < 2 ^ 63"
  proof (rule ccontr)
    assume "\<not> unat x < 2 ^ 63"
    then have ge: "2 ^ 63 \<le> unat x" by simp
    have lt: "unat x < 2 ^ 64"
      using unsigned_less [of x, where ?'a = nat] by simp
    have "uint x = int (unat x)" by (rule uint_nat)
    then have "sint x = signed_take_bit 63 (int (unat x))"
      by (simp only: sint_uint) simp
    also have "\<dots> = int (unat x) - 2 ^ 64"
    proof -
      have "signed_take_bit 63 (int (unat x)) = signed_take_bit 63 (int (unat x) - 2 ^ 64)"
        by (rule signed_take_bit_eq_iff_take_bit_eq [THEN iffD2])
           (simp add: take_bit_eq_mod)
      also have "\<dots> = int (unat x) - 2 ^ 64"
        using ge lt by (intro signed_take_bit_int_eq_self) auto
      finally show ?thesis .
    qed
    finally show False using assms lt by simp
  qed
  then show ?thesis by (simp add: sint_small64)
qed

text \<open>A successful seek returns the new position, and the new position is within the device.\<close>

lemma chr_llseek_range:
  assumes "SIZE < 2 ^ 31" and "chr_llseek SIZE fp off orig = (r, fp')" and "0 \<le> r"
  shows "unat fp' \<le> SIZE \<and> r = int (unat fp')"
proof -
  have set: "unat fp' \<le> SIZE \<and> r = int (unat fp')"
    if "orig = 0"
  proof -
    from that assms have *: "unat (ucast off :: u32) \<le> SIZE"
        "fp' = ucast (ucast off :: u32)" "r = sint fp'"
      by (auto simp: chr_llseek_def Let_def split: if_splits)
    then have "unat fp' = unat (ucast off :: u32)" by (simp only: unat_ucast_up)
    with * assms show ?thesis by (simp add: sint_small64)
  qed
  have cur: "unat fp' \<le> SIZE \<and> r = int (unat fp')"
    if "orig = 1"
  proof -
    from that assms have *: "\<not> int SIZE < sint fp'" "\<not> sint fp' < 0" "r = sint fp'"
      by (auto simp: chr_llseek_def Let_def split: if_splits)
    then have "sint fp' = int (unat fp')" using sint_ge_0_unat [of fp'] by simp
    with * show ?thesis by simp
  qed
  from set cur assms show ?thesis
    by (cases "orig = 0"; cases "orig = 1") (auto simp: chr_llseek_def)
qed

lemma chr_llseek_error:
  "chr_llseek SIZE fp off orig = (r, fp') \<Longrightarrow> r < 0 \<Longrightarrow> SIZE < 2 ^ 31 \<Longrightarrow> r = - EINVAL \<and> fp' = fp"
  using unat_ucast_up [of "ucast off"]
  by (auto simp: chr_llseek_def Let_def sint_small64 split: if_splits)

text \<open>Absolute seeks below 4 GiB do what the caller asks.\<close>

lemma chr_llseek_set:
  assumes "unat off < 2 ^ 32" and "SIZE < 2 ^ 31"
  shows "chr_llseek SIZE fp off 0 =
    (if unat off \<le> SIZE then (int (unat off), off) else (- EINVAL, fp))"
proof -
  have u: "unat (ucast off :: u32) = unat off"
    using assms by (simp add: wordsimps)
  have uu: "ucast (ucast off :: u32) = off"
    by (rule unsigned_word_eqI [where ?'a = nat]) (simp add: u unat_ucast_up)
  have s: "sint off = int (unat off)"
    using assms by (intro sint_small64) simp
  show ?thesis
    by (simp add: chr_llseek_def u uu s Let_def)
qed

section \<open>The interface of a byte device\<close>

text \<open>
  \<open>rd d ulen sz pos\<close> is a \<^verbatim>\<open>read\<close> of up to \<open>sz\<close> bytes at file position \<open>pos\<close>
  into a user buffer that takes \<open>ulen\<close> bytes: \<open>None\<close> when the call does not return,
  otherwise its result, the bytes stored for the user, the new position and the new device.
  \<open>wr d ubuf sz pos\<close> is a \<^verbatim>\<open>write\<close>.
\<close>

locale byte_file =
  fixes rd :: "'d \<Rightarrow> nat \<Rightarrow> u32 \<Rightarrow> loff_t \<Rightarrow> (int \<times> u8 list \<times> loff_t \<times> 'd) option"
    and wr :: "'d \<Rightarrow> u8 list \<Rightarrow> u32 \<Rightarrow> loff_t \<Rightarrow> (int \<times> loff_t \<times> 'd) option"
    and contents :: "'d \<Rightarrow> u8 list"
    and inv :: "'d \<Rightarrow> bool"
    and cap :: nat
  assumes cap_small: "cap < 2 ^ 31"
    and contents_length: "inv d \<Longrightarrow> length (contents d) = cap"
    and rd_ok: "inv d \<Longrightarrow> unat pos \<le> cap \<Longrightarrow> n = min (unat sz) (cap - unat pos) \<Longrightarrow> n \<le> ulen \<Longrightarrow>
      \<exists>d'. rd d ulen sz pos = Some (int n, subarr (contents d) (unat pos) n, pos + of_nat n, d')
        \<and> inv d' \<and> contents d' = contents d"
    and wr_ok: "inv d \<Longrightarrow> unat pos \<le> cap \<Longrightarrow> n = min (unat sz) (cap - unat pos) \<Longrightarrow>
      n \<le> length ubuf \<Longrightarrow>
      \<exists>d'. wr d ubuf sz pos = Some (int n, pos + of_nat n, d')
        \<and> inv d' \<and> contents d' = blit (contents d) (unat pos) (take n ubuf)"
begin

lemma unat_pos_plus:
  assumes "unat pos \<le> cap" and "n \<le> cap - unat pos"
  shows "unat (pos + of_nat n :: loff_t) = unat pos + n"
proof -
  have "unat (of_nat n :: loff_t) = n"
    using assms cap_small by (intro unat_of_nat64) simp
  then show ?thesis
    using assms cap_small by (subst unat_plus64) auto
qed

text \<open>What was written is read back from the same position.\<close>

lemma write_read:
  assumes "inv d" and "unat pos + length bs \<le> cap" and "unat sz = length bs" and "length bs \<le> ulen"
  shows "\<exists>d' d''. wr d bs sz pos = Some (int (length bs), pos + of_nat (length bs), d')
    \<and> rd d' ulen sz pos = Some (int (length bs), bs, pos + of_nat (length bs), d'')
    \<and> inv d'' \<and> contents d'' = blit (contents d) (unat pos) bs"
proof -
  have n: "length bs = min (unat sz) (cap - unat pos)"
    using assms by auto
  obtain d' where d': "wr d bs sz pos = Some (int (length bs), pos + of_nat (length bs), d')"
      "inv d'" "contents d' = blit (contents d) (unat pos) bs"
    using wr_ok [OF assms(1) _ n, of bs] assms by auto
  obtain d'' where d'': "rd d' ulen sz pos = Some (int (length bs),
        subarr (contents d') (unat pos) (length bs), pos + of_nat (length bs), d'')"
      "inv d''" "contents d'' = contents d'"
    using rd_ok [OF d'(2) _ n, of ulen] assms by auto
  have "subarr (contents d') (unat pos) (length bs) = bs"
    using d'(3) assms contents_length [OF assms(1)] by (simp add: memsimps)
  with d' d'' show ?thesis by auto
qed

text \<open>Two consecutive writes store the concatenation of their bytes.\<close>

lemma write_write:
  assumes "inv d" and "unat pos + length xs + length ys \<le> cap"
    and "unat sx = length xs" and "unat sy = length ys"
  shows "\<exists>d' d''. wr d xs sx pos = Some (int (length xs), pos + of_nat (length xs), d')
    \<and> wr d' ys sy (pos + of_nat (length xs)) =
        Some (int (length ys), pos + of_nat (length xs) + of_nat (length ys), d'')
    \<and> inv d'' \<and> contents d'' = blit (contents d) (unat pos) (xs @ ys)"
proof -
  let ?p = "pos + of_nat (length xs) :: loff_t"
  have up: "unat ?p = unat pos + length xs"
    using assms by (intro unat_pos_plus) auto
  obtain d' where d': "wr d xs sx pos = Some (int (length xs), ?p, d')"
      "inv d'" "contents d' = blit (contents d) (unat pos) xs"
    using wr_ok [OF assms(1), of pos "length xs" sx xs] assms by auto
  obtain d'' where d'': "wr d' ys sy ?p = Some (int (length ys), ?p + of_nat (length ys), d'')"
      "inv d''" "contents d'' = blit (contents d') (unat ?p) ys"
    using wr_ok [OF d'(2), of ?p "length ys" sy ys] assms up by auto
  have "contents d'' = blit (contents d) (unat pos) (xs @ ys)"
    using d'(3) d''(3) assms contents_length [OF assms(1)]
    by (simp add: up blit_blit_append)
  with d' d'' show ?thesis by auto
qed

end

section \<open>Registration of device numbers\<close>

text \<open>
  The kernel's answers during one module initialisation. Negative numbers are errors, as
  documented for \<^verbatim>\<open>register_chrdev_region\<close>, \<^verbatim>\<open>alloc_chrdev_region\<close> and \<^verbatim>\<open>cdev_add\<close>.
\<close>

record chr_kernel =
  register_ret :: int
  alloc_ret :: int
  alloc_major :: int
  kzalloc_ok :: bool
  cdev_add_ret :: "nat \<Rightarrow> int"

text \<open>
  A module's registration state: the module variable with the major number, the regions of
  device numbers it holds (major, count), whether its device structures are allocated, and
  the minors whose \<^verbatim>\<open>cdev\<close> is added.
\<close>

record chr_module =
  major :: int
  regions :: "(int \<times> nat) list"
  devp :: bool
  cdevs :: "nat list"

definition chr_clean :: "chr_module \<Rightarrow> bool" where
  "chr_clean s \<longleftrightarrow> regions s = [] \<and> \<not> devp s \<and> cdevs s = []"

text \<open>
  The first half of every \<^verbatim>\<open>_init\<close> function: a fixed major is registered, a zero major is
  allocated and stored in the module variable (zero again when the allocation fails). The
  result is the kernel's answer and the state.
\<close>

definition chr_register :: "nat \<Rightarrow> chr_kernel \<Rightarrow> chr_module \<Rightarrow> int \<times> chr_module" where
  "chr_register n k s =
    (if major s \<noteq> 0 then
       (register_ret k,
        if register_ret k < 0 then s else s\<lparr>regions := (major s, n) # regions s\<rparr>)
     else if alloc_ret k < 0 then (alloc_ret k, s\<lparr>major := 0\<rparr>)
     else (alloc_ret k,
           s\<lparr>major := alloc_major k, regions := (alloc_major k, n) # regions s\<rparr>))"

definition unregister_chrdev_region :: "int \<Rightarrow> nat \<Rightarrow> chr_module \<Rightarrow> chr_module" where
  "unregister_chrdev_region m n s = s\<lparr>regions := remove1 (m, n) (regions s)\<rparr>"

text \<open>The \<^verbatim>\<open>_setup_cdev\<close> functions report an error of \<^verbatim>\<open>cdev_add\<close> in the log only.\<close>

definition chr_setup_cdev :: "chr_kernel \<Rightarrow> nat \<Rightarrow> chr_module \<Rightarrow> chr_module" where
  "chr_setup_cdev k index s =
    (if cdev_add_ret k index \<noteq> 0 then s else s\<lparr>cdevs := index # cdevs s\<rparr>)"

definition cdev_del :: "nat \<Rightarrow> chr_module \<Rightarrow> chr_module" where
  "cdev_del index s = s\<lparr>cdevs := remove1 index (cdevs s)\<rparr>"

lemma chr_register_region:
  "chr_register n k s = (r, s') \<Longrightarrow> \<not> r < 0 \<Longrightarrow>
     regions s' = (major s', n) # regions s \<and> devp s' = devp s \<and> cdevs s' = cdevs s"
  by (auto simp: chr_register_def split: if_splits)

lemma chr_register_fail:
  "chr_register n k s = (r, s') \<Longrightarrow> r < 0 \<Longrightarrow>
     regions s' = regions s \<and> devp s' = devp s \<and> cdevs s' = cdevs s"
  by (auto simp: chr_register_def split: if_splits)

lemma chr_setup_cdev_simps [simp]:
  "regions (chr_setup_cdev k i s) = regions s"
  "devp (chr_setup_cdev k i s) = devp s"
  "major (chr_setup_cdev k i s) = major s"
  "cdevs (chr_setup_cdev k i s) = (if cdev_add_ret k i = 0 then i # cdevs s else cdevs s)"
  by (auto simp: chr_setup_cdev_def)

lemma cdev_del_simps [simp]:
  "regions (cdev_del i s) = regions s"
  "devp (cdev_del i s) = devp s"
  "major (cdev_del i s) = major s"
  "cdevs (cdev_del i s) = remove1 i (cdevs s)"
  by (auto simp: cdev_del_def)

lemma unregister_simps [simp]:
  "regions (unregister_chrdev_region m n s) = remove1 (m, n) (regions s)"
  "devp (unregister_chrdev_region m n s) = devp s"
  "major (unregister_chrdev_region m n s) = major s"
  "cdevs (unregister_chrdev_region m n s) = cdevs s"
  by (auto simp: unregister_chrdev_region_def)

lemma fold_setup_cdev:
  "regions (fold (chr_setup_cdev k) is s) = regions s"
  "devp (fold (chr_setup_cdev k) is s) = devp s"
  "major (fold (chr_setup_cdev k) is s) = major s"
  "cdevs (fold (chr_setup_cdev k) is s) = rev (filter (\<lambda>i. cdev_add_ret k i = 0) is) @ cdevs s"
  by (induction "is" arbitrary: s) auto

lemma fold_cdev_del:
  "regions (fold cdev_del is s) = regions s"
  "devp (fold cdev_del is s) = devp s"
  "major (fold cdev_del is s) = major s"
  "distinct (cdevs s) \<Longrightarrow> cdevs (fold cdev_del is s) = filter (\<lambda>i. i \<notin> set is) (cdevs s)"
  by (induction "is" arbitrary: s) (auto simp: distinct_remove1_removeAll removeAll_filter_not_eq
      intro!: filter_cong)

subsection \<open>The interface of a loadable character driver\<close>

text \<open>
  \<open>attached\<close> describes the state after a successful initialisation. The loader may insert and
  remove the module any number of times; whatever the kernel answers, nothing stays behind.
\<close>

locale chr_lifecycle =
  fixes init :: "chr_kernel \<Rightarrow> chr_module \<Rightarrow> int \<times> chr_module"
    and exit :: "chr_module \<Rightarrow> chr_module"
    and attached :: "chr_module \<Rightarrow> bool"
  assumes init_fail: "chr_clean s \<Longrightarrow> init k s = (r, s') \<Longrightarrow> r < 0 \<Longrightarrow> chr_clean s'"
    and init_ok: "chr_clean s \<Longrightarrow> init k s = (r, s') \<Longrightarrow> \<not> r < 0 \<Longrightarrow> attached s'"
    and exit_clean: "attached s \<Longrightarrow> chr_clean (exit s)"
begin

fun load_unload :: "chr_kernel list \<Rightarrow> chr_module \<Rightarrow> chr_module" where
  "load_unload [] s = s"
| "load_unload (k # ks) s =
     (case init k s of (r, s') \<Rightarrow> load_unload ks (if r < 0 then s' else exit s'))"

lemma load_unload_clean: "chr_clean s \<Longrightarrow> chr_clean (load_unload ks s)"
proof (induction ks arbitrary: s)
  case Nil
  then show ?case by simp
next
  case (Cons k ks)
  obtain r s' where i: "init k s = (r, s')" by (cases "init k s") auto
  have "chr_clean (if r < 0 then s' else exit s')"
    using Cons.prems i by (auto intro: init_fail exit_clean init_ok)
  then show ?case using Cons.IH i by simp
qed

end

end
