(* ===== verification/Gmem.thy ===== *)
theory Gmem
  imports Chr_Common
begin

text \<open>
  The memory devices: \<^verbatim>\<open>src/gmem/gmem.c\<close> (one device, no lock),
  \<^verbatim>\<open>src/gmem_mutex/gmem_mutex.c\<close> (one device behind a mutex) and
  \<^verbatim>\<open>src/gmem_n/gmem_n.c\<close> (sixteen devices selected by the minor number). Each is a
  4096-byte array with \<^verbatim>\<open>read\<close>, \<^verbatim>\<open>write\<close>, \<^verbatim>\<open>llseek\<close>, an \<^verbatim>\<open>ioctl\<close> that clears it, and the
  module's load and unload functions.
\<close>

section \<open>gmem.c\<close>

abbreviation GMEM_SIZE :: u32 where "GMEM_SIZE \<equiv> 0x1000"
abbreviation MEM_CLEAR :: u32 where "MEM_CLEAR \<equiv> 1"

record gmem_dev =
  mem :: "u8 list"

text \<open>An open file: its position and the index of the device \<^verbatim>\<open>private_data\<close> points to.\<close>

record gmem_file =
  f_pos :: loff_t
  private_data :: "nat option"

definition gmem_open :: "gmem_file \<Rightarrow> int \<times> gmem_file" where
  "gmem_open filp = (0, filp\<lparr>private_data := Some 0\<rparr>)"

definition gmem_ioctl :: "gmem_dev \<Rightarrow> u32 \<Rightarrow> int \<times> gmem_dev" where
  "gmem_ioctl dev cmd =
    (if cmd = MEM_CLEAR then (0, dev\<lparr>mem := memset (mem dev) 0 0 (unat GMEM_SIZE)\<rparr>)
     else (- EINVAL, dev))"

definition gmem_read :: "gmem_dev \<Rightarrow> nat \<Rightarrow> u32 \<Rightarrow> loff_t \<Rightarrow> int \<times> u8 list \<times> loff_t" where
  "gmem_read dev ulen sz ppos =
    (let p = ucast ppos :: u32;
         count = sz
     in if GMEM_SIZE \<le> p then (0, [], ppos)
        else
          (let count = (if GMEM_SIZE - p < count then GMEM_SIZE - p else count);
               (left, user) = copy_to_user ulen (subarr (mem dev) (unat p) (unat count))
           in if left \<noteq> 0 then (- EFAULT, user, ppos)
              else (int (unat count), user, ppos + ucast count)))"

definition gmem_write :: "gmem_dev \<Rightarrow> u8 list \<Rightarrow> u32 \<Rightarrow> loff_t \<Rightarrow> int \<times> loff_t \<times> gmem_dev" where
  "gmem_write dev ubuf sz ppos =
    (let p = ucast ppos :: u32;
         count = sz
     in if GMEM_SIZE \<le> p then (0, ppos, dev)
        else
          (let count = (if GMEM_SIZE - p < count then GMEM_SIZE - p else count);
               (left, mem') = copy_from_user (mem dev) (unat p) ubuf (unat count);
               dev = dev\<lparr>mem := mem'\<rparr>
           in if left \<noteq> 0 then (- EFAULT, ppos, dev)
              else (int (unat count), ppos + ucast count, dev)))"

definition gmem_llseek :: "gmem_file \<Rightarrow> loff_t \<Rightarrow> int \<Rightarrow> int \<times> gmem_file" where
  "gmem_llseek filp offset orig =
    (case chr_llseek (unat GMEM_SIZE) (f_pos filp) offset orig of
       (ret, p) \<Rightarrow> (ret, filp\<lparr>f_pos := p\<rparr>))"

definition gmem_init :: "chr_kernel \<Rightarrow> chr_module \<Rightarrow> int \<times> chr_module" where
  "gmem_init k s =
    (case chr_register 1 k s of
       (ret, s) \<Rightarrow>
         if ret < 0 then (ret, s)
         else if \<not> kzalloc_ok k then (- ENOMEM, unregister_chrdev_region (major s) 1 s)
         else (0, chr_setup_cdev k 0 (s\<lparr>devp := True\<rparr>)))"

definition gmem_exit :: "chr_module \<Rightarrow> chr_module" where
  "gmem_exit s = unregister_chrdev_region (major s) 1 ((cdev_del 0 s)\<lparr>devp := False\<rparr>)"

definition gmem_inv :: "gmem_dev \<Rightarrow> bool" where
  "gmem_inv dev \<longleftrightarrow> length (mem dev) = 0x1000"

section \<open>gmem\_mutex.c\<close>

text \<open>
  The device with a mutex. A handler that cannot take the mutex does not return: \<open>None\<close>.
  The argument \<open>t\<close> is the calling task.
\<close>

record gmem_mutex_dev = gmem_dev +
  lock :: mutex

definition gmem_mutex_ioctl :: "tid \<Rightarrow> gmem_mutex_dev \<Rightarrow> u32 \<Rightarrow> (int \<times> gmem_mutex_dev) option" where
  "gmem_mutex_ioctl t dev cmd =
    (if cmd = MEM_CLEAR then
       (case mutex_lock t (lock dev) of
          None \<Rightarrow> None
        | Some l \<Rightarrow>
            let dev = dev\<lparr>lock := l\<rparr>;
                dev = dev\<lparr>mem := memset (mem dev) 0 0 (unat GMEM_SIZE)\<rparr>;
                dev = dev\<lparr>lock := mutex_unlock (lock dev)\<rparr>
            in Some (0, dev))
     else Some (- EINVAL, dev))"

definition gmem_mutex_read ::
    "tid \<Rightarrow> gmem_mutex_dev \<Rightarrow> nat \<Rightarrow> u32 \<Rightarrow> loff_t \<Rightarrow>
     (int \<times> u8 list \<times> loff_t \<times> gmem_mutex_dev) option" where
  "gmem_mutex_read t dev ulen sz ppos =
    (let p = ucast ppos :: u32;
         count = sz
     in if GMEM_SIZE \<le> p then Some (0, [], ppos, dev)
        else
          (let count = (if GMEM_SIZE - p < count then GMEM_SIZE - p else count)
           in case mutex_lock t (lock dev) of
                None \<Rightarrow> None
              | Some l \<Rightarrow>
                  (let dev = dev\<lparr>lock := l\<rparr>;
                       (left, user) = copy_to_user ulen (subarr (mem dev) (unat p) (unat count));
                       (ret, ppos) = (if left \<noteq> 0 then (- EFAULT, ppos)
                                      else (int (unat count), ppos + ucast count))
                   in Some (ret, user, ppos, dev\<lparr>lock := mutex_unlock (lock dev)\<rparr>))))"

definition gmem_mutex_write ::
    "tid \<Rightarrow> gmem_mutex_dev \<Rightarrow> u8 list \<Rightarrow> u32 \<Rightarrow> loff_t \<Rightarrow>
     (int \<times> loff_t \<times> gmem_mutex_dev) option" where
  "gmem_mutex_write t dev ubuf sz ppos =
    (let p = ucast ppos :: u32;
         count = sz
     in if GMEM_SIZE \<le> p then Some (0, ppos, dev)
        else
          (let count = (if GMEM_SIZE - p < count then GMEM_SIZE - p else count)
           in case mutex_lock t (lock dev) of
                None \<Rightarrow> None
              | Some l \<Rightarrow>
                  (let dev = dev\<lparr>lock := l\<rparr>;
                       (left, mem') = copy_from_user (mem dev) (unat p) ubuf (unat count);
                       dev = dev\<lparr>mem := mem'\<rparr>
                   in if left \<noteq> 0 then Some (- EFAULT, ppos, dev)
                      else Some (int (unat count), ppos + ucast count,
                                 dev\<lparr>lock := mutex_unlock (lock dev)\<rparr>))))"

definition gmem_mutex_llseek :: "gmem_file \<Rightarrow> loff_t \<Rightarrow> int \<Rightarrow> int \<times> gmem_file" where
  "gmem_mutex_llseek filp offset orig =
    (case chr_llseek (unat GMEM_SIZE) (f_pos filp) offset orig of
       (ret, p) \<Rightarrow> (ret, filp\<lparr>f_pos := p\<rparr>))"

definition gmem_mutex_init :: "chr_kernel \<Rightarrow> chr_module \<Rightarrow> int \<times> chr_module" where
  "gmem_mutex_init k s =
    (case chr_register 1 k s of
       (ret, s) \<Rightarrow>
         if ret < 0 then (ret, s)
         else if \<not> kzalloc_ok k then (- ENOMEM, unregister_chrdev_region (major s) 1 s)
         else (0, chr_setup_cdev k 0 (s\<lparr>devp := True\<rparr>)))"

definition gmem_mutex_exit :: "chr_module \<Rightarrow> chr_module" where
  "gmem_mutex_exit s = unregister_chrdev_region (major s) 1 ((cdev_del 0 s)\<lparr>devp := False\<rparr>)"

definition gmem_mutex_inv :: "gmem_mutex_dev \<Rightarrow> bool" where
  "gmem_mutex_inv dev \<longleftrightarrow> length (mem dev) = 0x1000 \<and> lock dev = None"

section \<open>gmem\_n.c\<close>

text \<open>
  Sixteen devices in one allocation. \<^verbatim>\<open>container_of(inode->i_cdev, ...)\<close> is the device
  whose \<^verbatim>\<open>cdev\<close> was added for the inode's minor number. A handler on a file that was never
  opened would follow a null \<^verbatim>\<open>private_data\<close>: \<open>None\<close>.
\<close>

abbreviation DEVICE_NUM :: nat where "DEVICE_NUM \<equiv> 0x10"

type_synonym gmem_n_devs = "gmem_dev list"

definition gmem_n_open :: "nat \<Rightarrow> gmem_file \<Rightarrow> int \<times> gmem_file" where
  "gmem_n_open i_cdev filp = (0, filp\<lparr>private_data := Some i_cdev\<rparr>)"

definition gmem_n_ioctl :: "gmem_file \<Rightarrow> gmem_n_devs \<Rightarrow> u32 \<Rightarrow> (int \<times> gmem_n_devs) option" where
  "gmem_n_ioctl filp devs cmd =
    (case private_data filp of
       None \<Rightarrow> None
     | Some i \<Rightarrow>
         if cmd = MEM_CLEAR
         then Some (0, devs[i := (devs ! i)\<lparr>mem := memset (mem (devs ! i)) 0 0 (unat GMEM_SIZE)\<rparr>])
         else Some (- EINVAL, devs))"

definition gmem_n_read ::
    "gmem_file \<Rightarrow> gmem_n_devs \<Rightarrow> nat \<Rightarrow> u32 \<Rightarrow> loff_t \<Rightarrow> (int \<times> u8 list \<times> loff_t) option" where
  "gmem_n_read filp devs ulen sz ppos =
    (let p = ucast ppos :: u32;
         count = sz
     in case private_data filp of
          None \<Rightarrow> None
        | Some i \<Rightarrow>
            if GMEM_SIZE \<le> p then Some (0, [], ppos)
            else
              (let count = (if GMEM_SIZE - p < count then GMEM_SIZE - p else count);
                   (left, user) = copy_to_user ulen (subarr (mem (devs ! i)) (unat p) (unat count))
               in if left \<noteq> 0 then Some (- EFAULT, user, ppos)
                  else Some (int (unat count), user, ppos + ucast count)))"

definition gmem_n_write ::
    "gmem_file \<Rightarrow> gmem_n_devs \<Rightarrow> u8 list \<Rightarrow> u32 \<Rightarrow> loff_t \<Rightarrow> (int \<times> loff_t \<times> gmem_n_devs) option" where
  "gmem_n_write filp devs ubuf sz ppos =
    (let p = ucast ppos :: u32;
         count = sz
     in case private_data filp of
          None \<Rightarrow> None
        | Some i \<Rightarrow>
            if GMEM_SIZE \<le> p then Some (0, ppos, devs)
            else
              (let count = (if GMEM_SIZE - p < count then GMEM_SIZE - p else count);
                   (left, mem') = copy_from_user (mem (devs ! i)) (unat p) ubuf (unat count);
                   devs = devs[i := (devs ! i)\<lparr>mem := mem'\<rparr>]
               in if left \<noteq> 0 then Some (- EFAULT, ppos, devs)
                  else Some (int (unat count), ppos + ucast count, devs)))"

definition gmem_n_llseek :: "gmem_file \<Rightarrow> loff_t \<Rightarrow> int \<Rightarrow> int \<times> gmem_file" where
  "gmem_n_llseek filp offset orig =
    (case chr_llseek (unat GMEM_SIZE) (f_pos filp) offset orig of
       (ret, p) \<Rightarrow> (ret, filp\<lparr>f_pos := p\<rparr>))"

definition gmem_n_init :: "chr_kernel \<Rightarrow> chr_module \<Rightarrow> int \<times> chr_module" where
  "gmem_n_init k s =
    (case chr_register DEVICE_NUM k s of
       (ret, s) \<Rightarrow>
         if ret < 0 then (ret, s)
         else if \<not> kzalloc_ok k then (- ENOMEM, unregister_chrdev_region (major s) DEVICE_NUM s)
         else (0, fold (chr_setup_cdev k) [0..<DEVICE_NUM] (s\<lparr>devp := True\<rparr>)))"

definition gmem_n_exit :: "chr_module \<Rightarrow> chr_module" where
  "gmem_n_exit s =
     unregister_chrdev_region (major s) DEVICE_NUM
       ((fold cdev_del [0..<DEVICE_NUM] s)\<lparr>devp := False\<rparr>)"

definition gmem_n_inv :: "gmem_n_devs \<Rightarrow> bool" where
  "gmem_n_inv devs \<longleftrightarrow> length devs = DEVICE_NUM \<and> list_all gmem_inv devs"

section \<open>Reading and writing\<close>

text \<open>The number of bytes a transfer of \<open>sz\<close> bytes at position \<open>p\<close> covers.\<close>

definition gmem_count :: "u32 \<Rightarrow> u32 \<Rightarrow> u32" where
  "gmem_count p sz = (if GMEM_SIZE - p < sz then GMEM_SIZE - p else sz)"

lemma unat_gmem_count:
  assumes "p \<le> GMEM_SIZE"
  shows "unat (gmem_count p sz) = min (unat sz) (0x1000 - unat p)"
proof -
  have "unat (GMEM_SIZE - p) = 0x1000 - unat p"
    using assms by (simp add: unat_sub32)
  then show ?thesis
    by (auto simp: gmem_count_def word_less_nat_alt)
qed

lemma gmem_pos_cases:
  fixes pos :: loff_t
  assumes "unat pos \<le> 0x1000"
  shows "unat (ucast pos :: u32) = unat pos" and "(ucast pos :: u32) \<le> GMEM_SIZE"
proof -
  show u: "unat (ucast pos :: u32) = unat pos"
    using assms by (simp add: unat_ucast_down)
  show "(ucast pos :: u32) \<le> GMEM_SIZE"
    using assms u by (simp add: word_le_nat_alt)
qed

lemma gmem_pos_step:
  "ucast (gmem_count p sz) = (of_nat (unat (gmem_count p sz)) :: loff_t)"
proof (rule unsigned_word_eqI [where ?'a = nat])
  have "unat (gmem_count p sz) < 2 ^ 64"
    using unat_u32_bound [of "gmem_count p sz"] by simp
  then show "unat (ucast (gmem_count p sz) :: loff_t) =
      unat (of_nat (unat (gmem_count p sz)) :: loff_t)"
    by (simp only: unat_ucast_up unat_of_nat64)
qed

lemma gmem_count_bound:
  assumes "\<not> GMEM_SIZE \<le> p"
  shows "unat p + unat (gmem_count p sz) \<le> 0x1000"
  using assms by (simp add: unat_gmem_count word_le_nat_alt)

text \<open>
  At a position inside or at the end of the device, a read delivers the bytes from there on,
  as many as asked for, as there are, and moves the position past them.
\<close>

lemma gmem_read_at:
  assumes "gmem_inv d" and "unat pos \<le> 0x1000" and "n = min (unat sz) (0x1000 - unat pos)"
    and "n \<le> ulen"
  shows "gmem_read d ulen sz pos = (int n, subarr (mem d) (unat pos) n, pos + of_nat n)"
proof (cases "GMEM_SIZE \<le> (ucast pos :: u32)")
  case True
  with assms gmem_pos_cases [OF assms(2)] have "unat pos = 0x1000"
    by (simp add: word_le_nat_alt)
  with assms show ?thesis
    by (simp add: gmem_read_def Let_def subarr_def word_le_nat_alt gmem_pos_cases(1))
next
  case False
  note u = gmem_pos_cases [OF assms(2)]
  have c: "unat (gmem_count (ucast pos) sz) = n"
    using u assms by (simp add: unat_gmem_count)
  then have "copy_to_user ulen (subarr (mem d) (unat pos) n) = (0, subarr (mem d) (unat pos) n)"
    using assms by (intro copy_to_user_ok) (simp add: memsimps gmem_inv_def)
  then show ?thesis
    using False u c gmem_pos_step [of "ucast pos" sz]
    by (simp add: gmem_read_def Let_def gmem_count_def [symmetric])
qed

lemma gmem_write_at:
  assumes "gmem_inv d" and "unat pos \<le> 0x1000" and "n = min (unat sz) (0x1000 - unat pos)"
    and "n \<le> length ubuf"
  shows "gmem_write d ubuf sz pos =
    (int n, pos + of_nat n, d\<lparr>mem := blit (mem d) (unat pos) (take n ubuf)\<rparr>)"
proof (cases "GMEM_SIZE \<le> (ucast pos :: u32)")
  case True
  with assms gmem_pos_cases [OF assms(2)] have "unat pos = 0x1000"
    by (simp add: word_le_nat_alt)
  with assms show ?thesis
    by (simp add: gmem_write_def Let_def word_le_nat_alt gmem_pos_cases(1))
next
  case False
  note u = gmem_pos_cases [OF assms(2)]
  have c: "unat (gmem_count (ucast pos) sz) = n"
    using u assms by (simp add: unat_gmem_count)
  then show ?thesis
    using False u c gmem_pos_step [of "ucast pos" sz] assms(4)
    by (simp add: gmem_write_def Let_def gmem_count_def [symmetric] copy_from_user_ok)
qed

lemma gmem_inv_write: "gmem_inv d \<Longrightarrow> gmem_inv (snd (snd (gmem_write d ubuf sz pos)))"
proof -
  assume inv: "gmem_inv d"
  show ?thesis
  proof (cases "GMEM_SIZE \<le> (ucast pos :: u32)")
    case True
    with inv show ?thesis by (simp add: gmem_write_def Let_def)
  next
    case False
    from gmem_count_bound [OF this, of sz] inv
    have "length (snd (copy_from_user (mem d) (unat (ucast pos :: u32)) ubuf
        (unat (gmem_count (ucast pos) sz)))) = 0x1000"
      by (subst length_copy_from_user) (auto simp: gmem_inv_def)
    with False show ?thesis
      by (auto simp: gmem_write_def Let_def gmem_count_def [symmetric] gmem_inv_def split: prod.splits)
  qed
qed

lemma gmem_inv_ioctl: "gmem_inv d \<Longrightarrow> gmem_inv (snd (gmem_ioctl d cmd))"
  by (simp add: gmem_ioctl_def gmem_inv_def memsimps)

text \<open>\<^verbatim>\<open>gmem.c\<close> provides the interface of a byte device.\<close>

interpretation gmem: byte_file
  "\<lambda>d ulen sz pos. case gmem_read d ulen sz pos of (r, bs, p) \<Rightarrow> Some (r, bs, p, d)"
  "\<lambda>d ubuf sz pos. Some (gmem_write d ubuf sz pos)"
  mem gmem_inv "0x1000"
proof (unfold_locales, goal_cases)
  case 1
  show ?case by simp
next
  case (2 d)
  then show ?case by (simp add: gmem_inv_def)
next
  case (3 d pos n sz ulen)
  then show ?case by (simp add: gmem_read_at)
next
  case (4 d pos n sz ubuf)
  then show ?case
    using gmem_inv_write [of d ubuf sz pos] by (simp add: gmem_write_at)
qed

lemma gmem_read_call:
  "(case gmem_read d ulen sz pos of (r, bs, p) \<Rightarrow> Some (r, bs, p, d)) = Some (r', bs', p', d') \<longleftrightarrow>
     gmem_read d ulen sz pos = (r', bs', p') \<and> d' = d"
  by (auto split: prod.splits)

section \<open>The device behind the mutex\<close>

text \<open>With the mutex free, a read is the read of \<^verbatim>\<open>gmem.c\<close> and leaves the device as it was.\<close>

lemma gmem_mutex_read_free:
  assumes "lock d = None"
  shows "gmem_mutex_read t d ulen sz pos =
    (case gmem_read (gmem_dev.truncate d) ulen sz pos of (r, bs, p) \<Rightarrow> Some (r, bs, p, d))"
  using assms
  by (cases d) (auto simp: gmem_mutex_read_def gmem_read_def Let_def mutex_unlock_def
      gmem_dev.truncate_def split: prod.splits)

lemma gmem_mutex_read_held:
  "lock d = Some h \<Longrightarrow> unat pos < 0x1000 \<Longrightarrow> gmem_mutex_read t d ulen sz pos = None"
  using gmem_pos_cases [of pos] by (simp add: gmem_mutex_read_def Let_def word_le_nat_alt)

lemma gmem_mutex_write_held:
  "lock d = Some h \<Longrightarrow> unat pos < 0x1000 \<Longrightarrow> gmem_mutex_write t d ubuf sz pos = None"
  using gmem_pos_cases [of pos] by (simp add: gmem_mutex_write_def Let_def word_le_nat_alt)

lemma gmem_mutex_ioctl_held: "lock d = Some h \<Longrightarrow> gmem_mutex_ioctl t d MEM_CLEAR = None"
  by (simp add: gmem_mutex_ioctl_def)

lemma gmem_mutex_write_ok:
  assumes "gmem_mutex_inv d" and "unat pos \<le> 0x1000" and "n = min (unat sz) (0x1000 - unat pos)"
    and "n \<le> length ubuf"
  shows "gmem_mutex_write t d ubuf sz pos =
    Some (int n, pos + of_nat n, d\<lparr>mem := blit (mem d) (unat pos) (take n ubuf)\<rparr>)"
proof (cases "GMEM_SIZE \<le> (ucast pos :: u32)")
  case True
  with assms gmem_pos_cases [OF assms(2)] have "unat pos = 0x1000"
    by (simp add: word_le_nat_alt)
  with assms show ?thesis
    by (simp add: gmem_mutex_write_def Let_def word_le_nat_alt gmem_pos_cases(1))
next
  case False
  note u = gmem_pos_cases [OF assms(2)]
  have c: "unat (gmem_count (ucast pos) sz) = n"
    using u assms by (simp add: unat_gmem_count)
  from assms(1) have "lock d = None" by (simp add: gmem_mutex_inv_def)
  then have "d\<lparr>lock := None, mem := m\<rparr> = d\<lparr>mem := m\<rparr>" for m
    by (cases d) simp
  then show ?thesis
    using False u c gmem_pos_step [of "ucast pos" sz] assms(4) \<open>lock d = None\<close>
    by (simp add: gmem_mutex_write_def Let_def gmem_count_def [symmetric] copy_from_user_ok
        mutex_unlock_def)
qed

text \<open>The faulting write: the early return skips \<^verbatim>\<open>mutex_unlock\<close>.\<close>

lemma gmem_mutex_write_fault_at:
  assumes "gmem_mutex_inv d" and "unat pos < 0x1000"
    and "length ubuf < min (unat sz) (0x1000 - unat pos)"
  shows "\<exists>d'. gmem_mutex_write t d ubuf sz pos = Some (- EFAULT, pos, d') \<and> lock d' = Some t"
proof -
  note u = gmem_pos_cases [of pos]
  have c: "unat (gmem_count (ucast pos) sz) = min (unat sz) (0x1000 - unat pos)"
    using u assms by (simp add: unat_gmem_count)
  have "\<not> GMEM_SIZE \<le> (ucast pos :: u32)"
    using u assms by (simp add: word_le_nat_alt)
  then show ?thesis
    using assms c u
    by (simp add: gmem_mutex_write_def Let_def gmem_count_def [symmetric] gmem_mutex_inv_def
        copy_from_user_def)
qed

interpretation gmem_mutex: byte_file
  "gmem_mutex_read t" "gmem_mutex_write t" mem gmem_mutex_inv "0x1000" for t
proof (unfold_locales, goal_cases)
  case 1
  show ?case by simp
next
  case (2 d)
  then show ?case by (simp add: gmem_mutex_inv_def)
next
  case (3 d pos n sz ulen)
  then have "gmem_inv (gmem_dev.truncate d)" "lock d = None"
    by (simp_all add: gmem_inv_def gmem_mutex_inv_def gmem_dev.truncate_def)
  then show ?case
    using 3 by (simp add: gmem_mutex_read_free gmem_read_at gmem_dev.truncate_def)
next
  case (4 d pos n sz ubuf)
  then show ?case
    by (simp add: gmem_mutex_write_ok) (simp add: gmem_mutex_inv_def memsimps)
qed

section \<open>Sixteen devices\<close>

text \<open>The handlers of \<^verbatim>\<open>gmem_n.c\<close> are those of \<^verbatim>\<open>gmem.c\<close> on the file's device.\<close>

lemma gmem_n_read_eq:
  "private_data filp = Some i \<Longrightarrow>
     gmem_n_read filp devs ulen sz pos = Some (gmem_read (devs ! i) ulen sz pos)"
  by (simp add: gmem_n_read_def gmem_read_def Let_def split: prod.splits)

lemma gmem_n_write_eq:
  "private_data filp = Some i \<Longrightarrow>
     gmem_n_write filp devs ubuf sz pos =
       (case gmem_write (devs ! i) ubuf sz pos of (r, p, d) \<Rightarrow> Some (r, p, devs[i := d]))"
  by (simp add: gmem_n_write_def gmem_write_def Let_def split: prod.splits)

lemma gmem_n_inv_nth: "gmem_n_inv devs \<Longrightarrow> i < DEVICE_NUM \<Longrightarrow> gmem_inv (devs ! i)"
  by (simp add: gmem_n_inv_def list_all_length)

lemma gmem_n_inv_update:
  "gmem_n_inv devs \<Longrightarrow> gmem_inv d \<Longrightarrow> gmem_n_inv (devs[i := d])"
  by (auto simp: gmem_n_inv_def list_all_iff dest!: subsetD [OF set_update_subset_insert])

section \<open>Loading and unloading\<close>

definition gmem_attached :: "nat \<Rightarrow> chr_module \<Rightarrow> bool" where
  "gmem_attached n s \<longleftrightarrow>
     regions s = [(major s, n)] \<and> devp s \<and> set (cdevs s) \<subseteq> {0..<n} \<and> distinct (cdevs s)"

interpretation gmem_chr: chr_lifecycle gmem_init gmem_exit "gmem_attached 1"
proof (unfold_locales, goal_cases)
  case (1 s k r s')
  then show ?case
    by (auto simp: gmem_init_def chr_clean_def split: prod.splits if_splits
        dest: chr_register_region chr_register_fail)
next
  case (2 s k r s')
  then show ?case
    by (auto simp: gmem_init_def chr_clean_def gmem_attached_def split: prod.splits if_splits
        dest: chr_register_region)
next
  case (3 s)
  then show ?case
    by (auto simp: gmem_exit_def chr_clean_def gmem_attached_def distinct_remove1_removeAll)
       (metis insert_subset removeAll_id singleton_iff subset_singletonD set_removeAll
         Diff_eq_empty_iff set_empty2)
qed

lemma gmem_mutex_init_eq: "gmem_mutex_init = gmem_init"
  by (simp add: fun_eq_iff gmem_mutex_init_def gmem_init_def)

lemma gmem_mutex_exit_eq: "gmem_mutex_exit = gmem_exit"
  by (simp add: fun_eq_iff gmem_mutex_exit_def gmem_exit_def)

interpretation gmem_mutex_chr: chr_lifecycle gmem_mutex_init gmem_mutex_exit "gmem_attached 1"
  unfolding gmem_mutex_init_eq gmem_mutex_exit_eq by (rule gmem_chr.chr_lifecycle_axioms)

interpretation gmem_n_chr: chr_lifecycle gmem_n_init gmem_n_exit "gmem_attached DEVICE_NUM"
proof (unfold_locales, goal_cases)
  case (1 s k r s')
  then show ?case
    by (auto simp: gmem_n_init_def chr_clean_def split: prod.splits if_splits
        dest: chr_register_region chr_register_fail)
next
  case (2 s k r s')
  obtain r0 s0 where reg: "chr_register DEVICE_NUM k s = (r0, s0)"
    by (cases "chr_register DEVICE_NUM k s") auto
  with 2 have "\<not> r0 < 0" and s': "s' = fold (chr_setup_cdev k) [0..<DEVICE_NUM] (s0\<lparr>devp := True\<rparr>)"
    by (auto simp: gmem_n_init_def split: if_splits)
  with reg 2 have "regions s0 = [(major s0, DEVICE_NUM)]" "cdevs s0 = []"
    by (auto simp: chr_clean_def dest: chr_register_region)
  then show ?case
    unfolding s' by (auto simp: gmem_attached_def fold_setup_cdev)
next
  case (3 s)
  then show ?case
    by (auto simp: gmem_n_exit_def chr_clean_def gmem_attached_def fold_cdev_del
        filter_empty_conv)
qed

section \<open>Properties\<close>

text \<open>
  \<^verbatim>\<open>gmem_read\<close> on every branch, at file positions below 4 GiB: end of file past the
  device, otherwise the bytes of the array from the position on, at most to its end; a user
  buffer that takes fewer bytes gives \<^verbatim>\<open>-EFAULT\<close> and leaves the position unchanged.
\<close>

theorem gmem_read_spec:
  assumes "gmem_inv d" and "unat pos < 2 ^ 32"
  shows "gmem_read d ulen sz pos =
    (if 0x1000 \<le> unat pos then (0, [], pos)
     else let n = min (unat sz) (0x1000 - unat pos)
          in if n \<le> ulen then (int n, subarr (mem d) (unat pos) n, pos + of_nat n)
             else (- EFAULT, subarr (mem d) (unat pos) ulen, pos))"
proof (cases "0x1000 \<le> unat pos")
  case True
  with assms have "unat (ucast pos :: u32) = unat pos" by (simp add: unat_ucast_down)
  with True show ?thesis by (simp add: gmem_read_def Let_def word_le_nat_alt)
next
  case False
  define n where "n = min (unat sz) (0x1000 - unat pos)"
  have c: "unat (gmem_count (ucast pos) sz) = n"
    using False gmem_pos_cases [of pos] by (simp add: unat_gmem_count n_def)
  have len: "length (subarr (mem d) (unat pos) n) = n"
    using assms False by (intro length_subarr) (auto simp: gmem_inv_def n_def)
  have "take ulen (subarr (mem d) (unat pos) n) = subarr (mem d) (unat pos) ulen" if "ulen < n"
    using that by (simp add: subarr_def min_def)
  then show ?thesis
    using False gmem_pos_cases [of pos] c len gmem_read_at [OF assms(1), of pos n sz ulen]
    by (auto simp: n_def [symmetric] gmem_read_def Let_def gmem_count_def [symmetric]
        word_le_nat_alt copy_to_user_def)
qed

theorem gmem_read_spec_witness:
  "gmem_inv \<lparr>mem = replicate 0x1000 7\<rparr> \<and> unat (0xFFE :: loff_t) < 2 ^ 32 \<and>
   gmem_read \<lparr>mem = replicate 0x1000 7\<rparr> 10 5 0xFFE = (2, [7, 7], 0x1000) \<and>
   gmem_read \<lparr>mem = replicate 0x1000 7\<rparr> 1 5 0xFFE = (- EFAULT, [7], 0xFFE)"
proof -
  have i: "gmem_inv \<lparr>mem = replicate 0x1000 7\<rparr>" by (simp add: gmem_inv_def)
  have s: "subarr (replicate 0x1000 (7 :: u8)) 0xFFE 2 = [7, 7]"
    "subarr (replicate 0x1000 (7 :: u8)) 0xFFE (Suc 0) = [7]"
    by (simp_all add: subarr_def numeral_2_eq_2)
  show ?thesis
    using i gmem_read_spec [OF i, of "0xFFE" 10 5] gmem_read_spec [OF i, of "0xFFE" 1 5] s
    by (simp add: Let_def)
qed

text \<open>
  C27. Round trip: bytes written inside the device are read back from the same position, the
  position moves past them, and no byte outside the written range changes.
\<close>

theorem gmem_write_then_read:
  assumes "gmem_inv d" and "unat pos + length bs \<le> 0x1000" and "unat sz = length bs"
    and "length bs \<le> ulen"
  shows "case gmem_write d bs sz pos of (r, p, d') \<Rightarrow>
    r = int (length bs) \<and> unat p = unat pos + length bs \<and> gmem_inv d' \<and>
    gmem_read d' ulen sz pos = (int (length bs), bs, p) \<and>
    (\<forall>i < 0x1000. i < unat pos \<or> unat pos + length bs \<le> i \<longrightarrow> mem d' ! i = mem d ! i)"
proof -
  obtain d' where w: "gmem_write d bs sz pos = (int (length bs), pos + of_nat (length bs), d')"
    and r: "gmem_read d' ulen sz pos = (int (length bs), bs, pos + of_nat (length bs))"
    and m: "gmem_inv d'" "mem d' = blit (mem d) (unat pos) bs"
    using gmem.write_read [OF assms] by (auto simp: gmem_read_call)
  have "unat (pos + of_nat (length bs) :: loff_t) = unat pos + length bs"
    using assms by (intro gmem.unat_pos_plus) auto
  with w r m show ?thesis
    using assms by (auto simp: gmem_inv_def nth_blit)
qed

theorem gmem_write_then_read_witness:
  "gmem_inv \<lparr>mem = replicate 0x1000 0\<rparr> \<and>
   (case gmem_write \<lparr>mem = replicate 0x1000 0\<rparr> [1, 2, 3] 3 5 of (r, p, d') \<Rightarrow>
      r = 3 \<and> unat p = 8 \<and> gmem_read d' 3 3 5 = (3, [1, 2, 3], p))"
proof -
  have i: "gmem_inv \<lparr>mem = replicate 0x1000 0\<rparr>" by (simp add: gmem_inv_def)
  show ?thesis
    using i gmem_write_then_read [OF i, of 5 "[1, 2, 3]" 3 3] by (auto split: prod.splits)
qed

text \<open>
  Seeking: an absolute seek below 4 GiB is accepted exactly for offsets up to the size of
  the device and then returns the offset; whatever the arguments, a seek either fails with
  \<^verbatim>\<open>-EINVAL\<close> and keeps the position, or returns the new position, which is within the device.
\<close>

theorem gmem_llseek_spec:
  "(unat off < 2 ^ 32 \<longrightarrow>
      gmem_llseek filp off 0 =
        (if unat off \<le> 0x1000 then (int (unat off), filp\<lparr>f_pos := off\<rparr>) else (- EINVAL, filp))) \<and>
   (case gmem_llseek filp off orig of (r, filp') \<Rightarrow>
      (r = - EINVAL \<and> filp' = filp) \<or>
      (r = int (unat (f_pos filp')) \<and> unat (f_pos filp') \<le> 0x1000))"
proof (intro conjI impI)
  assume "unat off < 2 ^ 32"
  then show "gmem_llseek filp off 0 =
      (if unat off \<le> 0x1000 then (int (unat off), filp\<lparr>f_pos := off\<rparr>) else (- EINVAL, filp))"
    by (simp add: gmem_llseek_def chr_llseek_set)
next
  obtain r fp where s: "chr_llseek (unat GMEM_SIZE) (f_pos filp) off orig = (r, fp)"
    by (cases "chr_llseek (unat GMEM_SIZE) (f_pos filp) off orig") auto
  show "case gmem_llseek filp off orig of (r, filp') \<Rightarrow>
      (r = - EINVAL \<and> filp' = filp) \<or>
      (r = int (unat (f_pos filp')) \<and> unat (f_pos filp') \<le> 0x1000)"
    using s chr_llseek_range [OF _ s] chr_llseek_error [OF s]
    by (cases "r < 0") (auto simp: gmem_llseek_def)
qed

theorem gmem_llseek_spec_witness:
  "gmem_llseek \<lparr>f_pos = 3, private_data = Some 0\<rparr> 0x1000 0 =
     (0x1000, \<lparr>f_pos = 0x1000, private_data = Some 0\<rparr>) \<and>
   gmem_llseek \<lparr>f_pos = 3, private_data = Some 0\<rparr> 0x1001 0 =
     (- EINVAL, \<lparr>f_pos = 3, private_data = Some 0\<rparr>)"
  using gmem_llseek_spec [of "0x1000" "\<lparr>f_pos = 3, private_data = Some 0\<rparr>" 0]
    gmem_llseek_spec [of "0x1001" "\<lparr>f_pos = 3, private_data = Some 0\<rparr>" 0]
  by simp

text \<open>
  Offsets of 4 GiB and more are reduced modulo \<open>2 ^ 32\<close>: a read at \<open>2 ^ 32 + k\<close> delivers
  the bytes at \<open>k\<close> instead of end of file, and an absolute seek to \<open>2 ^ 32 + k\<close> succeeds
  and lands on \<open>k\<close>.
\<close>

theorem gmem_large_offsets_alias:
  assumes "unat k \<le> 0x1000"
  shows "fst (gmem_read d ulen sz (k + 0x100000000)) = fst (gmem_read d ulen sz k) \<and>
    fst (snd (gmem_read d ulen sz (k + 0x100000000))) = fst (snd (gmem_read d ulen sz k)) \<and>
    gmem_llseek filp (k + 0x100000000) 0 = (int (unat k), filp\<lparr>f_pos := k\<rparr>)"
proof -
  have u: "ucast (k + 0x100000000 :: loff_t) = (ucast k :: u32)"
    by (rule unsigned_word_eqI [where ?'a = nat])
       (simp add: unsigned_ucast_eq unat_word_ariths take_bit_eq_mod mod_mod_cancel)
  have unat: "unat (k + 0x100000000 :: loff_t) = unat k + 0x100000000"
    using assms by (subst unat_plus64) auto
  have c: "ucast (ucast k :: u32) = k" "unat (ucast k :: u32) = unat k"
    using assms
    by (auto intro!: unsigned_word_eqI [where ?'a = nat] simp: unat_ucast_up unat_ucast_down)
  have "\<not> sint (k + 0x100000000 :: loff_t) < 0" "sint k = int (unat k)"
    using assms unat by (simp_all add: sint_small64)
  then have "gmem_llseek filp (k + 0x100000000) 0 = (int (unat k), filp\<lparr>f_pos := k\<rparr>)"
    using assms c by (simp add: gmem_llseek_def chr_llseek_def u Let_def)
  then show ?thesis
    by (simp add: gmem_read_def u Let_def split: prod.splits)
qed

theorem gmem_large_offsets_alias_witness:
  "unat (4 :: loff_t) \<le> 0x1000 \<and>
   gmem_llseek \<lparr>f_pos = 0, private_data = Some 0\<rparr> 0x100000004 0 =
     (4, \<lparr>f_pos = 4, private_data = Some 0\<rparr>)"
  using gmem_large_offsets_alias [of 4 _ _ _ "\<lparr>f_pos = 0, private_data = Some 0\<rparr>"] by simp

text \<open>
  C29. \<^verbatim>\<open>gmem_mutex.c\<close>: every handler that returns releases the mutex, except a \<^verbatim>\<open>write\<close>
  that faults on the user buffer.
\<close>

theorem gmem_mutex_released:
  assumes "lock d = None"
  shows "(\<exists>r bs p. gmem_mutex_read t d ulen sz pos = Some (r, bs, p, d)) \<and>
    (\<exists>r d'. gmem_mutex_ioctl t d cmd = Some (r, d') \<and> lock d' = None) \<and>
    (\<exists>r p d'. gmem_mutex_write t d ubuf sz pos = Some (r, p, d') \<and>
       (lock d' = None \<longleftrightarrow> r \<noteq> - EFAULT) \<and> (r = - EFAULT \<longrightarrow> lock d' = Some t))"
proof (intro conjI)
  show "\<exists>r bs p. gmem_mutex_read t d ulen sz pos = Some (r, bs, p, d)"
    using assms by (simp add: gmem_mutex_read_free split: prod.splits)
  show "\<exists>r d'. gmem_mutex_ioctl t d cmd = Some (r, d') \<and> lock d' = None"
    using assms by (simp add: gmem_mutex_ioctl_def Let_def mutex_unlock_def)
  show "\<exists>r p d'. gmem_mutex_write t d ubuf sz pos = Some (r, p, d') \<and>
       (lock d' = None \<longleftrightarrow> r \<noteq> - EFAULT) \<and> (r = - EFAULT \<longrightarrow> lock d' = Some t)"
    using assms by (auto simp: gmem_mutex_write_def Let_def mutex_unlock_def copy_from_user_def)
qed

theorem gmem_mutex_released_witness:
  "\<exists>r p d'. gmem_mutex_write 7 \<lparr>mem = replicate 0x1000 0, lock = None\<rparr> [1] 1 0 = Some (r, p, d') \<and>
     (lock d' = None \<longleftrightarrow> r \<noteq> - EFAULT)"
  using gmem_mutex_released [of "\<lparr>mem = replicate 0x1000 0, lock = None\<rparr>" 7 0 1 0 0 "[1]"] by auto

text \<open>
  The leaked mutex stops the device for good: after one \<^verbatim>\<open>write\<close> whose user buffer
  faults, no later \<^verbatim>\<open>read\<close>, \<^verbatim>\<open>write\<close> or clear of any task returns.
\<close>

theorem gmem_mutex_fault_blocks_device:
  assumes "gmem_mutex_inv d" and "unat pos < 0x1000"
    and "length ubuf < min (unat sz) (0x1000 - unat pos)" and "unat pos' < 0x1000"
  shows "\<exists>d'. gmem_mutex_write t d ubuf sz pos = Some (- EFAULT, pos, d') \<and>
    gmem_mutex_read t' d' ulen sz' pos' = None \<and>
    gmem_mutex_write t' d' ubuf' sz' pos' = None \<and>
    gmem_mutex_ioctl t' d' MEM_CLEAR = None"
  using gmem_mutex_write_fault_at [OF assms(1-3), of t] assms(4)
  by (auto simp: gmem_mutex_read_held gmem_mutex_write_held gmem_mutex_ioctl_held)

theorem gmem_mutex_fault_blocks_device_witness:
  "\<exists>d'. gmem_mutex_write 1 \<lparr>mem = replicate 0x1000 0, lock = None\<rparr> [] 4 0 = Some (- EFAULT, 0, d') \<and>
     gmem_mutex_read 2 d' 10 10 0 = None"
proof -
  have "gmem_mutex_inv \<lparr>mem = replicate 0x1000 0, lock = None\<rparr>"
    by (simp add: gmem_mutex_inv_def)
  then show ?thesis
    using gmem_mutex_fault_blocks_device
      [of "\<lparr>mem = replicate 0x1000 0, lock = None\<rparr>" 0 "[]" 4 0 1 2 10 10] by auto
qed

text \<open>
  \<^verbatim>\<open>gmem_n.c\<close>: a file opened on minor \<open>i\<close> reads and writes device \<open>i\<close> exactly as
  \<^verbatim>\<open>gmem.c\<close> does, keeps all sixteen devices well-formed, and never changes another device.
\<close>

theorem gmem_n_isolation:
  assumes "gmem_n_inv devs" and "i < DEVICE_NUM" and "snd (gmem_n_open i f) = filp"
  shows "gmem_n_read filp devs ulen sz pos = Some (gmem_read (devs ! i) ulen sz pos) \<and>
    (\<exists>r p devs'. gmem_n_write filp devs ubuf sz pos = Some (r, p, devs') \<and> gmem_n_inv devs' \<and>
       gmem_write (devs ! i) ubuf sz pos = (r, p, devs' ! i) \<and>
       (\<forall>j. j \<noteq> i \<longrightarrow> devs' ! j = devs ! j))"
proof -
  have p: "private_data filp = Some i"
    using assms(3) by (auto simp: gmem_n_open_def)
  obtain r q d where w: "gmem_write (devs ! i) ubuf sz pos = (r, q, d)"
    by (cases "gmem_write (devs ! i) ubuf sz pos") auto
  with gmem_inv_write [OF gmem_n_inv_nth [OF assms(1,2)], of ubuf sz pos]
  have "gmem_n_inv (devs[i := d])"
    using assms by (intro gmem_n_inv_update) auto
  then show ?thesis
    using p w assms by (simp add: gmem_n_read_eq gmem_n_write_eq gmem_n_inv_def)
qed

theorem gmem_n_isolation_witness:
  "gmem_n_inv (replicate 0x10 \<lparr>mem = replicate 0x1000 0\<rparr>) \<and>
   (\<exists>r p devs'. gmem_n_write (snd (gmem_n_open 3 \<lparr>f_pos = 0, private_data = None\<rparr>))
        (replicate 0x10 \<lparr>mem = replicate 0x1000 0\<rparr>) [9] 1 0 = Some (r, p, devs') \<and>
      devs' ! 4 = \<lparr>mem = replicate 0x1000 0\<rparr>)"
proof -
  have i: "gmem_n_inv (replicate 0x10 \<lparr>mem = replicate 0x1000 0\<rparr>)"
    by (simp add: gmem_n_inv_def gmem_inv_def list_all_length)
  show ?thesis
    using i gmem_n_isolation [OF i, of 3 "\<lparr>f_pos = 0, private_data = None\<rparr>" _ 0 1 0 "[9]"] by auto
qed

text \<open>
  Loading \<^verbatim>\<open>gmem_n.ko\<close> into a clean kernel: on an error nothing stays registered or
  allocated; on success the region of sixteen numbers is held and unloading gives back all of it.
\<close>

theorem gmem_n_load_unload:
  assumes "chr_clean s" and "gmem_n_init k s = (r, s')"
  shows "(r < 0 \<longrightarrow> chr_clean s') \<and>
    (\<not> r < 0 \<longrightarrow> regions s' = [(major s', DEVICE_NUM)] \<and> devp s' \<and> chr_clean (gmem_n_exit s'))"
  using gmem_n_chr.init_fail [OF assms] gmem_n_chr.init_ok [OF assms] gmem_n_chr.exit_clean [of s']
  by (auto simp: gmem_attached_def)

theorem gmem_n_load_unload_witness:
  "\<exists>s'. gmem_n_init \<lparr>register_ret = 0, alloc_ret = 0, alloc_major = 0, kzalloc_ok = True,
          cdev_add_ret = \<lambda>_. 0\<rparr> \<lparr>major = 231, regions = [], devp = False, cdevs = []\<rparr> = (0, s') \<and>
     chr_clean (gmem_n_exit s')"
proof -
  let ?k = "\<lparr>register_ret = 0, alloc_ret = 0, alloc_major = 0, kzalloc_ok = True,
          cdev_add_ret = \<lambda>_. 0\<rparr>"
  let ?s = "\<lparr>major = 231, regions = [], devp = False, cdevs = []\<rparr>"
  have "fst (gmem_n_init ?k ?s) = 0"
    by (simp add: gmem_n_init_def chr_register_def)
  then obtain s' where "gmem_n_init ?k ?s = (0, s')"
    by (cases "gmem_n_init ?k ?s") auto
  then show ?thesis
    using gmem_n_load_unload [of ?s ?k 0 s'] by (simp add: chr_clean_def)
qed

end
