(* ===== verification/File_Reader.thy ===== *)
theory File_Reader
  imports Gmem
begin

text \<open>
  The test program \<^verbatim>\<open>src/test_suite/file_reader.c\<close>, which reads a device or file until end of
  file, as a client of the byte-device interface.
\<close>

abbreviation BUFF_SIZE :: u32 where "BUFF_SIZE \<equiv> 1024"

text \<open>
  The loop of \<^verbatim>\<open>main\<close> over a system call \<open>call\<close> that maps the state of the open file to
  the kernel's result, the bytes stored and the next state. It collects what is read. Interrupted
  and empty non-blocking reads are retried, so the loop need not end: the result is an option.
  The C library turns every negative result into \<open>-1\<close>, which \<^verbatim>\<open>main\<close> returns.
\<close>

partial_function (option) file_reader_loop ::
    "('s \<Rightarrow> (int \<times> u8 list \<times> 's) option) \<Rightarrow> 's \<Rightarrow> u8 list \<Rightarrow> (int \<times> u8 list \<times> 's) option" where
  "file_reader_loop call s out =
    (case call s of
       None \<Rightarrow> None
     | Some (ret, buff, s') \<Rightarrow>
         if ret > 0 then file_reader_loop call s' (out @ buff)
         else if ret = 0 then Some (0, out, s')
         else if ret = - EINTR then file_reader_loop call s' out
         else if ret = - EAGAIN then file_reader_loop call s' out
         else Some (- 1, out, s'))"

text \<open>
  The main program: usage without a file name, the mode of opening from a second argument that
  begins with \<^verbatim>\<open>nonblock\<close>, and the loop. \<open>op\<close> opens a file; the result is the exit status and what was read.
\<close>

definition file_reader_main ::
    "string list \<Rightarrow> (string \<Rightarrow> bool \<Rightarrow> 's option) \<Rightarrow> ('s \<Rightarrow> (int \<times> u8 list \<times> 's) option) \<Rightarrow> (int \<times> u8 list) option" where
  "file_reader_main argv op call =
    (if length argv < 2 then Some (- 1, [])
     else
       (let nonblock = (2 < length argv \<and> take 8 (argv ! 2) = ''nonblock'') in
        case op (argv ! 1) nonblock of
          None \<Rightarrow> Some (- 2, [])
        | Some s \<Rightarrow> map_option (\<lambda>(r, out, s). (r, out)) (file_reader_loop call s [])))"

text \<open>
  On a byte device the loop ends and has read everything from the current position to the end.
\<close>

context byte_file
begin

definition reader_call :: "'d \<times> loff_t \<Rightarrow> (int \<times> u8 list \<times> 'd \<times> loff_t) option" where
  "reader_call s = (case rd (fst s) (unat BUFF_SIZE) (BUFF_SIZE - 1) (snd s) of
     None \<Rightarrow> None | Some (r, bs, p, d) \<Rightarrow> Some (r, bs, d, p))"

lemma reader_reads_all:
  assumes "inv d" and "unat pos \<le> cap"
  shows "\<exists>d' p. file_reader_loop reader_call (d, pos) out =
      Some (0, out @ drop (unat pos) (contents d), d', p)
    \<and> inv d' \<and> contents d' = contents d \<and> unat p = cap"
  using assms
proof (induction "cap - unat pos" arbitrary: d pos out rule: less_induct)
  case less
  define n where "n = min 1023 (cap - unat pos)"
  have up: "unat (pos + of_nat n :: loff_t) = unat pos + n"
    using less.prems by (intro unat_pos_plus) (auto simp: n_def)
  obtain d' where d': "rd d (unat BUFF_SIZE) (BUFF_SIZE - 1) pos =
        Some (int n, subarr (contents d) (unat pos) n, pos + of_nat n, d')"
      "inv d'" "contents d' = contents d"
    using rd_ok [OF less.prems, of n "BUFF_SIZE - 1" "unat BUFF_SIZE"]
    by (auto simp: n_def min_le_iff_disj)
  have call: "reader_call (d, pos) =
      Some (int n, subarr (contents d) (unat pos) n, d', pos + of_nat n)"
    using d'(1) by (simp add: reader_call_def)
  show ?case
  proof (cases "unat pos = cap")
    case True
    then have "n = 0" by (simp add: n_def)
    then show ?thesis
      using True call d' contents_length [OF less.prems(1)]
      by (subst file_reader_loop.simps) simp
  next
    case False
    then have n: "0 < n" "unat pos + n \<le> cap"
      using less.prems by (auto simp: n_def)
    have "subarr (contents d) (unat pos) n @ drop (unat pos + n) (contents d) =
        drop (unat pos) (contents d)"
      by (simp add: subarr_def) (metis append_take_drop_id drop_drop add.commute)
    then show ?thesis
      using less.hyps [of "pos + of_nat n" d' "out @ subarr (contents d) (unat pos) n"]
        n call d' up less.prems
      by (subst file_reader_loop.simps) simp
  qed
qed

end

text \<open>The \<^verbatim>\<open>read\<close> call of the loop on an open file of the memory device.\<close>

definition gmem_reader_call :: "gmem_dev \<times> loff_t \<Rightarrow> (int \<times> u8 list \<times> gmem_dev \<times> loff_t) option" where
  "gmem_reader_call = (\<lambda>(d, pos).
     case gmem_read d (unat BUFF_SIZE) (BUFF_SIZE - 1) pos of (r, bs, p) \<Rightarrow> Some (r, bs, d, p))"

lemma gmem_reader_call_eq: "gmem_reader_call = gmem.reader_call"
  by (auto simp: fun_eq_iff gmem_reader_call_def gmem.reader_call_def split: prod.splits)



end
