(* ===== verification/Gfifo_Core.thy ===== *)
theory Gfifo_Core
  imports Chr_Common
begin

text \<open>
  The FIFO device that the six \<^verbatim>\<open>gfifo\<close> drivers share: \<^verbatim>\<open>src/gfifo/gfifo.c\<close> is the first of
  them and the others repeat its handlers with another size, a \<^verbatim>\<open>poll\<close> handler and SIGIO
  notification. This theory has the device structure, the data part of \<^verbatim>\<open>read\<close> and \<^verbatim>\<open>write\<close>
  (what happens under the mutex once there is something to transfer), \<^verbatim>\<open>ioctl\<close>, \<^verbatim>\<open>poll\<close> and
  \<^verbatim>\<open>llseek\<close>, and the refinement of the data part to a queue of bytes. The blocking protocol
  around it is in the theory \<^verbatim>\<open>Gfifo_Sched\<close>.
\<close>

section \<open>The device\<close>

text \<open>
  What distinguishes the drivers: the constant \<^verbatim>\<open>GFIFO_SIZE\<close>, whether there is a \<^verbatim>\<open>poll\<close>
  handler, whether readers and writers notify \<^verbatim>\<open>async_queue\<close>, and the \<^verbatim>\<open>memcpy\<close> they are
  linked with.
\<close>

record gfifo_cfg =
  GFIFO_SIZE :: u32
  has_poll :: bool
  has_async :: bool
  fifo_memcpy :: "u8 list \<Rightarrow> nat \<Rightarrow> nat \<Rightarrow> nat \<Rightarrow> u8 list"

text \<open>
  \<^verbatim>\<open>struct gfifo_dev\<close>. A wait queue is the list of the tasks on it; \<^verbatim>\<open>async_queue\<close> is the list
  of the open files that asked for SIGIO.
\<close>

record gfifo_dev =
  fmem :: "u8 list"
  fmutex :: mutex
  cur_len :: u32
  r_wait :: "tid list"
  w_wait :: "tid list"
  async_queue :: "nat list"

abbreviation FIFO_CLEAR :: u32 where "FIFO_CLEAR \<equiv> 1"
abbreviation POLLIN :: u32 where "POLLIN \<equiv> 0x1"
abbreviation POLLOUT :: u32 where "POLLOUT \<equiv> 0x4"
abbreviation POLLRDNORM :: u32 where "POLLRDNORM \<equiv> 0x40"
abbreviation POLLWRNORM :: u32 where "POLLWRNORM \<equiv> 0x100"

unbundle bit_operations_syntax

section \<open>The data part of the handlers\<close>

text \<open>
  \<^verbatim>\<open>gfifo_read\<close> after its wait loop: the count is cut to what is stored, copied out, and the
  rest moved to the front. The result is the return value, the bytes stored in the user buffer
  and the device.
\<close>

definition gfifo_read_data ::
    "gfifo_cfg \<Rightarrow> gfifo_dev \<Rightarrow> nat \<Rightarrow> u32 \<Rightarrow> int \<times> u8 list \<times> gfifo_dev" where
  "gfifo_read_data cfg dev ulen count =
    (let count = (if cur_len dev < count then cur_len dev else count);
         (left, user) = copy_to_user ulen (subarr (fmem dev) 0 (unat count))
     in if left \<noteq> 0 then (- EFAULT, user, dev)
        else (int (unat count), user,
              dev\<lparr>fmem := fifo_memcpy cfg (fmem dev) 0 (unat count) (unat (cur_len dev - count)),
                  cur_len := cur_len dev - count\<rparr>))"

text \<open>\<^verbatim>\<open>gfifo_write\<close> after its wait loop: the bytes are appended, as many as there is room for.\<close>

definition gfifo_write_data ::
    "gfifo_cfg \<Rightarrow> gfifo_dev \<Rightarrow> u8 list \<Rightarrow> u32 \<Rightarrow> int \<times> gfifo_dev" where
  "gfifo_write_data cfg dev ubuf count =
    (let count = (if GFIFO_SIZE cfg - cur_len dev < count then GFIFO_SIZE cfg - cur_len dev
                  else count);
         (left, mem') = copy_from_user (fmem dev) (unat (cur_len dev)) ubuf (unat count);
         dev = dev\<lparr>fmem := mem'\<rparr>
     in if left \<noteq> 0 then (- EFAULT, dev)
        else (int (unat count), dev\<lparr>cur_len := cur_len dev + count\<rparr>))"

text \<open>\<^verbatim>\<open>MEM_CLEAR\<close> sets the array to zero and leaves \<^verbatim>\<open>cur_len\<close> alone.\<close>

definition gfifo_clear :: "gfifo_cfg \<Rightarrow> gfifo_dev \<Rightarrow> gfifo_dev" where
  "gfifo_clear cfg dev = dev\<lparr>fmem := memset (fmem dev) 0 0 (unat (GFIFO_SIZE cfg))\<rparr>"

definition gfifo_poll_mask :: "gfifo_cfg \<Rightarrow> gfifo_dev \<Rightarrow> u32" where
  "gfifo_poll_mask cfg dev =
    (let mask = 0;
         mask = (if cur_len dev \<noteq> 0 then mask OR (POLLIN OR POLLRDNORM) else mask);
         mask = (if cur_len dev \<noteq> GFIFO_SIZE cfg then mask OR (POLLOUT OR POLLWRNORM) else mask)
     in mask)"

definition gfifo_llseek :: "gfifo_cfg \<Rightarrow> loff_t \<Rightarrow> loff_t \<Rightarrow> int \<Rightarrow> int \<times> loff_t" where
  "gfifo_llseek cfg f_pos offset orig = chr_llseek (unat (GFIFO_SIZE cfg)) f_pos offset orig"

text \<open>
  \<^verbatim>\<open>fasync_helper\<close> enters a file into the queue (when the entry can be allocated) or removes
  it, and returns whether the queue changed.
\<close>

definition gfifo_fasync :: "bool \<Rightarrow> nat \<Rightarrow> bool \<Rightarrow> gfifo_dev \<Rightarrow> int \<times> gfifo_dev" where
  "gfifo_fasync alloc_ok filp mode dev =
    (if mode then
       (if filp \<in> set (async_queue dev) then (0, dev)
        else if \<not> alloc_ok then (- ENOMEM, dev)
        else (1, dev\<lparr>async_queue := filp # async_queue dev\<rparr>))
     else if filp \<in> set (async_queue dev)
       then (1, dev\<lparr>async_queue := removeAll filp (async_queue dev)\<rparr>)
     else (0, dev))"

definition gfifo_release :: "nat \<Rightarrow> gfifo_dev \<Rightarrow> int \<times> gfifo_dev" where
  "gfifo_release filp dev = (0, snd (gfifo_fasync True filp False dev))"

text \<open>The release handler of the drivers without \<^verbatim>\<open>fasync\<close> does nothing.\<close>

definition gfifo_release_plain :: "nat \<Rightarrow> gfifo_dev \<Rightarrow> int \<times> gfifo_dev" where
  "gfifo_release_plain filp dev = (0, dev)"

definition gfifo_close :: "gfifo_cfg \<Rightarrow> nat \<Rightarrow> gfifo_dev \<Rightarrow> int \<times> gfifo_dev" where
  "gfifo_close cfg = (if has_async cfg then gfifo_release else gfifo_release_plain)"

section \<open>The queue of bytes\<close>

definition gfifo_inv :: "gfifo_cfg \<Rightarrow> gfifo_dev \<Rightarrow> bool" where
  "gfifo_inv cfg dev \<longleftrightarrow>
     length (fmem dev) = unat (GFIFO_SIZE cfg) \<and> cur_len dev \<le> GFIFO_SIZE cfg"

definition gfifo_queue :: "gfifo_dev \<Rightarrow> u8 list" where
  "gfifo_queue dev = take (unat (cur_len dev)) (fmem dev)"

lemma length_gfifo_queue:
  "gfifo_inv cfg dev \<Longrightarrow> length (gfifo_queue dev) = unat (cur_len dev)"
  by (simp add: gfifo_inv_def gfifo_queue_def word_le_nat_alt)

lemma gfifo_queue_bound:
  "gfifo_inv cfg dev \<Longrightarrow> length (gfifo_queue dev) \<le> unat (GFIFO_SIZE cfg)"
  by (simp add: length_gfifo_queue) (simp add: gfifo_inv_def word_le_nat_alt)

lemma gfifo_queue_Nil_iff: "gfifo_inv cfg dev \<Longrightarrow> gfifo_queue dev = [] \<longleftrightarrow> cur_len dev = 0"
  by (metis length_gfifo_queue length_0_conv unat_eq_0)

lemma gfifo_queue_full_iff:
  "gfifo_inv cfg dev \<Longrightarrow>
     length (gfifo_queue dev) = unat (GFIFO_SIZE cfg) \<longleftrightarrow> cur_len dev = GFIFO_SIZE cfg"
  by (simp add: length_gfifo_queue word_unat_eq_iff)

lemma gfifo_queue_mutex [simp]:
  "gfifo_queue (dev\<lparr>fmutex := m\<rparr>) = gfifo_queue dev"
  "gfifo_queue (dev\<lparr>r_wait := q\<rparr>) = gfifo_queue dev"
  "gfifo_queue (dev\<lparr>w_wait := q\<rparr>) = gfifo_queue dev"
  "gfifo_queue (dev\<lparr>async_queue := a\<rparr>) = gfifo_queue dev"
  by (simp_all add: gfifo_queue_def)

lemma gfifo_inv_mutex [simp]:
  "gfifo_inv cfg (dev\<lparr>fmutex := m\<rparr>) = gfifo_inv cfg dev"
  "gfifo_inv cfg (dev\<lparr>r_wait := q\<rparr>) = gfifo_inv cfg dev"
  "gfifo_inv cfg (dev\<lparr>w_wait := q\<rparr>) = gfifo_inv cfg dev"
  "gfifo_inv cfg (dev\<lparr>async_queue := a\<rparr>) = gfifo_inv cfg dev"
  by (simp_all add: gfifo_inv_def)

lemma gfifo_fasync_frame:
  "gfifo_fasync a f m d = (r, d') \<Longrightarrow> \<exists>q. d' = d\<lparr>async_queue := q\<rparr>"
  "gfifo_close cfg f d = (r, d') \<Longrightarrow> \<exists>q. d' = d\<lparr>async_queue := q\<rparr>"
proof -
  have *: "\<exists>q. snd (gfifo_fasync a f m d) = d\<lparr>async_queue := q\<rparr>" for a f m
    unfolding gfifo_fasync_def by (auto intro: exI [of _ "async_queue d"])
  then have "\<exists>q. snd (gfifo_release f d) = d\<lparr>async_queue := q\<rparr>" "\<exists>q. snd (gfifo_release_plain f d) = d\<lparr>async_queue := q\<rparr>"
    by (auto simp: gfifo_release_def gfifo_release_plain_def intro: exI [of _ "async_queue d"])
  with * show "gfifo_fasync a f m d = (r, d') \<Longrightarrow> \<exists>q. d' = d\<lparr>async_queue := q\<rparr>"
    "gfifo_close cfg f d = (r, d') \<Longrightarrow> \<exists>q. d' = d\<lparr>async_queue := q\<rparr>"
    unfolding gfifo_close_def by (metis snd_conv)+
qed

text \<open>Writing: the queue grows at its end by what fits.\<close>

lemma gfifo_write_data_ok:
  assumes inv: "gfifo_inv cfg dev"
    and n: "n = min (unat count) (unat (GFIFO_SIZE cfg) - length (gfifo_queue dev))"
    and buf: "n \<le> length ubuf"
  shows "\<exists>dev'. gfifo_write_data cfg dev ubuf count = (int n, dev') \<and> gfifo_inv cfg dev' \<and>
    gfifo_queue dev' = gfifo_queue dev @ take n ubuf \<and>
    fmutex dev' = fmutex dev \<and> r_wait dev' = r_wait dev \<and> w_wait dev' = w_wait dev \<and>
    async_queue dev' = async_queue dev"
proof -
  define c where "c = (if GFIFO_SIZE cfg - cur_len dev < count then GFIFO_SIZE cfg - cur_len dev
      else count)"
  have le: "unat (cur_len dev) \<le> unat (GFIFO_SIZE cfg)"
    and len: "length (fmem dev) = unat (GFIFO_SIZE cfg)"
    using inv by (auto simp: gfifo_inv_def word_le_nat_alt)
  have c: "unat c = n"
    using inv n by (auto simp: c_def word_less_nat_alt unat_sub32 length_gfifo_queue gfifo_inv_def)
  have n': "unat (cur_len dev) + n \<le> unat (GFIFO_SIZE cfg)"
    using n le inv by (auto simp: length_gfifo_queue)
  then have cl: "unat (cur_len dev + c) = unat (cur_len dev) + n"
    using unat_u32_bound [of "GFIFO_SIZE cfg"] c by (subst unat_plus32) auto
  let ?m = "blit (fmem dev) (unat (cur_len dev)) (take n ubuf)"
  have tk: "take (unat (cur_len dev) + n) ?m = gfifo_queue dev @ take n ubuf"
    using take_blit_append [of "unat (cur_len dev)" "fmem dev" "take n ubuf"] buf le len
    by (simp add: gfifo_queue_def min.absorb2)
  have lm: "length ?m = unat (GFIFO_SIZE cfg)"
    using n' len buf by (simp add: memsimps)
  have "gfifo_write_data cfg dev ubuf count =
      (int n, dev\<lparr>fmem := ?m, cur_len := cur_len dev + c\<rparr>)"
    using c buf by (simp add: gfifo_write_data_def Let_def c_def [symmetric] copy_from_user_ok)
  moreover have "gfifo_inv cfg (dev\<lparr>fmem := ?m, cur_len := cur_len dev + c\<rparr>)"
    using lm cl n' by (simp add: gfifo_inv_def word_le_nat_alt)
  moreover have "gfifo_queue (dev\<lparr>fmem := ?m, cur_len := cur_len dev + c\<rparr>) =
      gfifo_queue dev @ take n ubuf"
    using tk cl by (simp add: gfifo_queue_def)
  ultimately show ?thesis by simp
qed

text \<open>A write that faults changes bytes behind the queue only.\<close>

lemma gfifo_write_data_fault:
  assumes inv: "gfifo_inv cfg dev"
    and n: "n = min (unat count) (unat (GFIFO_SIZE cfg) - length (gfifo_queue dev))"
    and buf: "length ubuf < n"
  shows "\<exists>dev'. gfifo_write_data cfg dev ubuf count = (- EFAULT, dev') \<and> gfifo_inv cfg dev' \<and>
    gfifo_queue dev' = gfifo_queue dev \<and> cur_len dev' = cur_len dev \<and>
    fmutex dev' = fmutex dev \<and> r_wait dev' = r_wait dev \<and> w_wait dev' = w_wait dev \<and>
    async_queue dev' = async_queue dev"
proof -
  define c where "c = (if GFIFO_SIZE cfg - cur_len dev < count then GFIFO_SIZE cfg - cur_len dev
      else count)"
  have le: "unat (cur_len dev) \<le> unat (GFIFO_SIZE cfg)"
    and len: "length (fmem dev) = unat (GFIFO_SIZE cfg)"
    using inv by (auto simp: gfifo_inv_def word_le_nat_alt)
  have c: "unat c = n"
    using inv n by (auto simp: c_def word_less_nat_alt unat_sub32 length_gfifo_queue gfifo_inv_def)
  have n': "unat (cur_len dev) + n \<le> unat (GFIFO_SIZE cfg)"
    using n le inv by (auto simp: length_gfifo_queue)
  define m where "m = snd (copy_from_user (fmem dev) (unat (cur_len dev)) ubuf n)"
  have "length m = unat (GFIFO_SIZE cfg)" "take (unat (cur_len dev)) m = gfifo_queue dev"
    using n' len le
    by (auto simp: m_def memsimps) (simp add: copy_from_user_def memsimps gfifo_queue_def)
  moreover have "gfifo_write_data cfg dev ubuf count = (- EFAULT, dev\<lparr>fmem := m\<rparr>)"
    using c buf by (simp add: gfifo_write_data_def Let_def c_def [symmetric] copy_from_user_def m_def)
  ultimately show ?thesis
    using inv by (simp add: gfifo_inv_def gfifo_queue_def)
qed

text \<open>Reading: the front of the queue is delivered and removed.\<close>

lemma gfifo_read_data_ok:
  assumes inv: "gfifo_inv cfg dev"
    and n: "n = min (unat count) (length (gfifo_queue dev))"
    and buf: "n \<le> ulen"
    and shift: "take (unat (cur_len dev) - n)
        (fifo_memcpy cfg (fmem dev) 0 n (unat (cur_len dev) - n)) = drop n (gfifo_queue dev)"
    and keep: "length (fifo_memcpy cfg (fmem dev) 0 n (unat (cur_len dev) - n)) = length (fmem dev)"
  shows "\<exists>dev'. gfifo_read_data cfg dev ulen count = (int n, take n (gfifo_queue dev), dev') \<and>
    gfifo_inv cfg dev' \<and> gfifo_queue dev' = drop n (gfifo_queue dev) \<and>
    fmutex dev' = fmutex dev \<and> r_wait dev' = r_wait dev \<and> w_wait dev' = w_wait dev \<and>
    async_queue dev' = async_queue dev"
proof -
  define c where "c = (if cur_len dev < count then cur_len dev else count)"
  have le: "unat (cur_len dev) \<le> unat (GFIFO_SIZE cfg)"
    and len: "length (fmem dev) = unat (GFIFO_SIZE cfg)"
    using inv by (auto simp: gfifo_inv_def word_le_nat_alt)
  have c: "unat c = n" "c \<le> cur_len dev"
    using inv n by (auto simp: c_def word_less_nat_alt length_gfifo_queue word_le_nat_alt)
  then have d: "unat (cur_len dev - c) = unat (cur_len dev) - n"
    by (simp add: unat_sub32)
  have "subarr (fmem dev) 0 n = take n (gfifo_queue dev)"
    using n inv by (simp add: subarr_def gfifo_queue_def length_gfifo_queue min_def)
  then have "gfifo_read_data cfg dev ulen count = (int n, take n (gfifo_queue dev),
      dev\<lparr>fmem := fifo_memcpy cfg (fmem dev) 0 n (unat (cur_len dev) - n),
          cur_len := cur_len dev - c\<rparr>)"
    using c d buf n
    by (simp add: gfifo_read_data_def Let_def c_def [symmetric] copy_to_user_ok)
  then show ?thesis
    using shift keep le len d
    by (simp add: gfifo_inv_def gfifo_queue_def word_le_nat_alt)
qed

lemma gfifo_read_data_fault:
  assumes inv: "gfifo_inv cfg dev"
    and n: "n = min (unat count) (length (gfifo_queue dev))"
    and buf: "ulen < n"
  shows "gfifo_read_data cfg dev ulen count = (- EFAULT, take ulen (gfifo_queue dev), dev)"
proof -
  define c where "c = (if cur_len dev < count then cur_len dev else count)"
  have c: "unat c = n"
    using inv n by (auto simp: c_def word_less_nat_alt length_gfifo_queue)
  have "subarr (fmem dev) 0 n = take n (gfifo_queue dev)"
    using n inv by (simp add: subarr_def gfifo_queue_def length_gfifo_queue min_def)
  then show ?thesis
    using c buf n by (simp add: gfifo_read_data_def Let_def c_def [symmetric] copy_to_user_def)
qed

text \<open>The block move of \<^verbatim>\<open>gfifo_read\<close>, for a \<^verbatim>\<open>memcpy\<close> that moves blocks downwards correctly.\<close>

lemma gfifo_shift:
  assumes "memcpy_descending (fifo_memcpy cfg)" and "gfifo_inv cfg dev"
    and "n \<le> length (gfifo_queue dev)"
  shows "take (unat (cur_len dev) - n)
        (fifo_memcpy cfg (fmem dev) 0 n (unat (cur_len dev) - n)) = drop n (gfifo_queue dev)"
    and "length (fifo_memcpy cfg (fmem dev) 0 n (unat (cur_len dev) - n)) = length (fmem dev)"
proof -
  have *: "n \<le> unat (cur_len dev)" "unat (cur_len dev) \<le> length (fmem dev)"
    using assms by (auto simp: length_gfifo_queue) (simp add: gfifo_inv_def word_le_nat_alt)
  show "take (unat (cur_len dev) - n)
        (fifo_memcpy cfg (fmem dev) 0 n (unat (cur_len dev) - n)) = drop n (gfifo_queue dev)"
    unfolding gfifo_queue_def by (rule memcpy_descending.shift_front [OF assms(1) *])
  show "length (fifo_memcpy cfg (fmem dev) 0 n (unat (cur_len dev) - n)) = length (fmem dev)"
    by (rule memcpy_descending.length_shift [OF assms(1) *])
qed

text \<open>
  The same for any \<^verbatim>\<open>memcpy\<close> that meets the C standard's contract, when at least half of the
  queue is read: then the regions do not overlap.
\<close>

lemma gfifo_shift_disjoint:
  assumes "memcpy_contract (fifo_memcpy cfg)" and "gfifo_inv cfg dev"
    and "n \<le> length (gfifo_queue dev)" and "length (gfifo_queue dev) \<le> 2 * n"
  shows "take (unat (cur_len dev) - n)
        (fifo_memcpy cfg (fmem dev) 0 n (unat (cur_len dev) - n)) = drop n (gfifo_queue dev)"
    and "length (fifo_memcpy cfg (fmem dev) 0 n (unat (cur_len dev) - n)) = length (fmem dev)"
proof -
  have *: "n \<le> unat (cur_len dev)" "unat (cur_len dev) \<le> length (fmem dev)"
    using assms by (auto simp: length_gfifo_queue) (simp add: gfifo_inv_def word_le_nat_alt)
  have "unat (cur_len dev) \<le> 2 * n"
    using assms by (simp add: length_gfifo_queue)
  with * show "take (unat (cur_len dev) - n)
        (fifo_memcpy cfg (fmem dev) 0 n (unat (cur_len dev) - n)) = drop n (gfifo_queue dev)"
    unfolding gfifo_queue_def by (intro memcpy_contract.shift_front_disjoint [OF assms(1)])
  show "length (fifo_memcpy cfg (fmem dev) 0 n (unat (cur_len dev) - n)) = length (fmem dev)"
    using * by (intro memcpy_contract.mcpy_length [OF assms(1)]) auto
qed

lemma gfifo_clear_queue:
  "gfifo_inv cfg dev \<Longrightarrow> gfifo_inv cfg (gfifo_clear cfg dev) \<and>
     gfifo_queue (gfifo_clear cfg dev) = replicate (length (gfifo_queue dev)) 0"
  using memset_all [of "fmem dev" 0]
  by (auto simp: gfifo_clear_def gfifo_inv_def gfifo_queue_def word_le_nat_alt min_def)

section \<open>The interface of a byte queue\<close>

text \<open>
  What a user of the FIFO relies on, without its layout: \<open>get\<close> delivers and removes a prefix of
  the queue, \<open>put\<close> appends what fits, and an operation that faults on user memory leaves the
  queue as it was.
\<close>

locale byte_queue =
  fixes get :: "'d \<Rightarrow> nat \<Rightarrow> u32 \<Rightarrow> int \<times> u8 list \<times> 'd"
    and put :: "'d \<Rightarrow> u8 list \<Rightarrow> u32 \<Rightarrow> int \<times> 'd"
    and queue :: "'d \<Rightarrow> u8 list"
    and inv :: "'d \<Rightarrow> bool"
    and cap :: nat
  assumes queue_bound: "inv d \<Longrightarrow> length (queue d) \<le> cap"
    and get_ok: "inv d \<Longrightarrow> n = min (unat c) (length (queue d)) \<Longrightarrow> n \<le> ulen \<Longrightarrow>
      \<exists>d'. get d ulen c = (int n, take n (queue d), d') \<and> inv d' \<and> queue d' = drop n (queue d)"
    and get_fault: "inv d \<Longrightarrow> ulen < min (unat c) (length (queue d)) \<Longrightarrow>
      \<exists>bs d'. get d ulen c = (- EFAULT, bs, d') \<and> inv d' \<and> queue d' = queue d"
    and put_ok: "inv d \<Longrightarrow> n = min (unat c) (cap - length (queue d)) \<Longrightarrow> n \<le> length ubuf \<Longrightarrow>
      \<exists>d'. put d ubuf c = (int n, d') \<and> inv d' \<and> queue d' = queue d @ take n ubuf"
    and put_fault: "inv d \<Longrightarrow> length ubuf < min (unat c) (cap - length (queue d)) \<Longrightarrow>
      \<exists>d'. put d ubuf c = (- EFAULT, d') \<and> inv d' \<and> queue d' = queue d"
begin

lemma get_cases:
  assumes "inv d" and "get d ulen c = (r, bs, d')"
  shows "inv d' \<and> (if r = - EFAULT then queue d' = queue d
    else r = int (length bs) \<and> queue d = bs @ queue d')"
proof (cases "min (unat c) (length (queue d)) \<le> ulen")
  case True
  then show ?thesis
    using get_ok [OF assms(1) refl, of c ulen] assms(2) by auto
next
  case False
  then have "ulen < min (unat c) (length (queue d))" by (simp only: not_le)
  then show ?thesis
    using get_fault [OF assms(1), of ulen c] assms(2) by auto
qed

lemma put_cases:
  assumes "inv d" and "put d ubuf c = (r, d')"
  shows "inv d' \<and> (if r = - EFAULT then queue d' = queue d
    else r = int (nat r) \<and> nat r \<le> unat c \<and> queue d' = queue d @ take (nat r) ubuf)"
proof (cases "min (unat c) (cap - length (queue d)) \<le> length ubuf")
  case True
  then show ?thesis
    using put_ok [OF assms(1) refl, of c ubuf] assms(2) by auto
next
  case False
  then have "length ubuf < min (unat c) (cap - length (queue d))" by (simp only: not_le)
  then show ?thesis
    using put_fault [OF assms(1), of ubuf c] assms(2) by auto
qed

text \<open>Put and then get everything: what was queued before comes first.\<close>

lemma put_get_all:
  assumes "inv d" and "length (queue d) + length bs \<le> cap" and "unat c = length bs"
    and "length (queue d) + length bs \<le> unat c'" and "length (queue d) + length bs \<le> ulen"
  shows "\<exists>d1 d2. put d bs c = (int (length bs), d1) \<and>
    get d1 ulen c' = (int (length (queue d) + length bs), queue d @ bs, d2) \<and> queue d2 = []"
proof -
  obtain d1 where d1: "put d bs c = (int (length bs), d1)" "inv d1" "queue d1 = queue d @ bs"
    using put_ok [OF assms(1), of "length bs" c bs] assms by auto
  have "min (unat c') (length (queue d1)) = length (queue d) + length bs"
    using d1 assms by simp
  with get_ok [OF d1(2) refl, of c' ulen] d1 assms show ?thesis by auto
qed

end

interpretation fifo_fwd: byte_queue
  "gfifo_read_data (cfg\<lparr>fifo_memcpy := memcpy_fwd\<rparr>)" "gfifo_write_data (cfg\<lparr>fifo_memcpy := memcpy_fwd\<rparr>)"
  gfifo_queue "gfifo_inv cfg" "unat (GFIFO_SIZE cfg)" for cfg
proof (unfold_locales, goal_cases)
  case (1 d)
  then show ?case by (rule gfifo_queue_bound)
next
  case (2 d n c ulen)
  let ?c = "cfg\<lparr>fifo_memcpy := memcpy_fwd\<rparr>"
  have *: "gfifo_inv ?c d" "memcpy_descending (fifo_memcpy ?c)"
    using 2 fwd.memcpy_descending_axioms by (simp_all add: gfifo_inv_def)
  then show ?case
    using gfifo_read_data_ok [OF *(1) 2(2,3)] gfifo_shift [OF *(2,1), of n] 2
    by (auto simp: gfifo_inv_def)
next
  case (3 d ulen c)
  then show ?case
    using gfifo_read_data_fault [of "cfg\<lparr>fifo_memcpy := memcpy_fwd\<rparr>" d _ c ulen]
    by (simp add: gfifo_inv_def)
next
  case (4 d n c ubuf)
  then show ?case
    using gfifo_write_data_ok [of "cfg\<lparr>fifo_memcpy := memcpy_fwd\<rparr>" d n c ubuf]
    by (auto simp: gfifo_inv_def)
next
  case (5 d ubuf c)
  then show ?case
    using gfifo_write_data_fault [of "cfg\<lparr>fifo_memcpy := memcpy_fwd\<rparr>" d _ c ubuf]
    by (auto simp: gfifo_inv_def)
qed

end
