(* ===== verification/Gfifo_Sched.thy ===== *)
theory Gfifo_Sched
  imports Gfifo_Core
begin

text \<open>
  The blocking protocol of the FIFO drivers: \<^verbatim>\<open>gfifo_read\<close>, \<^verbatim>\<open>gfifo_write\<close>, \<^verbatim>\<open>gfifo_ioctl\<close> and
  \<^verbatim>\<open>gfifo_poll\<close> as sequences of atomic steps of any number of tasks, with the mutex, the two
  wait queues, the scheduler and signals. The interleaving of the steps is a transition
  relation; its invariant gives mutual exclusion, the absence of lost wake-ups and of deadlocks,
  and the first-in first-out order of the bytes over every execution.
\<close>

section \<open>State\<close>

datatype task_state = TASK_RUNNING | TASK_INTERRUPTIBLE

text \<open>
  Where a task is inside \<^verbatim>\<open>gfifo_read\<close> or \<^verbatim>\<open>gfifo_write\<close>: before \<^verbatim>\<open>mutex_lock\<close>, before
  \<^verbatim>\<open>add_wait_queue\<close>, at the condition of the \<^verbatim>\<open>while\<close> loop, before \<^verbatim>\<open>__set_current_state\<close>,
  before the \<^verbatim>\<open>mutex_unlock\<close> of the loop, in \<^verbatim>\<open>schedule\<close>, at the signal test, before the
  \<^verbatim>\<open>mutex_lock\<close> of the loop, at the data transfer, before the wake-up, at the label \<^verbatim>\<open>out\<close>
  and at the label \<^verbatim>\<open>out2\<close>.
\<close>

datatype label =
    L_lock | L_enq | L_test | L_set | L_unlock | L_sched | L_sig | L_relock
  | L_copy | L_wake | L_out | L_out2

datatype pc =
    Idle | Rd label | Wr label
  | Io_lock | Io_clear | Io_unlock
  | Po_lock | Po_mask | Po_unlock

text \<open>The system calls: the reachable part of the user buffer, its size, and \<^verbatim>\<open>O_NONBLOCK\<close>.\<close>

datatype call =
    C_read nat u32 bool
  | C_write "u8 list" u32 bool
  | C_ioctl u32
  | C_poll

datatype event = Tau | Delivered "u8 list" | Accepted "u8 list" | Cleared | Return tid int

datatype band = POLL_IN | POLL_OUT

record gfifo_sys =
  dev :: gfifo_dev
  pcs :: "tid \<Rightarrow> pc"
  calls :: "tid \<Rightarrow> call"
  tst :: "tid \<Rightarrow> task_state"
  sigp :: "tid \<Rightarrow> bool"
  ret :: "tid \<Rightarrow> int"
  user :: "tid \<Rightarrow> u8 list"
  sigio :: "(nat \<times> band) list"

definition goto :: "tid \<Rightarrow> pc \<Rightarrow> gfifo_sys \<Rightarrow> gfifo_sys" where
  "goto t l s = s\<lparr>pcs := (pcs s)(t := l)\<rparr>"

definition set_state :: "tid \<Rightarrow> task_state \<Rightarrow> gfifo_sys \<Rightarrow> gfifo_sys" where
  "set_state t x s = s\<lparr>tst := (tst s)(t := x)\<rparr>"

definition set_ret :: "tid \<Rightarrow> int \<Rightarrow> gfifo_sys \<Rightarrow> gfifo_sys" where
  "set_ret t r s = s\<lparr>ret := (ret s)(t := r)\<rparr>"

definition set_user :: "tid \<Rightarrow> u8 list \<Rightarrow> gfifo_sys \<Rightarrow> gfifo_sys" where
  "set_user t bs s = s\<lparr>user := (user s)(t := bs)\<rparr>"

definition set_dev :: "gfifo_dev \<Rightarrow> gfifo_sys \<Rightarrow> gfifo_sys" where
  "set_dev d s = s\<lparr>dev := d\<rparr>"

text \<open>\<^verbatim>\<open>wake_up_interruptible\<close> makes every interruptible sleeper of the queue runnable.\<close>

definition wake_up_interruptible :: "tid list \<Rightarrow> gfifo_sys \<Rightarrow> gfifo_sys" where
  "wake_up_interruptible q s =
     s\<lparr>tst := (\<lambda>t. if t \<in> set q then TASK_RUNNING else tst s t)\<rparr>"

text \<open>\<^verbatim>\<open>kill_fasync\<close> sends SIGIO to every file of the queue.\<close>

definition kill_fasync :: "nat list \<Rightarrow> band \<Rightarrow> gfifo_sys \<Rightarrow> gfifo_sys" where
  "kill_fasync q b s = s\<lparr>sigio := map (\<lambda>f. (f, b)) q @ sigio s\<rparr>"

lemmas sys_update_defs =
  goto_def set_state_def set_ret_def set_user_def set_dev_def wake_up_interruptible_def
  kill_fasync_def

section \<open>Steps\<close>

text \<open>One step of task \<open>t\<close> inside \<^verbatim>\<open>gfifo_read\<close>; \<open>None\<close> when the task cannot move.\<close>

fun gfifo_read_at :: "gfifo_cfg \<Rightarrow> tid \<Rightarrow> nat \<Rightarrow> u32 \<Rightarrow> bool \<Rightarrow> label \<Rightarrow> gfifo_sys \<Rightarrow>
    (event \<times> gfifo_sys) option" where
  "gfifo_read_at cfg t ulen count nonblock L_lock s =
     (case mutex_lock t (fmutex (dev s)) of
        None \<Rightarrow> None
      | Some m \<Rightarrow> Some (Tau, goto t (Rd L_enq) (set_dev ((dev s)\<lparr>fmutex := m\<rparr>) s)))"
| "gfifo_read_at cfg t ulen count nonblock L_enq s =
     Some (Tau, goto t (Rd L_test) (set_dev ((dev s)\<lparr>r_wait := t # r_wait (dev s)\<rparr>) s))"
| "gfifo_read_at cfg t ulen count nonblock L_test s =
     (if cur_len (dev s) = 0 then
        (if nonblock then Some (Tau, goto t (Rd L_out) (set_ret t (- EAGAIN) s))
         else Some (Tau, goto t (Rd L_set) s))
      else Some (Tau, goto t (Rd L_copy) s))"
| "gfifo_read_at cfg t ulen count nonblock L_set s =
     Some (Tau, goto t (Rd L_unlock) (set_state t TASK_INTERRUPTIBLE s))"
| "gfifo_read_at cfg t ulen count nonblock L_unlock s =
     Some (Tau, goto t (Rd L_sched)
       (set_dev ((dev s)\<lparr>fmutex := mutex_unlock (fmutex (dev s))\<rparr>) s))"
| "gfifo_read_at cfg t ulen count nonblock L_sched s =
     (if tst s t = TASK_INTERRUPTIBLE \<and> \<not> sigp s t then None
      else Some (Tau, goto t (Rd L_sig) (set_state t TASK_RUNNING s)))"
| "gfifo_read_at cfg t ulen count nonblock L_sig s =
     (if sigp s t then Some (Tau, goto t (Rd L_out2) (set_ret t (- ERESTARTSYS) s))
      else Some (Tau, goto t (Rd L_relock) s))"
| "gfifo_read_at cfg t ulen count nonblock L_relock s =
     (case mutex_lock t (fmutex (dev s)) of
        None \<Rightarrow> None
      | Some m \<Rightarrow> Some (Tau, goto t (Rd L_test) (set_dev ((dev s)\<lparr>fmutex := m\<rparr>) s)))"
| "gfifo_read_at cfg t ulen count nonblock L_copy s =
     (case gfifo_read_data cfg (dev s) ulen count of
        (r, bs, d) \<Rightarrow>
          if r = - EFAULT then
            Some (Tau, goto t (Rd L_out) (set_ret t r (set_user t bs s)))
          else
            Some (Delivered bs,
                  goto t (Rd L_wake) (set_ret t r (set_user t bs (set_dev d s)))))"
| "gfifo_read_at cfg t ulen count nonblock L_wake s =
     (let s = wake_up_interruptible (w_wait (dev s)) s;
          s = (if has_async cfg \<and> async_queue (dev s) \<noteq> []
               then kill_fasync (async_queue (dev s)) POLL_OUT s else s)
      in Some (Tau, goto t (Rd L_out) s))"
| "gfifo_read_at cfg t ulen count nonblock L_out s =
     Some (Tau, goto t (Rd L_out2)
       (set_dev ((dev s)\<lparr>fmutex := mutex_unlock (fmutex (dev s))\<rparr>) s))"
| "gfifo_read_at cfg t ulen count nonblock L_out2 s =
     Some (Return t (ret s t), goto t Idle (set_state t TASK_RUNNING
       (set_dev ((dev s)\<lparr>r_wait := removeAll t (r_wait (dev s))\<rparr>) s)))"

definition gfifo_read :: "gfifo_cfg \<Rightarrow> tid \<Rightarrow> gfifo_sys \<Rightarrow> (event \<times> gfifo_sys) option" where
  "gfifo_read cfg t s =
    (case (pcs s t, calls s t) of
       (Rd l, C_read ulen count nonblock) \<Rightarrow> gfifo_read_at cfg t ulen count nonblock l s
     | _ \<Rightarrow> None)"

text \<open>One step of task \<open>t\<close> inside \<^verbatim>\<open>gfifo_write\<close>.\<close>

fun gfifo_write_at :: "gfifo_cfg \<Rightarrow> tid \<Rightarrow> u8 list \<Rightarrow> u32 \<Rightarrow> bool \<Rightarrow> label \<Rightarrow> gfifo_sys \<Rightarrow>
    (event \<times> gfifo_sys) option" where
  "gfifo_write_at cfg t ubuf count nonblock L_lock s =
     (case mutex_lock t (fmutex (dev s)) of
        None \<Rightarrow> None
      | Some m \<Rightarrow> Some (Tau, goto t (Wr L_enq) (set_dev ((dev s)\<lparr>fmutex := m\<rparr>) s)))"
| "gfifo_write_at cfg t ubuf count nonblock L_enq s =
     Some (Tau, goto t (Wr L_test) (set_dev ((dev s)\<lparr>w_wait := t # w_wait (dev s)\<rparr>) s))"
| "gfifo_write_at cfg t ubuf count nonblock L_test s =
     (if cur_len (dev s) = GFIFO_SIZE cfg then
        (if nonblock then Some (Tau, goto t (Wr L_out) (set_ret t (- EAGAIN) s))
         else Some (Tau, goto t (Wr L_set) s))
      else Some (Tau, goto t (Wr L_copy) s))"
| "gfifo_write_at cfg t ubuf count nonblock L_set s =
     Some (Tau, goto t (Wr L_unlock) (set_state t TASK_INTERRUPTIBLE s))"
| "gfifo_write_at cfg t ubuf count nonblock L_unlock s =
     Some (Tau, goto t (Wr L_sched)
       (set_dev ((dev s)\<lparr>fmutex := mutex_unlock (fmutex (dev s))\<rparr>) s))"
| "gfifo_write_at cfg t ubuf count nonblock L_sched s =
     (if tst s t = TASK_INTERRUPTIBLE \<and> \<not> sigp s t then None
      else Some (Tau, goto t (Wr L_sig) (set_state t TASK_RUNNING s)))"
| "gfifo_write_at cfg t ubuf count nonblock L_sig s =
     (if sigp s t then Some (Tau, goto t (Wr L_out2) (set_ret t (- ERESTARTSYS) s))
      else Some (Tau, goto t (Wr L_relock) s))"
| "gfifo_write_at cfg t ubuf count nonblock L_relock s =
     (case mutex_lock t (fmutex (dev s)) of
        None \<Rightarrow> None
      | Some m \<Rightarrow> Some (Tau, goto t (Wr L_test) (set_dev ((dev s)\<lparr>fmutex := m\<rparr>) s)))"
| "gfifo_write_at cfg t ubuf count nonblock L_copy s =
     (case gfifo_write_data cfg (dev s) ubuf count of
        (r, d) \<Rightarrow>
          if r = - EFAULT then
            Some (Tau, goto t (Wr L_out) (set_ret t r (set_dev d s)))
          else
            Some (Accepted (take (nat r) ubuf), goto t (Wr L_wake) (set_ret t r (set_dev d s))))"
| "gfifo_write_at cfg t ubuf count nonblock L_wake s =
     (let s = wake_up_interruptible (r_wait (dev s)) s;
          s = (if has_async cfg \<and> async_queue (dev s) \<noteq> []
               then kill_fasync (async_queue (dev s)) POLL_IN s else s)
      in Some (Tau, goto t (Wr L_out) s))"
| "gfifo_write_at cfg t ubuf count nonblock L_out s =
     Some (Tau, goto t (Wr L_out2)
       (set_dev ((dev s)\<lparr>fmutex := mutex_unlock (fmutex (dev s))\<rparr>) s))"
| "gfifo_write_at cfg t ubuf count nonblock L_out2 s =
     Some (Return t (ret s t), goto t Idle (set_state t TASK_RUNNING
       (set_dev ((dev s)\<lparr>w_wait := removeAll t (w_wait (dev s))\<rparr>) s)))"

definition gfifo_write :: "gfifo_cfg \<Rightarrow> tid \<Rightarrow> gfifo_sys \<Rightarrow> (event \<times> gfifo_sys) option" where
  "gfifo_write cfg t s =
    (case (pcs s t, calls s t) of
       (Wr l, C_write ubuf count nonblock) \<Rightarrow> gfifo_write_at cfg t ubuf count nonblock l s
     | _ \<Rightarrow> None)"

text \<open>One step of task \<open>t\<close> inside \<^verbatim>\<open>gfifo_ioctl\<close>.\<close>

definition gfifo_ioctl :: "gfifo_cfg \<Rightarrow> tid \<Rightarrow> gfifo_sys \<Rightarrow> (event \<times> gfifo_sys) option" where
  "gfifo_ioctl cfg t s =
    (case (pcs s t, calls s t) of
       (Io_lock, C_ioctl cmd) \<Rightarrow>
         if cmd = FIFO_CLEAR then
           (case mutex_lock t (fmutex (dev s)) of
              None \<Rightarrow> None
            | Some m \<Rightarrow> Some (Tau, goto t Io_clear (set_dev ((dev s)\<lparr>fmutex := m\<rparr>) s)))
         else Some (Return t (- EINVAL), goto t Idle (set_ret t (- EINVAL) s))
     | (Io_clear, C_ioctl cmd) \<Rightarrow>
         Some (Cleared, goto t Io_unlock (set_dev (gfifo_clear cfg (dev s)) s))
     | (Io_unlock, C_ioctl cmd) \<Rightarrow>
         Some (Return t 0, goto t Idle (set_ret t 0
           (set_dev ((dev s)\<lparr>fmutex := mutex_unlock (fmutex (dev s))\<rparr>) s)))
     | _ \<Rightarrow> None)"

text \<open>
  One step of task \<open>t\<close> inside \<^verbatim>\<open>gfifo_poll\<close>. The registration of the caller's poll table by
  \<^verbatim>\<open>poll_wait\<close> belongs to the kernel's poll code and is not part of the state.
\<close>

definition gfifo_poll :: "gfifo_cfg \<Rightarrow> tid \<Rightarrow> gfifo_sys \<Rightarrow> (event \<times> gfifo_sys) option" where
  "gfifo_poll cfg t s =
    (case pcs s t of
       Po_lock \<Rightarrow>
         (case mutex_lock t (fmutex (dev s)) of
            None \<Rightarrow> None
          | Some m \<Rightarrow> Some (Tau, goto t Po_mask (set_dev ((dev s)\<lparr>fmutex := m\<rparr>) s)))
     | Po_mask \<Rightarrow>
         Some (Tau, goto t Po_unlock (set_ret t (int (unat (gfifo_poll_mask cfg (dev s)))) s))
     | Po_unlock \<Rightarrow>
         Some (Return t (ret s t), goto t Idle
           (set_dev ((dev s)\<lparr>fmutex := mutex_unlock (fmutex (dev s))\<rparr>) s))
     | _ \<Rightarrow> None)"

fun entry :: "call \<Rightarrow> pc" where
  "entry (C_read ulen count nonblock) = Rd L_lock"
| "entry (C_write ubuf count nonblock) = Wr L_lock"
| "entry (C_ioctl cmd) = Io_lock"
| "entry C_poll = Po_lock"

definition sys_call :: "tid \<Rightarrow> call \<Rightarrow> gfifo_sys \<Rightarrow> gfifo_sys" where
  "sys_call t c s = goto t (entry c) (s\<lparr>calls := (calls s)(t := c)\<rparr>)"

text \<open>
  The transitions: a task inside a handler makes its next step; an idle task enters a handler
  (\<^verbatim>\<open>poll\<close> only where the driver has it); a file joins or leaves \<^verbatim>\<open>async_queue\<close>, which
  \<^verbatim>\<open>gfifo_fasync\<close> and \<^verbatim>\<open>gfifo_release\<close> do without the mutex; a signal arrives for a task, or an
  idle task has handled its signals.
\<close>

inductive gfifo_step :: "gfifo_cfg \<Rightarrow> gfifo_sys \<Rightarrow> event \<Rightarrow> gfifo_sys \<Rightarrow> bool" for cfg where
  st_read: "gfifo_read cfg t s = Some (e, s') \<Longrightarrow> gfifo_step cfg s e s'"
| st_write: "gfifo_write cfg t s = Some (e, s') \<Longrightarrow> gfifo_step cfg s e s'"
| st_ioctl: "gfifo_ioctl cfg t s = Some (e, s') \<Longrightarrow> gfifo_step cfg s e s'"
| st_poll: "gfifo_poll cfg t s = Some (e, s') \<Longrightarrow> gfifo_step cfg s e s'"
| st_enter: "pcs s t = Idle \<Longrightarrow> c = C_poll \<longrightarrow> has_poll cfg \<Longrightarrow> gfifo_step cfg s Tau (sys_call t c s)"
| st_fasync: "has_async cfg \<Longrightarrow> gfifo_fasync alloc_ok filp mode (dev s) = (r, d) \<Longrightarrow>
    gfifo_step cfg s Tau (set_dev d s)"
| st_release: "gfifo_close cfg filp (dev s) = (r, d) \<Longrightarrow> gfifo_step cfg s Tau (set_dev d s)"
| st_signal: "gfifo_step cfg s Tau (s\<lparr>sigp := (sigp s)(t := True)\<rparr>)"
| st_handled: "pcs s t = Idle \<Longrightarrow> gfifo_step cfg s Tau (s\<lparr>sigp := (sigp s)(t := False)\<rparr>)"

text \<open>The device right after \<^verbatim>\<open>kzalloc\<close>, \<^verbatim>\<open>mutex_init\<close> and \<^verbatim>\<open>init_waitqueue_head\<close>.\<close>

definition gfifo_dev0 :: "gfifo_cfg \<Rightarrow> gfifo_dev" where
  "gfifo_dev0 cfg = \<lparr>fmem = replicate (unat (GFIFO_SIZE cfg)) 0, fmutex = None, cur_len = 0,
     r_wait = [], w_wait = [], async_queue = []\<rparr>"

definition gfifo_start :: "gfifo_cfg \<Rightarrow> gfifo_sys" where
  "gfifo_start cfg = \<lparr>dev = gfifo_dev0 cfg, pcs = (\<lambda>_. Idle), calls = (\<lambda>_. C_ioctl 0),
     tst = (\<lambda>_. TASK_RUNNING), sigp = (\<lambda>_. False), ret = (\<lambda>_. 0), user = (\<lambda>_. []), sigio = []\<rparr>"

inductive gfifo_run :: "gfifo_cfg \<Rightarrow> gfifo_sys \<Rightarrow> event list \<Rightarrow> gfifo_sys \<Rightarrow> bool" for cfg where
  run_nil: "gfifo_run cfg s [] s"
| run_snoc: "gfifo_run cfg s es s' \<Longrightarrow> gfifo_step cfg s' e s'' \<Longrightarrow> gfifo_run cfg s (es @ [e]) s''"

text \<open>
  An executable scheduler: a schedule is a list of choices, and running it gives an execution of
  the transition relation, or \<open>None\<close> when a chosen task cannot move.
\<close>

datatype action =
    Move tid | Enter tid call | Fasync nat | Release nat | Signal tid | Handled tid

definition gfifo_move :: "gfifo_cfg \<Rightarrow> tid \<Rightarrow> gfifo_sys \<Rightarrow> (event \<times> gfifo_sys) option" where
  "gfifo_move cfg t s =
    (case pcs s t of
       Idle \<Rightarrow> None
     | Rd l \<Rightarrow> gfifo_read cfg t s
     | Wr l \<Rightarrow> gfifo_write cfg t s
     | Io_lock \<Rightarrow> gfifo_ioctl cfg t s
     | Io_clear \<Rightarrow> gfifo_ioctl cfg t s
     | Io_unlock \<Rightarrow> gfifo_ioctl cfg t s
     | Po_lock \<Rightarrow> gfifo_poll cfg t s
     | Po_mask \<Rightarrow> gfifo_poll cfg t s
     | Po_unlock \<Rightarrow> gfifo_poll cfg t s)"

fun gfifo_act :: "gfifo_cfg \<Rightarrow> action \<Rightarrow> gfifo_sys \<Rightarrow> (event \<times> gfifo_sys) option" where
  "gfifo_act cfg (Move t) s = gfifo_move cfg t s"
| "gfifo_act cfg (Enter t c) s =
     (if pcs s t = Idle \<and> (c = C_poll \<longrightarrow> has_poll cfg) then Some (Tau, sys_call t c s) else None)"
| "gfifo_act cfg (Fasync filp) s =
     (if has_async cfg then Some (Tau, set_dev (snd (gfifo_fasync True filp True (dev s))) s) else None)"
| "gfifo_act cfg (Release filp) s =
     Some (Tau, set_dev (snd (gfifo_close cfg filp (dev s))) s)"
| "gfifo_act cfg (Signal t) s = Some (Tau, s\<lparr>sigp := (sigp s)(t := True)\<rparr>)"
| "gfifo_act cfg (Handled t) s =
     (if pcs s t = Idle then Some (Tau, s\<lparr>sigp := (sigp s)(t := False)\<rparr>) else None)"

fun gfifo_exec :: "gfifo_cfg \<Rightarrow> action list \<Rightarrow> event list \<Rightarrow> gfifo_sys \<Rightarrow>
    (event list \<times> gfifo_sys) option" where
  "gfifo_exec cfg [] es s = Some (es, s)"
| "gfifo_exec cfg (a # as) es s =
     (case gfifo_act cfg a s of None \<Rightarrow> None | Some (e, s') \<Rightarrow> gfifo_exec cfg as (es @ [e]) s')"

lemma gfifo_act_step: "gfifo_act cfg a s = Some (e, s') \<Longrightarrow> gfifo_step cfg s e s'"
  by (cases a)
    (auto simp: gfifo_move_def split: pc.splits if_splits
      intro: gfifo_step.intros st_fasync [OF _ prod.collapse [symmetric]]
        st_release [OF prod.collapse [symmetric]])

lemma gfifo_exec_run:
  "gfifo_exec cfg as es s = Some (es', s') \<Longrightarrow> gfifo_run cfg s0 es s \<Longrightarrow> gfifo_run cfg s0 es' s'"
  by (induction as arbitrary: es s)
    (auto split: option.splits prod.splits intro: gfifo_act_step run_snoc)

lemmas gfifo_exec_start = gfifo_exec_run [where es = "[]", OF _ run_nil]

section \<open>The invariant\<close>

text \<open>The places where a task holds the mutex, and where it is on a wait queue.\<close>

fun holds :: "pc \<Rightarrow> bool" where
  "holds (Rd l) = (l \<in> {L_enq, L_test, L_set, L_unlock, L_copy, L_wake, L_out})"
| "holds (Wr l) = (l \<in> {L_enq, L_test, L_set, L_unlock, L_copy, L_wake, L_out})"
| "holds p = (p \<in> {Io_clear, Io_unlock, Po_mask, Po_unlock})"

fun on_r_wait :: "pc \<Rightarrow> bool" where
  "on_r_wait (Rd l) = (l \<noteq> L_lock \<and> l \<noteq> L_enq)"
| "on_r_wait p = False"

fun on_w_wait :: "pc \<Rightarrow> bool" where
  "on_w_wait (Wr l) = (l \<noteq> L_lock \<and> l \<noteq> L_enq)"
| "on_w_wait p = False"

fun may_sleep :: "pc \<Rightarrow> bool" where
  "may_sleep (Rd l) = (l = L_unlock \<or> l = L_sched)"
| "may_sleep (Wr l) = (l = L_unlock \<or> l = L_sched)"
| "may_sleep p = False"

text \<open>The call a task is in matches its place in the code.\<close>

fun fits :: "pc \<Rightarrow> call \<Rightarrow> bool" where
  "fits (Rd l) (C_read ulen count nonblock) = True"
| "fits (Wr l) (C_write ubuf count nonblock) = True"
| "fits Io_lock (C_ioctl cmd) = True"
| "fits Io_clear (C_ioctl cmd) = True"
| "fits Io_unlock (C_ioctl cmd) = True"
| "fits Po_lock C_poll = True"
| "fits Po_mask C_poll = True"
| "fits Po_unlock C_poll = True"
| "fits Idle c = True"
| "fits p c = False"

definition mutex_inv :: "gfifo_sys \<Rightarrow> bool" where
  "mutex_inv s \<longleftrightarrow> (\<forall>t. fmutex (dev s) = Some t \<longleftrightarrow> holds (pcs s t))"

definition queue_inv :: "gfifo_sys \<Rightarrow> bool" where
  "queue_inv s \<longleftrightarrow> (\<forall>t. fits (pcs s t) (calls s t) \<and>
     (on_r_wait (pcs s t) \<longrightarrow> t \<in> set (r_wait (dev s))) \<and>
     (on_w_wait (pcs s t) \<longrightarrow> t \<in> set (w_wait (dev s))) \<and>
     (tst s t = TASK_INTERRUPTIBLE \<longrightarrow> may_sleep (pcs s t)))"

text \<open>What a task knows about the fill level at the places that depend on it.\<close>

fun level_ok :: "gfifo_cfg \<Rightarrow> u32 \<Rightarrow> pc \<Rightarrow> bool" where
  "level_ok cfg n (Rd l) = ((l = L_copy \<longrightarrow> n \<noteq> 0) \<and> (l = L_set \<or> l = L_unlock \<longrightarrow> n = 0))"
| "level_ok cfg n (Wr l) =
     ((l = L_copy \<longrightarrow> n \<noteq> GFIFO_SIZE cfg) \<and> (l = L_set \<or> l = L_unlock \<longrightarrow> n = GFIFO_SIZE cfg))"
| "level_ok cfg n p = True"

definition level_inv :: "gfifo_cfg \<Rightarrow> gfifo_sys \<Rightarrow> bool" where
  "level_inv cfg s \<longleftrightarrow> (\<forall>t. level_ok cfg (cur_len (dev s)) (pcs s t))"

text \<open>
  A reader that sleeps, or is about to, has nothing to read, or a writer holds the mutex and is
  about to wake it; and the same for writers.
\<close>

definition r_asleep :: "gfifo_sys \<Rightarrow> tid \<Rightarrow> bool" where
  "r_asleep s t \<longleftrightarrow> tst s t = TASK_INTERRUPTIBLE \<and> pcs s t \<in> {Rd L_unlock, Rd L_sched}"

definition w_asleep :: "gfifo_sys \<Rightarrow> tid \<Rightarrow> bool" where
  "w_asleep s t \<longleftrightarrow> tst s t = TASK_INTERRUPTIBLE \<and> pcs s t \<in> {Wr L_unlock, Wr L_sched}"

definition wake_inv :: "gfifo_cfg \<Rightarrow> gfifo_sys \<Rightarrow> bool" where
  "wake_inv cfg s \<longleftrightarrow>
     ((\<exists>t. r_asleep s t) \<longrightarrow> cur_len (dev s) = 0 \<or> (\<exists>w. pcs s w = Wr L_wake)) \<and>
     ((\<exists>t. w_asleep s t) \<longrightarrow> cur_len (dev s) = GFIFO_SIZE cfg \<or> (\<exists>r. pcs s r = Rd L_wake))"

definition sys_inv :: "gfifo_cfg \<Rightarrow> gfifo_sys \<Rightarrow> bool" where
  "sys_inv cfg s \<longleftrightarrow> gfifo_inv cfg (dev s) \<and> mutex_inv s \<and> queue_inv s \<and> level_inv cfg s \<and>
     wake_inv cfg s"

end
