(* ===== verification/Gfifo_Protocol.thy ===== *)
theory Gfifo_Protocol
  imports Gfifo_Sched
begin

text \<open>
  The invariant of the FIFO drivers' blocking protocol and what follows from it over every
  execution: mutual exclusion, no lost wake-up, no deadlock, and the first-in first-out order of
  the bytes.
\<close>

section \<open>The data part and the rest of the device\<close>

lemma gfifo_read_data_frame:
  assumes "memcpy_contract (fifo_memcpy cfg)" and "gfifo_inv cfg d"
    and "gfifo_read_data cfg d ulen c = (r, bs, d')"
  shows "gfifo_inv cfg d'" and "fmutex d' = fmutex d" and "r_wait d' = r_wait d"
    and "w_wait d' = w_wait d" and "r = - EFAULT \<Longrightarrow> d' = d"
proof -
  define n where "n = (if cur_len d < c then cur_len d else c)"
  have n: "n \<le> cur_len d" by (auto simp: n_def not_less)
  have fits: "unat n + unat (cur_len d - n) \<le> length (fmem d)"
    using n assms(2) by (simp add: gfifo_inv_def unat_sub32 word_le_nat_alt)
  then have len: "length (fifo_memcpy cfg (fmem d) 0 (unat n) (unat (cur_len d - n))) = length (fmem d)"
    by (intro memcpy_contract.mcpy_length [OF assms(1)]) auto
  have le: "cur_len d - n \<le> GFIFO_SIZE cfg"
    using n assms(2) by (auto simp: gfifo_inv_def unat_sub32 word_le_nat_alt)
  show "gfifo_inv cfg d'" "fmutex d' = fmutex d" "r_wait d' = r_wait d"
    "w_wait d' = w_wait d" "r = - EFAULT \<Longrightarrow> d' = d"
    using assms(2,3) len le
    by (auto simp: gfifo_read_data_def Let_def n_def [symmetric] gfifo_inv_def
        split: prod.splits if_splits)
qed

lemma gfifo_write_data_frame:
  assumes "gfifo_inv cfg d" and "gfifo_write_data cfg d ubuf c = (r, d')"
  shows "gfifo_inv cfg d'" and "fmutex d' = fmutex d" and "r_wait d' = r_wait d"
    and "w_wait d' = w_wait d" and "r = - EFAULT \<Longrightarrow> cur_len d' = cur_len d"
proof -
  let ?n = "min (unat c) (unat (GFIFO_SIZE cfg) - length (gfifo_queue d))"
  have "?n \<le> length ubuf \<or> length ubuf < ?n" by (simp only: le_less_linear)
  then show "gfifo_inv cfg d'" "fmutex d' = fmutex d" "r_wait d' = r_wait d"
    "w_wait d' = w_wait d" "r = - EFAULT \<Longrightarrow> cur_len d' = cur_len d"
    using gfifo_write_data_ok [OF assms(1) refl, of c ubuf]
      gfifo_write_data_fault [OF assms(1) refl, of ubuf c] assms(2)
    by auto
qed

section \<open>The invariant holds at the start and is kept\<close>

lemma sys_inv_start: "sys_inv cfg (gfifo_start cfg)"
  by (simp add: sys_inv_def gfifo_start_def gfifo_dev0_def gfifo_inv_def mutex_inv_def
      queue_inv_def level_inv_def wake_inv_def r_asleep_def w_asleep_def word_le_nat_alt)

lemmas step_unfold = sys_update_defs mutex_inv_def queue_inv_def level_inv_def
  mutex_lock_Some_iff mutex_unlock_def Let_def

lemma queue_at: "queue_inv s \<Longrightarrow> tst s t = TASK_INTERRUPTIBLE \<Longrightarrow> may_sleep (pcs s t)"
  by (simp add: queue_inv_def)

text \<open>What the holder of the mutex knows of the other tasks.\<close>

lemma others_out:
  "mutex_inv s \<Longrightarrow> holds (pcs s t) \<Longrightarrow> \<forall>u. u \<noteq> t \<longrightarrow> \<not> holds (pcs s u)"
  by (metis mutex_inv_def option.inject)

lemma mutex_inv_frame:
  assumes "mutex_inv s" and "pcs s' = (pcs s)(t := p)"
    and "fmutex (dev s') = fmutex (dev s) \<and> holds p = holds (pcs s t) \<or>
      fmutex (dev s) = None \<and> fmutex (dev s') = Some t \<and> holds p \<or>
      holds (pcs s t) \<and> fmutex (dev s') = None \<and> \<not> holds p"
  shows "mutex_inv s'"
  using assms unfolding mutex_inv_def by (metis fun_upd_apply option.distinct(1) option.inject)

lemma others_not_waking:
  assumes "mutex_inv s" and "holds (pcs s t)" and "u \<noteq> t"
  shows "pcs s u \<noteq> Wr L_wake" and "pcs s u \<noteq> Rd L_wake"
  using others_out [OF assms(1,2)] assms(3) by auto

lemma gfifo_read_at_safe:
  assumes "gfifo_read_at cfg t ulen count nonblock l s = Some (e, s')" and "pcs s t = Rd l"
    and "calls s t = C_read ulen count nonblock"
    and "memcpy_contract (fifo_memcpy cfg)" and "sys_inv cfg s"
  shows "gfifo_inv cfg (dev s') \<and> mutex_inv s' \<and> queue_inv s'"
proof (cases "l = L_copy")
  case True
  obtain r bs d where d: "gfifo_read_data cfg (dev s) ulen count = (r, bs, d)"
    by (metis prod_cases3)
  have "gfifo_inv cfg (dev s)" "mutex_inv s" "queue_inv s" using assms by (auto simp: sys_inv_def)
  with queue_at [of s t] gfifo_read_data_frame [OF assms(4) _ d] assms(1-3) d True show ?thesis
    by (auto simp: step_unfold split: if_splits)
next
  case False
  have "gfifo_inv cfg (dev s)" "mutex_inv s" "queue_inv s" using assms by (auto simp: sys_inv_def)
  with queue_at [of s t] assms(1-3) False others_out [of s t] show ?thesis
    by (cases l) (auto simp: step_unfold split: if_splits option.splits)
qed

text \<open>The fill level as the moving task sees it.\<close>

lemma level_at: "level_inv cfg s \<Longrightarrow> pcs s t = p \<Longrightarrow> level_ok cfg (cur_len (dev s)) p"
  by (auto simp: level_inv_def)

text \<open>While a task is at its data transfer, no other task relies on the fill level.\<close>

lemma others_any_level:
  assumes "mutex_inv s" and "holds (pcs s t)" and "u \<noteq> t"
  shows "level_ok cfg n (pcs s u)"
  using others_out [OF assms(1,2)] assms(3) by (cases "pcs s u") auto

lemma gfifo_read_at_level:
  assumes "gfifo_read_at cfg t ulen count nonblock l s = Some (e, s')" and "pcs s t = Rd l"
    and "memcpy_contract (fifo_memcpy cfg)" and "sys_inv cfg s"
  shows "level_inv cfg s'"
proof (cases "l = L_copy")
  case True
  obtain r bs d where d: "gfifo_read_data cfg (dev s) ulen count = (r, bs, d)"
    by (metis prod_cases3)
  have "mutex_inv s" "level_inv cfg s" using assms by (auto simp: sys_inv_def)
  with assms(1,2) d True show ?thesis
    by (auto simp: step_unfold intro!: others_any_level [of s t] split: if_splits)
next
  case False
  have "level_inv cfg s" using assms by (auto simp: sys_inv_def)
  with level_at [OF this assms(2)] assms(1,2) False show ?thesis
    by (cases l) (auto simp: step_unfold split: if_splits option.splits)
qed

lemma wake_inv_frame:
  assumes "wake_inv cfg s" and "cur_len (dev s') = cur_len (dev s)" and "pcs s' = (pcs s)(t := p)"
    and "pcs s t \<noteq> Rd L_wake" and "pcs s t \<noteq> Wr L_wake" and "\<forall>u. u \<noteq> t \<longrightarrow> tst s' u = tst s u"
    and "r_asleep s' t \<Longrightarrow> cur_len (dev s) = 0 \<or> r_asleep s t"
    and "w_asleep s' t \<Longrightarrow> cur_len (dev s) = GFIFO_SIZE cfg \<or> w_asleep s t"
  shows "wake_inv cfg s'"
proof -
  have r: "\<exists>w. pcs s w = Wr L_wake \<Longrightarrow> \<exists>w. pcs s' w = Wr L_wake"
    and w: "\<exists>r. pcs s r = Rd L_wake \<Longrightarrow> \<exists>r. pcs s' r = Rd L_wake"
    using assms(3-5) by (metis fun_upd_apply)+
  have rs: "cur_len (dev s) = 0 \<or> (\<exists>u. r_asleep s u)" if "r_asleep s' u" for u
    using that assms(3,6,7) by (cases "u = t") (auto simp: r_asleep_def)
  have ws: "cur_len (dev s) = GFIFO_SIZE cfg \<or> (\<exists>u. w_asleep s u)" if "w_asleep s' u" for u
    using that assms(3,6,8) by (cases "u = t") (auto simp: w_asleep_def)
  show ?thesis
    using assms(1,2) r w rs ws unfolding wake_inv_def by metis
qed

text \<open>The holder of the mutex that has something to read keeps no reader asleep.\<close>

lemma no_reader_asleep:
  assumes "wake_inv cfg s" and "mutex_inv s" and "holds (pcs s t)" and "pcs s t \<noteq> Wr L_wake"
    and "cur_len (dev s) \<noteq> 0"
  shows "\<not> r_asleep s u"
  using assms others_not_waking(1) [OF assms(2,3)] unfolding wake_inv_def by metis

lemma no_writer_asleep:
  assumes "wake_inv cfg s" and "mutex_inv s" and "holds (pcs s t)" and "pcs s t \<noteq> Rd L_wake"
    and "cur_len (dev s) \<noteq> GFIFO_SIZE cfg"
  shows "\<not> w_asleep s u"
  using assms others_not_waking(2) [OF assms(2,3)] unfolding wake_inv_def by metis

lemma gfifo_read_at_wake:
  assumes "gfifo_read_at cfg t ulen count nonblock l s = Some (e, s')" and "pcs s t = Rd l"
    and "memcpy_contract (fifo_memcpy cfg)" and "sys_inv cfg s"
  shows "wake_inv cfg s'"
proof -
  have inv: "gfifo_inv cfg (dev s)" "mutex_inv s" "wake_inv cfg s" "queue_inv s"
    and lev: "level_ok cfg (cur_len (dev s)) (Rd l)"
    using assms(4) level_at [OF _ assms(2)] by (auto simp: sys_inv_def)
  consider "l = L_copy" | "l = L_wake" | "l \<noteq> L_copy" "l \<noteq> L_wake" by blast
  then show ?thesis
  proof cases
    case 1
    obtain r bs d where d: "gfifo_read_data cfg (dev s) ulen count = (r, bs, d)"
      by (metis prod_cases3)
    have "\<not> r_asleep s u" for u
      using no_reader_asleep [OF inv(3,2), of t u] assms(2) 1 lev by simp
    show ?thesis
    proof (cases "r = - EFAULT")
      case True
      with assms(1,2) 1 d show ?thesis
        by (intro wake_inv_frame [OF inv(3), where t = t and p = "pcs s' t"])
          (auto simp: step_unfold r_asleep_def w_asleep_def)
    next
      case False
      have "pcs s' t = Rd L_wake" "\<not> r_asleep s' u" for u
        using assms(1,2) 1 d False \<open>\<not> r_asleep s u\<close>
        by (auto simp: step_unfold r_asleep_def split: if_splits)
      then show ?thesis unfolding wake_inv_def by blast
    qed
  next
    case 2
    have "\<not> w_asleep s' u" for u
      using inv(4) assms(1,2) 2
      by (cases "pcs s u") (auto simp: step_unfold w_asleep_def split: if_splits)
    moreover have "cur_len (dev s) = 0 \<or> \<not> r_asleep s u" for u
      using no_reader_asleep [OF inv(3,2), of t u] assms(2) 2 by auto
    then have "cur_len (dev s') = 0 \<or> \<not> r_asleep s' u" for u
      using assms(1,2) 2 by (auto simp: step_unfold r_asleep_def split: if_splits)
    ultimately show ?thesis unfolding wake_inv_def by blast
  next
    case 3
    with assms(1,2) lev show ?thesis
      by (cases l; intro wake_inv_frame [OF inv(3), where t = t and p = "pcs s' t"])
        (auto simp: step_unfold r_asleep_def w_asleep_def split: if_splits option.splits)
  qed
qed

lemma gfifo_write_at_safe:
  assumes "gfifo_write_at cfg t ubuf count nonblock l s = Some (e, s')" and "pcs s t = Wr l"
    and "calls s t = C_write ubuf count nonblock"
    and "memcpy_contract (fifo_memcpy cfg)" and "sys_inv cfg s"
  shows "gfifo_inv cfg (dev s') \<and> mutex_inv s' \<and> queue_inv s'"
proof (cases "l = L_copy")
  case True
  obtain r d where d: "gfifo_write_data cfg (dev s) ubuf count = (r, d)"
    by (metis surj_pair)
  have "gfifo_inv cfg (dev s)" "mutex_inv s" "queue_inv s" using assms by (auto simp: sys_inv_def)
  with queue_at [of s t] gfifo_write_data_frame [OF _ d] assms(1-3) d True show ?thesis
    by (auto simp: step_unfold split: if_splits)
next
  case False
  have "gfifo_inv cfg (dev s)" "mutex_inv s" "queue_inv s" using assms by (auto simp: sys_inv_def)
  with queue_at [of s t] assms(1-3) False others_out [of s t] show ?thesis
    by (cases l) (auto simp: step_unfold split: if_splits option.splits)
qed

lemma gfifo_write_at_level:
  assumes "gfifo_write_at cfg t ubuf count nonblock l s = Some (e, s')" and "pcs s t = Wr l"
    and "memcpy_contract (fifo_memcpy cfg)" and "sys_inv cfg s"
  shows "level_inv cfg s'"
proof (cases "l = L_copy")
  case True
  obtain r d where d: "gfifo_write_data cfg (dev s) ubuf count = (r, d)"
    by (metis surj_pair)
  have "mutex_inv s" "level_inv cfg s" using assms by (auto simp: sys_inv_def)
  with assms(1,2) d True show ?thesis
    by (auto simp: step_unfold intro!: others_any_level [of s t] split: if_splits)
next
  case False
  have "level_inv cfg s" using assms by (auto simp: sys_inv_def)
  with level_at [OF this assms(2)] assms(1,2) False show ?thesis
    by (cases l) (auto simp: step_unfold split: if_splits option.splits)
qed

lemma gfifo_write_at_wake:
  assumes "gfifo_write_at cfg t ubuf count nonblock l s = Some (e, s')" and "pcs s t = Wr l"
    and "memcpy_contract (fifo_memcpy cfg)" and "sys_inv cfg s"
  shows "wake_inv cfg s'"
proof -
  have inv: "gfifo_inv cfg (dev s)" "mutex_inv s" "wake_inv cfg s" "queue_inv s"
    and lev: "level_ok cfg (cur_len (dev s)) (Wr l)"
    using assms(4) level_at [OF _ assms(2)] by (auto simp: sys_inv_def)
  consider "l = L_copy" | "l = L_wake" | "l \<noteq> L_copy" "l \<noteq> L_wake" by blast
  then show ?thesis
  proof cases
    case 1
    obtain r d where d: "gfifo_write_data cfg (dev s) ubuf count = (r, d)"
      by (metis surj_pair)
    have "\<not> w_asleep s u" for u
      using no_writer_asleep [OF inv(3,2), of t u] assms(2) 1 lev by simp
    show ?thesis
    proof (cases "r = - EFAULT")
      case True
      with assms(1,2) 1 d gfifo_write_data_frame(5) [OF inv(1) d] show ?thesis
        by (intro wake_inv_frame [OF inv(3), where t = t and p = "pcs s' t"])
          (auto simp: step_unfold r_asleep_def w_asleep_def)
    next
      case False
      have "pcs s' t = Wr L_wake" "\<not> w_asleep s' u" for u
        using assms(1,2) 1 d False \<open>\<not> w_asleep s u\<close>
        by (auto simp: step_unfold w_asleep_def split: if_splits)
      then show ?thesis unfolding wake_inv_def by blast
    qed
  next
    case 2
    have "\<not> r_asleep s' u" for u
      using inv(4) assms(1,2) 2
      by (cases "pcs s u") (auto simp: step_unfold r_asleep_def split: if_splits)
    moreover have "cur_len (dev s) = GFIFO_SIZE cfg \<or> \<not> w_asleep s u" for u
      using no_writer_asleep [OF inv(3,2), of t u] assms(2) 2 by auto
    then have "cur_len (dev s') = GFIFO_SIZE cfg \<or> \<not> w_asleep s' u" for u
      using assms(1,2) 2 by (auto simp: step_unfold w_asleep_def split: if_splits)
    ultimately show ?thesis unfolding wake_inv_def by blast
  next
    case 3
    with assms(1,2) lev show ?thesis
      by (cases l; intro wake_inv_frame [OF inv(3), where t = t and p = "pcs s' t"])
        (auto simp: step_unfold r_asleep_def w_asleep_def split: if_splits option.splits)
  qed
qed

lemma gfifo_clear_frame [simp]:
  "cur_len (gfifo_clear cfg d) = cur_len d" "fmutex (gfifo_clear cfg d) = fmutex d"
  "r_wait (gfifo_clear cfg d) = r_wait d" "w_wait (gfifo_clear cfg d) = w_wait d"
  "async_queue (gfifo_clear cfg d) = async_queue d"
  by (simp_all add: gfifo_clear_def)

lemma gfifo_ioctl_inv:
  assumes "gfifo_ioctl cfg t s = Some (e, s')" and "sys_inv cfg s"
  shows "sys_inv cfg s'"
proof -
  have inv: "gfifo_inv cfg (dev s)" "mutex_inv s" "queue_inv s" "level_inv cfg s" "wake_inv cfg s"
    using assms(2) by (auto simp: sys_inv_def)
  obtain cmd where p: "pcs s t \<in> {Io_lock, Io_clear, Io_unlock}" "calls s t = C_ioctl cmd"
    using assms(1) by (auto simp: gfifo_ioctl_def split: pc.splits call.splits)
  have awake: "tst s t \<noteq> TASK_INTERRUPTIBLE"
    using queue_at [OF inv(3), of t] p by auto
  have "wake_inv cfg s'"
    using assms(1) p
    by (intro wake_inv_frame [OF inv(5), where t = t and p = "pcs s' t"])
      (auto simp: gfifo_ioctl_def step_unfold r_asleep_def w_asleep_def
        split: pc.splits if_splits option.splits)
  moreover have "level_inv cfg s'" "queue_inv s'"
    using assms(1) p inv(3,4) awake
    by (auto simp: gfifo_ioctl_def step_unfold split: if_splits option.splits)
  moreover have "mutex_inv s'"
    using assms(1) p
    by (intro mutex_inv_frame [OF inv(2), where t = t and p = "pcs s' t"])
      (auto simp: gfifo_ioctl_def step_unfold split: if_splits option.splits)
  moreover have "gfifo_inv cfg (dev s')"
    using assms(1) p inv(1) gfifo_clear_queue [OF inv(1)]
    by (auto simp: gfifo_ioctl_def step_unfold split: if_splits option.splits)
  ultimately show ?thesis by (simp add: sys_inv_def)
qed

lemma gfifo_poll_inv:
  assumes "gfifo_poll cfg t s = Some (e, s')" and "sys_inv cfg s"
  shows "sys_inv cfg s'"
proof -
  have inv: "gfifo_inv cfg (dev s)" "mutex_inv s" "queue_inv s" "level_inv cfg s" "wake_inv cfg s"
    using assms(2) by (auto simp: sys_inv_def)
  have p: "pcs s t \<in> {Po_lock, Po_mask, Po_unlock}"
    using assms(1) by (auto simp: gfifo_poll_def split: pc.splits)
  have "fits (pcs s t) (calls s t)"
    using inv(3) by (simp add: queue_inv_def)
  with p have c: "calls s t = C_poll"
    by (cases "calls s t") auto
  have awake: "tst s t \<noteq> TASK_INTERRUPTIBLE"
    using queue_at [OF inv(3), of t] p by auto
  have "wake_inv cfg s'"
    using assms(1) p
    by (intro wake_inv_frame [OF inv(5), where t = t and p = "pcs s' t"])
      (auto simp: gfifo_poll_def step_unfold r_asleep_def w_asleep_def
        split: pc.splits if_splits option.splits)
  moreover have "level_inv cfg s'" "queue_inv s'"
    using assms(1) p inv(3,4) c awake
    by (auto simp: gfifo_poll_def step_unfold split: if_splits option.splits)
  moreover have "mutex_inv s'"
    using assms(1) p
    by (intro mutex_inv_frame [OF inv(2), where t = t and p = "pcs s' t"])
      (auto simp: gfifo_poll_def step_unfold split: if_splits option.splits)
  moreover have "gfifo_inv cfg (dev s')"
    using assms(1) p inv(1)
    by (auto simp: gfifo_poll_def step_unfold split: if_splits option.splits)
  ultimately show ?thesis by (simp add: sys_inv_def)
qed

lemma sys_call_inv:
  assumes "pcs s t = Idle" and "sys_inv cfg s"
  shows "sys_inv cfg (sys_call t c s)"
proof -
  have inv: "gfifo_inv cfg (dev s)" "mutex_inv s" "queue_inv s" "level_inv cfg s" "wake_inv cfg s"
    using assms(2) by (auto simp: sys_inv_def)
  have "wake_inv cfg (sys_call t c s)"
    using assms(1)
    by (intro wake_inv_frame [OF inv(5), where t = t and p = "entry c"])
      (auto simp: sys_call_def goto_def r_asleep_def w_asleep_def elim: entry.elims)
  moreover have "gfifo_inv cfg (dev (sys_call t c s)) \<and> mutex_inv (sys_call t c s) \<and>
      queue_inv (sys_call t c s) \<and> level_inv cfg (sys_call t c s)"
    using assms(1) inv(1-4) queue_at [OF inv(3), of t] by (cases c) (auto simp: sys_call_def step_unfold)
  ultimately show ?thesis by (simp add: sys_inv_def)
qed

lemma signal_inv: "sys_inv cfg (s\<lparr>sigp := f\<rparr>) = sys_inv cfg s"
  by (simp add: sys_inv_def mutex_inv_def queue_inv_def level_inv_def wake_inv_def r_asleep_def
      w_asleep_def)

lemma async_queue_inv:
  "\<exists>q. d = (dev s)\<lparr>async_queue := q\<rparr> \<Longrightarrow> sys_inv cfg (set_dev d s) = sys_inv cfg s"
  by (auto simp: set_dev_def sys_inv_def mutex_inv_def queue_inv_def level_inv_def wake_inv_def
      r_asleep_def w_asleep_def)

lemma gfifo_read_SomeD:
  assumes "gfifo_read cfg t s = Some (e, s')"
  obtains ulen count nonblock l where "pcs s t = Rd l" "calls s t = C_read ulen count nonblock"
    "gfifo_read_at cfg t ulen count nonblock l s = Some (e, s')"
  using assms by (auto simp: gfifo_read_def split: pc.splits call.splits)

lemma gfifo_write_SomeD:
  assumes "gfifo_write cfg t s = Some (e, s')"
  obtains ubuf count nonblock l where "pcs s t = Wr l" "calls s t = C_write ubuf count nonblock"
    "gfifo_write_at cfg t ubuf count nonblock l s = Some (e, s')"
  using assms by (auto simp: gfifo_write_def split: pc.splits call.splits)

lemma sys_inv_step:
  assumes "gfifo_step cfg s e s'" and "memcpy_contract (fifo_memcpy cfg)" and "sys_inv cfg s"
  shows "sys_inv cfg s'"
  using assms(1)
proof cases
  case (st_read t)
  from gfifo_read_SomeD [OF this] assms(2,3) show ?thesis
    unfolding sys_inv_def [of cfg s']
    by (metis gfifo_read_at_safe gfifo_read_at_level gfifo_read_at_wake)
next
  case (st_write t)
  from gfifo_write_SomeD [OF this] assms(2,3) show ?thesis
    unfolding sys_inv_def [of cfg s']
    by (metis gfifo_write_at_safe gfifo_write_at_level gfifo_write_at_wake)
qed (use assms(3) gfifo_ioctl_inv gfifo_poll_inv sys_call_inv signal_inv
    async_queue_inv [OF gfifo_fasync_frame(1)] async_queue_inv [OF gfifo_fasync_frame(2)] in auto)

lemma sys_inv_run:
  assumes "gfifo_run cfg s es s'" and "memcpy_contract (fifo_memcpy cfg)" and "sys_inv cfg s"
  shows "sys_inv cfg s'"
  using assms by (induction rule: gfifo_run.induct) (auto intro: sys_inv_step)

lemma sys_inv_reachable:
  "gfifo_run cfg (gfifo_start cfg) es s \<Longrightarrow> memcpy_contract (fifo_memcpy cfg) \<Longrightarrow> sys_inv cfg s"
  by (rule sys_inv_run [OF _ _ sys_inv_start])

section \<open>Safety over every execution\<close>

text \<open>
  A small FIFO and a schedule on it for the witnesses: task 1 reads from the empty FIFO and goes
  to sleep, task 2 writes three bytes up to the point before its wake-up.
\<close>

definition cfg4 :: gfifo_cfg where
  "cfg4 = \<lparr>GFIFO_SIZE = 4, has_poll = True, has_async = True, fifo_memcpy = memcpy_fwd\<rparr>"

definition sleep_schedule :: "action list" where
  "sleep_schedule = [Enter 1 (C_read 2 2 False)] @ replicate 5 (Move 1) @
     [Enter 2 (C_write [7, 8, 9] 3 False)] @ replicate 4 (Move 2)"

definition finish_schedule :: "action list" where
  "finish_schedule = sleep_schedule @ replicate 3 (Move 2) @ replicate 8 (Move 1)"

lemma cfg4_memcpy: "memcpy_contract (fifo_memcpy cfg4)" "memcpy_descending (fifo_memcpy cfg4)"
  using fwd.memcpy_descending_axioms fwd.memcpy_contract_axioms by (simp_all add: cfg4_def)

lemma exec_start:
  assumes "case gfifo_exec cfg as [] (gfifo_start cfg) of None \<Rightarrow> False | Some (es, s) \<Rightarrow> P es s"
  shows "\<exists>es s. gfifo_run cfg (gfifo_start cfg) es s \<and> P es s"
  using assms gfifo_exec_start [of cfg "as" "gfifo_start cfg"] by (auto split: option.splits)

lemma asleep_example:
  "\<exists>es s. gfifo_run cfg4 (gfifo_start cfg4) es s \<and>
     r_asleep s 1 \<and> cur_len (dev s) = 3 \<and> pcs s 2 = Wr L_wake"
  by (rule exec_start [where as = sleep_schedule]) code_simp

lemma transfer_example:
  "\<exists>es s. gfifo_run cfg4 (gfifo_start cfg4) es s \<and>
     es = replicate 10 Tau @ [Accepted [7, 8, 9], Tau, Tau, Return 2 3, Tau, Tau, Tau, Tau,
       Delivered [7, 8], Tau, Tau, Return 1 2] \<and> gfifo_queue (dev s) = [9]"
  by (rule exec_start [where as = finish_schedule]) code_simp

lemma holder: "mutex_inv s \<Longrightarrow> holds (pcs s t) \<Longrightarrow> fmutex (dev s) = Some t"
  by (simp add: mutex_inv_def)

text \<open>
  C4. Mutual exclusion and bounds. Whatever the interleaving of reads, writes, ioctls, polls and
  signals, at most one task is between \<^verbatim>\<open>mutex_lock\<close> and \<^verbatim>\<open>mutex_unlock\<close>, it is the one the
  mutex records, and the fill level never exceeds the buffer.
\<close>

theorem gfifo_mutual_exclusion:
  assumes "memcpy_contract (fifo_memcpy cfg)" and "gfifo_run cfg (gfifo_start cfg) es s"
  shows "(\<forall>t. holds (pcs s t) \<longleftrightarrow> fmutex (dev s) = Some t) \<and>
    (\<forall>t u. holds (pcs s t) \<and> holds (pcs s u) \<longrightarrow> t = u) \<and>
    length (fmem (dev s)) = unat (GFIFO_SIZE cfg) \<and> cur_len (dev s) \<le> GFIFO_SIZE cfg"
proof -
  have "mutex_inv s" "gfifo_inv cfg (dev s)"
    using sys_inv_reachable [OF assms(2,1)] by (auto simp: sys_inv_def)
  moreover have "\<forall>t u. holds (pcs s t) \<and> holds (pcs s u) \<longrightarrow> t = u"
    using others_out [OF \<open>mutex_inv s\<close>] by blast
  ultimately show ?thesis by (auto simp: mutex_inv_def gfifo_inv_def)
qed

theorem gfifo_mutual_exclusion_witness:
  "\<exists>es s. gfifo_run cfg4 (gfifo_start cfg4) es s \<and> pcs s 2 = Wr L_wake \<and> fmutex (dev s) = Some 2"
  using asleep_example gfifo_mutual_exclusion [OF cfg4_memcpy(1)] by fastforce

text \<open>
  C2. No wake-up is lost. The wait queue is joined before the condition is tested and the task
  state is set under the mutex, so in every reachable state: when a reader sleeps (or is about
  to), the FIFO is empty or a writer that has just stored data is on its way to wake it; when a
  writer sleeps, the FIFO is full or a reader is on its way to wake it.
\<close>

theorem gfifo_no_lost_wakeup:
  assumes "memcpy_contract (fifo_memcpy cfg)" and "gfifo_run cfg (gfifo_start cfg) es s"
  shows "(r_asleep s t \<longrightarrow> t \<in> set (r_wait (dev s)) \<and>
       (cur_len (dev s) = 0 \<or> (\<exists>w. pcs s w = Wr L_wake \<and> fmutex (dev s) = Some w))) \<and>
    (w_asleep s t \<longrightarrow> t \<in> set (w_wait (dev s)) \<and>
       (cur_len (dev s) = GFIFO_SIZE cfg \<or> (\<exists>r. pcs s r = Rd L_wake \<and> fmutex (dev s) = Some r)))"
proof -
  have inv: "mutex_inv s" "queue_inv s" "wake_inv cfg s"
    using sys_inv_reachable [OF assms(2,1)] by (auto simp: sys_inv_def)
  have "r_asleep s t \<longrightarrow> on_r_wait (pcs s t)" "w_asleep s t \<longrightarrow> on_w_wait (pcs s t)"
    by (auto simp: r_asleep_def w_asleep_def)
  moreover have "fmutex (dev s) = Some u" if "pcs s u = Wr L_wake \<or> pcs s u = Rd L_wake" for u
    using holder [OF inv(1), of u] that by auto
  ultimately show ?thesis
    using inv(2,3) unfolding wake_inv_def queue_inv_def by meson
qed

theorem gfifo_no_lost_wakeup_witness:
  "\<exists>es s. gfifo_run cfg4 (gfifo_start cfg4) es s \<and> r_asleep s 1 \<and> cur_len (dev s) = 3 \<and>
     1 \<in> set (r_wait (dev s)) \<and> (\<exists>w. pcs s w = Wr L_wake \<and> fmutex (dev s) = Some w)"
  using asleep_example gfifo_no_lost_wakeup [OF cfg4_memcpy(1), where t = 1] by fastforce


section \<open>First in, first out\<close>

text \<open>
  The abstract queue: what each event means for the sequence of stored bytes. \<^verbatim>\<open>FIFO_CLEAR\<close>
  overwrites the stored bytes and keeps their number.
\<close>

inductive queue_step :: "nat \<Rightarrow> u8 list \<Rightarrow> event \<Rightarrow> u8 list \<Rightarrow> bool" for cap where
  q_tau: "queue_step cap q Tau q"
| q_return: "queue_step cap q (Return t r) q"
| q_deliver: "queue_step cap (bs @ q) (Delivered bs) q"
| q_accept: "length (q @ bs) \<le> cap \<Longrightarrow> queue_step cap q (Accepted bs) (q @ bs)"
| q_clear: "queue_step cap q Cleared (replicate (length q) 0)"

inductive_simps queue_step_simps [simp]:
  "queue_step cap q Tau q'" "queue_step cap q (Return t r) q'" "queue_step cap q (Delivered bs) q'"
  "queue_step cap q (Accepted bs) q'" "queue_step cap q Cleared q'"

lemma gfifo_read_data_queue:
  assumes "memcpy_descending (fifo_memcpy cfg)" and "gfifo_inv cfg d"
    and "gfifo_read_data cfg d ulen c = (r, bs, d')" and "r \<noteq> - EFAULT"
  shows "gfifo_queue d = bs @ gfifo_queue d' \<and> bs = take (unat c) (gfifo_queue d) \<and> r = int (length bs)"
proof -
  let ?n = "min (unat c) (length (gfifo_queue d))"
  have "?n \<le> ulen"
    using gfifo_read_data_fault [OF assms(2) refl, of ulen c] assms(3,4) by (auto simp: not_le [symmetric])
  moreover have "?n \<le> length (gfifo_queue d)" by simp
  ultimately show ?thesis
    using gfifo_read_data_ok [OF assms(2) refl _ gfifo_shift [OF assms(1,2)], of c ulen] assms(3)
    by (auto simp: min_def)
qed

lemma gfifo_write_data_queue:
  assumes "gfifo_inv cfg d" and "gfifo_write_data cfg d ubuf c = (r, d')"
  shows "if r = - EFAULT then gfifo_queue d' = gfifo_queue d
    else gfifo_queue d' = gfifo_queue d @ take (nat r) ubuf \<and> nat r \<le> length ubuf \<and>
      r = int (min (unat c) (unat (GFIFO_SIZE cfg) - length (gfifo_queue d)))"
proof -
  let ?n = "min (unat c) (unat (GFIFO_SIZE cfg) - length (gfifo_queue d))"
  have "?n \<le> length ubuf \<or> length ubuf < ?n" by (simp only: le_less_linear)
  then show ?thesis
  proof
    assume "?n \<le> length ubuf"
    with gfifo_write_data_ok [OF assms(1) refl, of c ubuf] assms(2) show ?thesis by auto
  next
    assume "length ubuf < ?n"
    with gfifo_write_data_fault [OF assms(1) refl, of ubuf c] assms(2) show ?thesis by auto
  qed
qed

lemma gfifo_read_at_queue:
  assumes "gfifo_read_at cfg t ulen count nonblock l s = Some (e, s')"
    and "memcpy_descending (fifo_memcpy cfg)" and "gfifo_inv cfg (dev s)"
  shows "queue_step (unat (GFIFO_SIZE cfg)) (gfifo_queue (dev s)) e (gfifo_queue (dev s'))"
proof (cases "l = L_copy")
  case True
  obtain r bs d where d: "gfifo_read_data cfg (dev s) ulen count = (r, bs, d)"
    by (metis prod_cases3)
  have "r \<noteq> - EFAULT \<Longrightarrow> gfifo_queue (dev s) = bs @ gfifo_queue d"
    using gfifo_read_data_queue [OF assms(2,3) d] by blast
  with d assms(1) True show ?thesis
    by (auto simp: sys_update_defs split: if_splits)
next
  case False
  with assms(1) show ?thesis
    by (cases l) (auto simp: sys_update_defs Let_def split: if_splits option.splits)
qed

lemma gfifo_write_at_queue:
  assumes "gfifo_write_at cfg t ubuf count nonblock l s = Some (e, s')" and "gfifo_inv cfg (dev s)"
  shows "queue_step (unat (GFIFO_SIZE cfg)) (gfifo_queue (dev s)) e (gfifo_queue (dev s'))"
proof (cases "l = L_copy")
  case True
  obtain r d where d: "gfifo_write_data cfg (dev s) ubuf count = (r, d)"
    by (metis surj_pair)
  have "length (gfifo_queue d) \<le> unat (GFIFO_SIZE cfg)"
    using gfifo_queue_bound [OF gfifo_write_data_frame(1) [OF assms(2) d]] .
  with gfifo_write_data_queue [OF assms(2) d] d assms(1) True show ?thesis
    by (auto simp: sys_update_defs split: if_splits)
next
  case False
  with assms(1) show ?thesis
    by (cases l) (auto simp: sys_update_defs Let_def split: if_splits option.splits)
qed

lemma gfifo_step_queue:
  assumes "gfifo_step cfg s e s'" and "memcpy_descending (fifo_memcpy cfg)"
    and "gfifo_inv cfg (dev s)"
  shows "queue_step (unat (GFIFO_SIZE cfg)) (gfifo_queue (dev s)) e (gfifo_queue (dev s'))"
  using assms(1)
proof cases
  case (st_read t)
  from gfifo_read_SomeD [OF this] gfifo_read_at_queue assms(2,3) show ?thesis by metis
next
  case (st_write t)
  from gfifo_write_SomeD [OF this] gfifo_write_at_queue assms(3) show ?thesis by metis
next
  case (st_ioctl t)
  then show ?thesis
    using gfifo_clear_queue [OF assms(3)]
    by (auto simp: gfifo_ioctl_def sys_update_defs split: pc.splits call.splits if_splits option.splits)
next
  case (st_poll t)
  then show ?thesis
    by (auto simp: gfifo_poll_def sys_update_defs split: pc.splits option.splits)
qed (auto simp: sys_call_def goto_def set_dev_def dest!: gfifo_fasync_frame)

text \<open>The bytes written and the bytes read along an execution, in order.\<close>

fun accepted :: "event list \<Rightarrow> u8 list" where
  "accepted [] = []"
| "accepted (Accepted bs # es) = bs @ accepted es"
| "accepted (e # es) = accepted es"

fun delivered :: "event list \<Rightarrow> u8 list" where
  "delivered [] = []"
| "delivered (Delivered bs # es) = bs @ delivered es"
| "delivered (e # es) = delivered es"

lemma accepted_append [simp]: "accepted (es @ fs) = accepted es @ accepted fs"
  by (induction es rule: accepted.induct) auto

lemma delivered_append [simp]: "delivered (es @ fs) = delivered es @ delivered fs"
  by (induction es rule: delivered.induct) auto

lemma queue_step_balance:
  "queue_step cap q e q' \<Longrightarrow> e \<noteq> Cleared \<Longrightarrow> q @ accepted [e] = delivered [e] @ q'"
  by (cases e) auto

lemma queue_step_count:
  "queue_step cap q e q' \<Longrightarrow> length q + length (accepted [e]) = length (delivered [e]) + length q'"
  by (cases e) auto

lemma fifo_balance:
  assumes "gfifo_run cfg (gfifo_start cfg) es s" and "memcpy_descending (fifo_memcpy cfg)"
  shows "(Cleared \<notin> set es \<longrightarrow> accepted es = delivered es @ gfifo_queue (dev s)) \<and>
    length (accepted es) = length (delivered es) + length (gfifo_queue (dev s))"
  using assms(1)
proof (induction "gfifo_start cfg" es s rule: gfifo_run.induct)
  case run_nil
  then show ?case by (simp add: gfifo_start_def gfifo_dev0_def gfifo_queue_def)
next
  case (run_snoc es s' e s'')
  have "gfifo_inv cfg (dev s')"
    using sys_inv_reachable [OF run_snoc(1)] assms(2)
    by (auto simp: sys_inv_def memcpy_descending_def)
  note q = gfifo_step_queue [OF run_snoc(3) assms(2) this]
  show ?case
    using queue_step_balance [OF q] queue_step_count [OF q] run_snoc(2) by auto
qed



section \<open>Progress\<close>

text \<open>
  A task inside a handler has a next step, unless it waits for a mutex that is held or sleeps
  with no signal pending.
\<close>

definition sleeping :: "gfifo_sys \<Rightarrow> tid \<Rightarrow> bool" where
  "sleeping s t \<longleftrightarrow> tst s t = TASK_INTERRUPTIBLE \<and> \<not> sigp s t \<and> pcs s t \<in> {Rd L_sched, Wr L_sched}"

lemma task_moves:
  assumes "queue_inv s" and "pcs s t \<noteq> Idle" and "holds (pcs s t) \<or> fmutex (dev s) = None"
  shows "gfifo_move cfg t s \<noteq> None \<or> sleeping s t"
proof -
  have f: "fits (pcs s t) (calls s t)" using assms(1) by (simp add: queue_inv_def)
  note simps = gfifo_move_def gfifo_read_def gfifo_write_def gfifo_ioctl_def gfifo_poll_def Let_def
    sleeping_def
  show ?thesis
  proof (cases "pcs s t")
    case (Rd l)
    with f assms(3) show ?thesis
      by (cases "calls s t"; cases l) (auto simp: simps split: prod.splits)
  next
    case (Wr l)
    with f assms(3) show ?thesis
      by (cases "calls s t"; cases l) (auto simp: simps split: prod.splits)
  qed (cases "calls s t"; insert f assms(2,3); auto simp: simps)+
qed

text \<open>
  C3. No deadlock. In every reachable state some task inside a handler can take its next step, or
  every task inside a handler is asleep for a reason: readers because the FIFO is empty, writers
  because it is full, no signal pending for any of them.
\<close>

theorem gfifo_deadlock_free:
  assumes "memcpy_contract (fifo_memcpy cfg)" and "gfifo_run cfg (gfifo_start cfg) es s"
  shows "(\<exists>t. gfifo_move cfg t s \<noteq> None) \<or>
    (\<forall>t. pcs s t \<noteq> Idle \<longrightarrow> sleeping s t \<and>
       (pcs s t = Rd L_sched \<and> cur_len (dev s) = 0 \<or>
        pcs s t = Wr L_sched \<and> cur_len (dev s) = GFIFO_SIZE cfg))"
proof (cases "\<exists>t. gfifo_move cfg t s \<noteq> None")
  case False
  have inv: "mutex_inv s" "queue_inv s" "wake_inv cfg s"
    using sys_inv_reachable [OF assms(2,1)] by (auto simp: sys_inv_def)
  have none: "\<not> holds (pcs s u)" for u
    using task_moves [OF inv(2), of u cfg] False by (cases "pcs s u") (auto simp: sleeping_def)
  then have "fmutex (dev s) = None"
    using inv(1) by (cases "fmutex (dev s)") (auto simp: mutex_inv_def)
  then have "sleeping s t" if "pcs s t \<noteq> Idle" for t
    using task_moves [OF inv(2) that, of cfg] False by blast
  moreover have "pcs s u \<noteq> Wr L_wake" "pcs s u \<noteq> Rd L_wake" for u
    using none [of u] by auto
  ultimately show ?thesis
    using inv(3) unfolding wake_inv_def r_asleep_def w_asleep_def sleeping_def by blast
qed simp

text \<open>A state in which nothing moves: one reader on the empty FIFO.\<close>

lemma stuck_example:
  "\<exists>es s. gfifo_run cfg4 (gfifo_start cfg4) es s \<and> pcs s 1 \<noteq> Idle \<and> gfifo_move cfg4 1 s = None"
  by (rule exec_start [where as = "Enter 1 (C_read 2 2 False) # replicate 5 (Move 1)"]) code_simp

theorem gfifo_deadlock_free_witness:
  "\<exists>es s. gfifo_run cfg4 (gfifo_start cfg4) es s \<and> pcs s 1 \<noteq> Idle \<and> gfifo_move cfg4 1 s = None \<and>
     ((\<exists>t. t \<noteq> 1 \<and> gfifo_move cfg4 t s \<noteq> None) \<or> sleeping s 1)"
  using stuck_example gfifo_deadlock_free [OF cfg4_memcpy(1)] by metis

section \<open>Results\<close>

text \<open>
  What a call may return. A read gives the bytes it delivered, at least one when it asked for
  any; a write the number of bytes accepted. The error \<^verbatim>\<open>-EAGAIN\<close> is for non-blocking calls
  only and \<^verbatim>\<open>-ERESTARTSYS\<close> for blocking calls only.
\<close>

definition call_result :: "u32 \<Rightarrow> bool \<Rightarrow> int \<Rightarrow> bool" where
  "call_result count nonblock r \<longleftrightarrow>
     r = - EAGAIN \<and> nonblock \<or> r = - ERESTARTSYS \<and> \<not> nonblock \<or> r = - EFAULT \<or>
     (0 \<le> r \<and> r \<le> int (unat count) \<and> (count \<noteq> 0 \<longrightarrow> 0 < r))"

definition finishing :: "label \<Rightarrow> bool" where
  "finishing l \<longleftrightarrow> l \<in> {L_wake, L_out, L_out2}"

definition waiting :: "label \<Rightarrow> bool" where
  "waiting l \<longleftrightarrow> l \<in> {L_set, L_unlock, L_sched, L_sig, L_relock}"

fun call_ok :: "pc \<Rightarrow> call \<Rightarrow> int \<Rightarrow> u8 list \<Rightarrow> bool" where
  "call_ok (Rd l) (C_read ulen count nonblock) r bs =
     ((waiting l \<longrightarrow> \<not> nonblock) \<and> (finishing l \<longrightarrow> call_result count nonblock r) \<and>
      (finishing l \<and> 0 \<le> r \<longrightarrow> r = int (length bs)))"
| "call_ok (Wr l) (C_write ubuf count nonblock) r bs =
     ((waiting l \<longrightarrow> \<not> nonblock) \<and> (finishing l \<longrightarrow> call_result count nonblock r))"
| "call_ok p c r bs = True"

definition call_inv :: "gfifo_sys \<Rightarrow> bool" where
  "call_inv s \<longleftrightarrow> (\<forall>t. call_ok (pcs s t) (calls s t) (ret s t) (user s t))"

lemma call_at: "call_inv s \<Longrightarrow> call_ok (pcs s t) (calls s t) (ret s t) (user s t)"
  by (simp add: call_inv_def)

text \<open>A step of task \<open>t\<close> leaves the other tasks' calls and results alone.\<close>

definition local_step :: "tid \<Rightarrow> gfifo_sys \<Rightarrow> gfifo_sys \<Rightarrow> bool" where
  "local_step t s s' \<longleftrightarrow> (\<forall>u. u \<noteq> t \<longrightarrow> pcs s' u = pcs s u \<and> calls s' u = calls s u \<and>
     ret s' u = ret s u \<and> user s' u = user s u)"

lemma call_inv_local:
  assumes "call_inv s" and "local_step t s s'"
    and "call_ok (pcs s' t) (calls s' t) (ret s' t) (user s' t)"
  shows "call_inv s'"
  unfolding call_inv_def
proof
  fix u show "call_ok (pcs s' u) (calls s' u) (ret s' u) (user s' u)"
    using assms by (cases "u = t") (auto simp: local_step_def call_inv_def)
qed


lemma call_result_errors [simp]:
  "call_result count nonblock (- EAGAIN) = nonblock"
  "call_result count nonblock (- ERESTARTSYS) = (\<not> nonblock)"
  "call_result count nonblock (- EFAULT)"
  by (auto simp: call_result_def)

lemma gfifo_read_data_result:
  assumes "gfifo_read_data cfg d ulen c = (r, bs, d')" and "gfifo_inv cfg d" and "cur_len d \<noteq> 0"
  shows "call_result c nonblock r \<and> (0 \<le> r \<longrightarrow> r = int (length bs))"
proof -
  define n where "n = (if cur_len d < c then cur_len d else c)"
  have n: "n \<le> c" "n \<le> cur_len d" "c \<noteq> 0 \<longrightarrow> n \<noteq> 0"
    using assms(3) by (auto simp: n_def not_less)
  have "unat n \<le> length (fmem d)"
    using n(2) assms(2) by (auto simp: gfifo_inv_def word_le_nat_alt)
  then have "length (subarr (fmem d) 0 (unat n)) = unat n" by (simp add: memsimps)
  moreover have "unat n \<le> unat c" "c \<noteq> 0 \<longrightarrow> 0 < unat n"
    using n by (auto simp: word_le_nat_alt unat_gt_0)
  ultimately show ?thesis
    using assms(1)
    by (auto simp: gfifo_read_data_def Let_def n_def [symmetric] copy_to_user_def call_result_def
        split: if_splits)
qed

lemma gfifo_write_data_result:
  assumes "gfifo_write_data cfg d ubuf c = (r, d')" and "gfifo_inv cfg d"
    and "cur_len d \<noteq> GFIFO_SIZE cfg"
  shows "call_result c nonblock r"
proof -
  have "length (gfifo_queue d) < unat (GFIFO_SIZE cfg)"
    using gfifo_queue_bound [OF assms(2)] gfifo_queue_full_iff [OF assms(2)] assms(3) by simp
  moreover have "c \<noteq> 0 \<Longrightarrow> 0 < unat c" by (simp add: unat_gt_0)
  ultimately show ?thesis
    using gfifo_write_data_queue [OF assms(2,1)] by (auto simp: call_result_def split: if_splits)
qed

lemma gfifo_read_at_call:
  assumes "gfifo_read_at cfg t ulen count nonblock l s = Some (e, s')" and "pcs s t = Rd l"
    and "calls s t = C_read ulen count nonblock"
    and "gfifo_inv cfg (dev s)" and "level_inv cfg s" and "call_inv s"
  shows "call_inv s'"
proof (rule call_inv_local [OF assms(6), where t = t])
  show "local_step t s s'"
    using assms(1) by (cases l) (auto simp: local_step_def sys_update_defs Let_def
        split: if_splits option.splits prod.splits)
  have c: "call_ok (Rd l) (C_read ulen count nonblock) (ret s t) (user s t)"
    using call_at [OF assms(6), of t] assms(2,3) by simp
  have lev: "level_ok cfg (cur_len (dev s)) (Rd l)"
    by (rule level_at [OF assms(5,2)])
  show "call_ok (pcs s' t) (calls s' t) (ret s' t) (user s' t)"
  proof (cases "l = L_copy")
    case True
    obtain r bs d where d: "gfifo_read_data cfg (dev s) ulen count = (r, bs, d)"
      by (metis prod_cases3)
    from gfifo_read_data_result [OF d assms(4), of nonblock] assms(1,3) d lev True show ?thesis
      by (auto simp: sys_update_defs waiting_def split: if_splits)
  next
    case False
    with c assms(1,3) show ?thesis
      by (cases l) (auto simp: sys_update_defs Let_def finishing_def waiting_def
          split: if_splits option.splits)
  qed
qed

lemma gfifo_write_at_call:
  assumes "gfifo_write_at cfg t ubuf count nonblock l s = Some (e, s')" and "pcs s t = Wr l"
    and "calls s t = C_write ubuf count nonblock"
    and "gfifo_inv cfg (dev s)" and "level_inv cfg s" and "call_inv s"
  shows "call_inv s'"
proof (rule call_inv_local [OF assms(6), where t = t])
  show "local_step t s s'"
    using assms(1) by (cases l) (auto simp: local_step_def sys_update_defs Let_def
        split: if_splits option.splits prod.splits)
  have c: "call_ok (Wr l) (C_write ubuf count nonblock) (ret s t) (user s t)"
    using call_at [OF assms(6), of t] assms(2,3) by simp
  have lev: "level_ok cfg (cur_len (dev s)) (Wr l)"
    by (rule level_at [OF assms(5,2)])
  show "call_ok (pcs s' t) (calls s' t) (ret s' t) (user s' t)"
  proof (cases "l = L_copy")
    case True
    obtain r d where d: "gfifo_write_data cfg (dev s) ubuf count = (r, d)"
      by (metis surj_pair)
    from gfifo_write_data_result [OF d assms(4), of nonblock] assms(1,3) d lev True show ?thesis
      by (auto simp: sys_update_defs waiting_def split: if_splits)
  next
    case False
    with c assms(1,3) show ?thesis
      by (cases l) (auto simp: sys_update_defs Let_def finishing_def waiting_def
          split: if_splits option.splits)
  qed
qed

lemma call_inv_step:
  assumes "gfifo_step cfg s e s'" and "sys_inv cfg s" and "call_inv s"
  shows "call_inv s'"
proof -
  have inv: "gfifo_inv cfg (dev s)" "level_inv cfg s"
    using assms(2) by (auto simp: sys_inv_def)
  from assms(1) show ?thesis
  proof cases
    case (st_read t)
    from gfifo_read_SomeD [OF this] gfifo_read_at_call inv assms(3) show ?thesis by metis
  next
    case (st_write t)
    from gfifo_write_SomeD [OF this] gfifo_write_at_call inv assms(3) show ?thesis by metis
  next
    case (st_ioctl t)
    then show ?thesis
      by (intro call_inv_local [OF assms(3), where t = t])
        (auto simp: local_step_def gfifo_ioctl_def sys_update_defs
          split: pc.splits call.splits if_splits option.splits)
  next
    case (st_poll t)
    then show ?thesis
      by (intro call_inv_local [OF assms(3), where t = t])
        (auto simp: local_step_def gfifo_poll_def sys_update_defs split: pc.splits option.splits)
  next
    case (st_enter t c)
    have "call_ok (entry c) c r bs" for r bs
      by (cases c) (auto simp: waiting_def finishing_def)
    then show ?thesis
      unfolding st_enter
      by (intro call_inv_local [OF assms(3), where t = t])
        (auto simp: local_step_def sys_call_def goto_def)
  qed (insert assms(3), auto simp: call_inv_def set_dev_def)
qed

lemma call_inv_reachable:
  assumes "gfifo_run cfg (gfifo_start cfg) es s" and "memcpy_contract (fifo_memcpy cfg)"
  shows "call_inv s"
  using assms(1)
proof (induction "gfifo_start cfg" es s rule: gfifo_run.induct)
  case run_nil
  then show ?case by (simp add: call_inv_def gfifo_start_def)
next
  case (run_snoc es s' e s'')
  then show ?case
    using call_inv_step sys_inv_reachable [OF _ assms(2)] by metis
qed

text \<open>
  C28. What \<^verbatim>\<open>read\<close> returns. In every execution, a \<^verbatim>\<open>read\<close> that returns gives the number of bytes
  it stored in the user buffer, at most the requested count and never zero for a non-zero count
  (the FIFO never signals end of file), or \<^verbatim>\<open>-EFAULT\<close>; \<^verbatim>\<open>-EAGAIN\<close> only with \<^verbatim>\<open>O_NONBLOCK\<close> and
  \<^verbatim>\<open>-ERESTARTSYS\<close> only without it. A non-blocking call never sleeps.
\<close>

theorem gfifo_read_results:
  assumes "memcpy_contract (fifo_memcpy cfg)" and "gfifo_run cfg (gfifo_start cfg) es s"
    and "calls s t = C_read ulen count nonblock" and "pcs s t = Rd l"
  shows "(nonblock \<longrightarrow> l \<notin> {L_set, L_unlock, L_sched, L_sig, L_relock} \<and> \<not> sleeping s t) \<and>
    (\<forall>r s'. gfifo_read cfg t s = Some (Return t r, s') \<longrightarrow>
       r = - EAGAIN \<and> nonblock \<or> r = - ERESTARTSYS \<and> \<not> nonblock \<or> r = - EFAULT \<or>
       r = int (length (user s' t)) \<and> r \<le> int (unat count) \<and> (count \<noteq> 0 \<longrightarrow> 0 < r))"
proof -
  have c: "call_ok (Rd l) (C_read ulen count nonblock) (ret s t) (user s t)"
    using call_at [OF call_inv_reachable [OF assms(2,1)], of t] assms(3,4) by simp
  then have "nonblock \<longrightarrow> l \<notin> {L_set, L_unlock, L_sched, L_sig, L_relock} \<and> \<not> sleeping s t"
    using assms(4) by (auto simp: waiting_def sleeping_def)
  moreover have "l = L_out2 \<and> r = ret s t \<and> user s' = user s"
    if "gfifo_read cfg t s = Some (Return t r, s')" for r s'
    using that assms(3,4) by (cases l) (auto simp: gfifo_read_def sys_update_defs Let_def
        split: if_splits option.splits prod.splits)
  then have "call_result count nonblock r \<and> (0 \<le> r \<longrightarrow> r = int (length (user s' t)))"
    if "gfifo_read cfg t s = Some (Return t r, s')" for r s'
    using that c by (fastforce simp: finishing_def)
  ultimately show ?thesis
    unfolding call_result_def by blast
qed

lemma read_return_example:
  "\<exists>es s. gfifo_run cfg4 (gfifo_start cfg4) es s \<and> calls s 1 = C_read 2 2 False \<and>
     pcs s 1 = Rd L_out2 \<and> (\<exists>s'. gfifo_read cfg4 1 s = Some (Return 1 2, s'))"
proof -
  have "\<exists>es s. gfifo_run cfg4 (gfifo_start cfg4) es s \<and> calls s 1 = C_read 2 2 False \<and>
     pcs s 1 = Rd L_out2 \<and> ret s 1 = 2"
    by (rule exec_start [where as = "butlast finish_schedule"]) code_simp
  then show ?thesis by (fastforce simp: gfifo_read_def)
qed

theorem gfifo_read_results_witness:
  "\<exists>es s s'. gfifo_run cfg4 (gfifo_start cfg4) es s \<and> gfifo_read cfg4 1 s = Some (Return 1 2, s') \<and>
     length (user s' 1) = 2"
  using read_return_example gfifo_read_results [OF cfg4_memcpy(1), where t = 1] by fastforce

section \<open>Readiness, clearing, and the block move\<close>

text \<open>
  C35. \<^verbatim>\<open>poll\<close> tells the truth. The mask reports readable exactly when bytes are stored and
  writable exactly when there is room; and exactly when it does not, a non-blocking \<^verbatim>\<open>read\<close> or
  \<^verbatim>\<open>write\<close> at its test in the same state gives up with \<^verbatim>\<open>-EAGAIN\<close>.
\<close>

theorem gfifo_poll_accurate:
  assumes "gfifo_inv cfg (dev s)" and pm: "pm = gfifo_poll_mask cfg (dev s)"
  shows "(pm AND POLLIN \<noteq> 0 \<longleftrightarrow> gfifo_queue (dev s) \<noteq> []) \<and>
    (pm AND POLLRDNORM \<noteq> 0 \<longleftrightarrow> gfifo_queue (dev s) \<noteq> []) \<and>
    (pm AND POLLOUT \<noteq> 0 \<longleftrightarrow> length (gfifo_queue (dev s)) < unat (GFIFO_SIZE cfg)) \<and>
    (pm AND POLLWRNORM \<noteq> 0 \<longleftrightarrow> length (gfifo_queue (dev s)) < unat (GFIFO_SIZE cfg)) \<and>
    (gfifo_read_at cfg t ulen count True L_test s =
       (if pm AND POLLIN = 0 then Some (Tau, goto t (Rd L_out) (set_ret t (- EAGAIN) s))
        else Some (Tau, goto t (Rd L_copy) s))) \<and>
    (gfifo_write_at cfg t ubuf count True L_test s =
       (if pm AND POLLOUT = 0 then Some (Tau, goto t (Wr L_out) (set_ret t (- EAGAIN) s))
        else Some (Tau, goto t (Wr L_copy) s)))"
proof -
  have "cur_len (dev s) = 0 \<longleftrightarrow> gfifo_queue (dev s) = []"
    using gfifo_queue_Nil_iff [OF assms(1)] by simp
  moreover have "cur_len (dev s) \<noteq> GFIFO_SIZE cfg \<longleftrightarrow>
      length (gfifo_queue (dev s)) < unat (GFIFO_SIZE cfg)"
    using gfifo_queue_full_iff [OF assms(1)] gfifo_queue_bound [OF assms(1)] by auto
  ultimately show ?thesis
    by (auto simp: pm gfifo_poll_mask_def Let_def)
qed

theorem gfifo_poll_accurate_witness:
  "gfifo_inv cfg4 (gfifo_dev0 cfg4) \<and>
   gfifo_poll_mask cfg4 (gfifo_dev0 cfg4) AND POLLIN = 0 \<and>
   gfifo_read_at cfg4 1 2 2 True L_test (gfifo_start cfg4) =
     Some (Tau, goto 1 (Rd L_out) (set_ret 1 (- EAGAIN) (gfifo_start cfg4)))"
proof -
  have i: "gfifo_inv cfg4 (dev (gfifo_start cfg4))" "gfifo_queue (dev (gfifo_start cfg4)) = []"
    by code_simp+
  with gfifo_poll_accurate [OF i(1) refl, of 1 2 2] show ?thesis
    by (simp add: gfifo_start_def)
qed

text \<open>
  Clearing does not empty the FIFO. \<^verbatim>\<open>FIFO_CLEAR\<close> (\<^verbatim>\<open>MEM_CLEAR\<close>) overwrites the stored bytes
  with zeros and keeps their number: a FIFO with \<open>n\<close> bytes then delivers \<open>n\<close> zero bytes, and
  \<^verbatim>\<open>poll\<close> reports the same readiness as before.
\<close>

theorem gfifo_clear_keeps_level:
  assumes "gfifo_inv cfg d" and "memcpy_descending (fifo_memcpy cfg)"
    and "n = length (gfifo_queue d)" and "n \<le> unat count" and "n \<le> ulen"
  shows "gfifo_queue (gfifo_clear cfg d) = replicate n 0 \<and>
    gfifo_poll_mask cfg (gfifo_clear cfg d) = gfifo_poll_mask cfg d \<and>
    (\<exists>d'. gfifo_read_data cfg (gfifo_clear cfg d) ulen count = (int n, replicate n 0, d') \<and>
       gfifo_queue d' = [])"
proof -
  let ?d = "gfifo_clear cfg d"
  have c: "gfifo_inv cfg ?d" "gfifo_queue ?d = replicate n 0"
    using gfifo_clear_queue [OF assms(1)] assms(3) by auto
  have "n = min (unat count) (length (gfifo_queue ?d))" "n \<le> length (gfifo_queue ?d)"
    using c(2) assms(4) by auto
  from gfifo_read_data_ok [OF c(1) this(1) assms(5) gfifo_shift [OF assms(2) c(1) this(2)]] c
  show ?thesis by (auto simp: gfifo_poll_mask_def)
qed

theorem gfifo_clear_keeps_level_witness:
  "\<exists>d. gfifo_queue d = [7, 8, 9] \<and>
     gfifo_queue (gfifo_clear cfg4 d) = replicate 3 0 \<and>
     gfifo_poll_mask cfg4 (gfifo_clear cfg4 d) = gfifo_poll_mask cfg4 d"
proof -
  let ?d = "(gfifo_dev0 cfg4)\<lparr>fmem := [7, 8, 9, 0], cur_len := 3\<rparr>"
  have "gfifo_inv cfg4 ?d" "gfifo_queue ?d = [7, 8, 9]" "(3 :: nat) \<le> unat (8 :: u32)"
    by code_simp+
  with gfifo_clear_keeps_level [of cfg4 ?d 3 8 8] cfg4_memcpy(2) show ?thesis by auto
qed

text \<open>
  A \<^verbatim>\<open>memcpy\<close> that meets the C standard's contract and copies from the highest address
  downwards.
\<close>

fun memcpy_bwd :: "u8 list \<Rightarrow> nat \<Rightarrow> nat \<Rightarrow> nat \<Rightarrow> u8 list" where
  "memcpy_bwd m dst src 0 = m"
| "memcpy_bwd m dst src (Suc n) = memcpy_bwd (m[dst + n := m ! (src + n)]) dst src n"

lemma length_memcpy_bwd [memsimps]: "length (memcpy_bwd m dst src n) = length m"
  by (induction m dst src n rule: memcpy_bwd.induct) auto

lemma memcpy_bwd_nth:
  assumes "src \<le> dst \<or> dst + n \<le> src" and "src + n \<le> length m" and "dst + n \<le> length m"
    and "i < length m"
  shows "memcpy_bwd m dst src n ! i =
    (if dst \<le> i \<and> i < dst + n then m ! (src + (i - dst)) else m ! i)"
  using assms
proof (induction m dst src n rule: memcpy_bwd.induct)
  case (1 m dst src)
  then show ?case by auto
next
  case (2 m dst src n)
  let ?m = "m[dst + n := m ! (src + n)]"
  have "memcpy_bwd ?m dst src n ! i =
    (if dst \<le> i \<and> i < dst + n then ?m ! (src + (i - dst)) else ?m ! i)"
    using 2 by (intro "2.IH") auto
  with "2.prems" show ?case
    by (auto simp: nth_list_update)
qed

interpretation bwd: memcpy_contract memcpy_bwd
proof
  fix src n :: nat and m :: "u8 list" and dst :: nat
  assume "src + n \<le> length m" "dst + n \<le> length m"
  then show "length (memcpy_bwd m dst src n) = length m"
    by (simp add: memsimps)
next
  fix src n :: nat and m :: "u8 list" and dst :: nat
  assume a: "src + n \<le> length m" "dst + n \<le> length m" "disjoint_regions dst src n"
  then have len: "length (subarr m src n) = n"
    by (simp add: memsimps)
  show "memcpy_bwd m dst src n = blit m dst (subarr m src n)"
  proof (rule nth_equalityI)
    show "length (memcpy_bwd m dst src n) = length (blit m dst (subarr m src n))"
      using a len by (simp add: memsimps)
    fix i assume "i < length (memcpy_bwd m dst src n)"
    then have i: "i < length m" by (simp add: memsimps)
    show "memcpy_bwd m dst src n ! i = blit m dst (subarr m src n) ! i"
      using a i len by (auto simp: memcpy_bwd_nth nth_blit subarr_def disjoint_regions_def)
  qed
qed

text \<open>
  The block move relies on more than \<^verbatim>\<open>memcpy\<close> promises. \<^verbatim>\<open>gfifo_read\<close> removes what it read
  with a \<^verbatim>\<open>memcpy\<close> between overlapping parts of the buffer. A \<^verbatim>\<open>memcpy\<close> that meets the C
  standard's contract and copies downwards breaks the FIFO: of the stored bytes 7, 8, 9 a read of
  one byte leaves 9, 9 and not 8, 9.
\<close>

theorem gfifo_read_memcpy_overlap:
  "memcpy_contract memcpy_bwd \<and>
   (let cfg = cfg4\<lparr>fifo_memcpy := memcpy_bwd\<rparr>;
        d0 = gfifo_dev0 cfg;
        (w, d1) = gfifo_write_data cfg d0 [7, 8, 9] 3;
        (r, bs, d2) = gfifo_read_data cfg d1 1 1
    in w = 3 \<and> gfifo_queue d1 = [7, 8, 9] \<and> r = 1 \<and> bs = [7] \<and> gfifo_queue d2 = [9, 9])"
  by (rule conjI, rule bwd.memcpy_contract_axioms, code_simp)

end
