(* ===== verification/C_Strings.thy ===== *)
theory C_Strings
  imports Ldd_Prelude
begin

text \<open>
  Numbers as text: what \<^verbatim>\<open>printf\<close> prints for \<^verbatim>\<open>%d\<close>, \<^verbatim>\<open>%lu\<close> and \<^verbatim>\<open>%o\<close>, and what \<^verbatim>\<open>atol\<close>, \<^verbatim>\<open>strtoll\<close> and \<^verbatim>\<open>strtoull\<close>
  read, as the C library defines them; that the second undoes the first.
\<close>

section \<open>Printing\<close>

definition digit_char :: "nat \<Rightarrow> char" where
  "digit_char n = (if n < 10 then char_of (48 + n) else char_of (87 + n))"

text \<open>The digits of \<open>n\<close> to the base \<open>b\<close>, without leading zeros.\<close>

fun radix :: "nat \<Rightarrow> nat \<Rightarrow> string" where
  "radix b n = (if n < b \<or> b < 2 then [digit_char n] else radix b (n div b) @ [digit_char (n mod b)])"

declare radix.simps [simp del]

abbreviation dec :: "nat \<Rightarrow> string" where "dec \<equiv> radix 10"

text \<open>\<^verbatim>\<open>snprintf\<close> into a buffer of \<open>n\<close> bytes, and leading zeros up to a width.\<close>

definition snprintf_str :: "nat \<Rightarrow> string \<Rightarrow> string" where
  "snprintf_str n str = take (n - 1) str"

definition zero_pad :: "nat \<Rightarrow> string \<Rightarrow> string" where
  "zero_pad w ds = replicate (w - length ds) CHR ''0'' @ ds"

section \<open>Reading\<close>

definition c_space :: "char \<Rightarrow> bool" where
  "c_space c \<longleftrightarrow> of_char c = (32 :: nat) \<or> (9 \<le> (of_char c :: nat) \<and> of_char c \<le> (13 :: nat))"

definition digit_val :: "char \<Rightarrow> nat" where
  "digit_val c = (let n = of_char c in
     if 48 \<le> n \<and> n \<le> 57 then n - 48
     else if 97 \<le> n \<and> n \<le> 122 then n - 87
     else if 65 \<le> n \<and> n \<le> 90 then n - 55 else 36)"

definition number :: "nat \<Rightarrow> string \<Rightarrow> nat" where
  "number b ds = foldl (\<lambda>n c. b * n + digit_val c) 0 ds"

text \<open>The base and the text after its prefix: \<^verbatim>\<open>0x\<close> with base 16 or 0, a leading \<^verbatim>\<open>0\<close> with base 0.\<close>

definition base_prefix :: "nat \<Rightarrow> string \<Rightarrow> nat \<times> string" where
  "base_prefix b cs = (case cs of
     z # x # d # _ \<Rightarrow>
       if (b = 0 \<or> b = 16) \<and> z = CHR ''0'' \<and> (x = CHR ''x'' \<or> x = CHR ''X'') \<and> digit_val d < 16
       then (16, drop 2 cs)
       else (if b \<noteq> 0 then b else if z = CHR ''0'' then 8 else 10, cs)
   | z # _ \<Rightarrow> (if b \<noteq> 0 then b else if z = CHR ''0'' then 8 else 10, cs)
   | [] \<Rightarrow> (if b \<noteq> 0 then b else 10, cs))"

text \<open>The sign, the value and whether there are digits.\<close>

definition c_number :: "nat \<Rightarrow> string \<Rightarrow> bool \<times> nat \<times> bool" where
  "c_number b cs =
     (let cs = dropWhile c_space cs;
          (neg, cs) = (case cs of
             [] \<Rightarrow> (False, [])
           | c # r \<Rightarrow> if c = CHR ''-'' then (True, r) else if c = CHR ''+'' then (False, r) else (False, cs));
          (b, cs) = base_prefix b cs;
          ds = takeWhile (\<lambda>c. digit_val c < b) cs in
      (neg, number b ds, ds \<noteq> []))"

definition atol :: "string \<Rightarrow> int" where
  "atol cs = (let (neg, n, has) = c_number 10 cs in if neg then - int n else int n)"

text \<open>The value, whether there were digits, and whether the number was out of range.\<close>

definition strtoull :: "nat \<Rightarrow> string \<Rightarrow> u64 \<times> bool \<times> bool" where
  "strtoull b cs =
     (let (neg, n, has) = c_number b cs in
      if 2 ^ 64 \<le> n then (- 1, has, True) else (if neg then - of_nat n else of_nat n, has, False))"

definition strtoul :: "nat \<Rightarrow> string \<Rightarrow> u32" where
  "strtoul b cs =
     (let (neg, n, has) = c_number b cs in
      if 2 ^ 32 \<le> n then - 1 else if neg then - of_nat n else of_nat n)"

section \<open>Reading what was printed\<close>

lemma digit_val_char: "n < 36 \<Longrightarrow> digit_val (digit_char n) = n"
  by (simp add: digit_val_def digit_char_def Let_def of_char_of)

lemma number_snoc [simp]: "number b (ds @ [c]) = b * number b ds + digit_val c"
  by (simp add: number_def)

lemma number_single [simp]: "number b [] = 0" "number b [c] = digit_val c"
  by (simp_all add: number_def)

lemma number_radix: "2 \<le> b \<Longrightarrow> b \<le> 36 \<Longrightarrow> number b (radix b n) = n"
proof (induction b n rule: radix.induct)
  case (1 b n)
  show ?case
  proof (cases "n < b")
    case True
    then show ?thesis using 1(3) by (subst radix.simps) (simp add: digit_val_char)
  next
    case False
    moreover have "n mod b < b" using "1.prems" by simp
    moreover have "n mod b < 36" using "1.prems" calculation by linarith
    ultimately show ?thesis using 1 by (subst radix.simps) (simp add: digit_val_char)
  qed
qed

lemma radix_digits: "2 \<le> b \<Longrightarrow> b \<le> 36 \<Longrightarrow> list_all (\<lambda>c. digit_val c < b) (radix b n) \<and> radix b n \<noteq> []"
proof (induction b n rule: radix.induct)
  case (1 b n)
  show ?case
  proof (cases "n < b")
    case True
    then show ?thesis using 1(3) by (subst (1 2) radix.simps) (simp add: digit_val_char)
  next
    case False
    moreover have "n mod b < b" using "1.prems" by simp
    moreover have "n mod b < 36" using "1.prems" calculation by linarith
    ultimately show ?thesis using 1 by (subst (1 2) radix.simps) (simp add: digit_val_char)
  qed
qed

lemma not_sign_digit: "digit_val c < 36 \<Longrightarrow> \<not> c_space c \<and> c \<noteq> CHR ''-'' \<and> c \<noteq> CHR ''+''"
  by (auto simp: digit_val_def c_space_def Let_def split: if_splits)

lemma c_number_dec: "c_number 10 (dec n) = (False, n, True)"
proof -
  obtain c cs where r: "dec n = c # cs" using radix_digits [of 10 n] by (cases "dec n") auto
  have all: "list_all (\<lambda>c. digit_val c < 10) (dec n)" using radix_digits [of 10 n] by simp
  then have "digit_val c < 36" using r by simp
  then have c: "\<not> c_space c" "c \<noteq> CHR ''-''" "c \<noteq> CHR ''+''" using not_sign_digit by blast+
  have b: "base_prefix 10 (dec n) = (10, dec n)" by (simp add: base_prefix_def split: list.split)
  have "takeWhile (\<lambda>c. digit_val c < 10) (dec n) = dec n"
    using all by (auto simp: takeWhile_eq_all_conv list_all_iff)
  then show ?thesis using c b r number_radix [of 10 n] by (simp add: c_number_def)
qed

lemma atol_dec: "atol (dec n) = int n"
  by (simp add: atol_def c_number_dec)

lemma strtoull_dec: "n < 2 ^ 64 \<Longrightarrow> strtoull 10 (dec n) = (of_nat n, True, False)"
  by (simp add: strtoull_def c_number_dec)

lemma zero_pad_number: "number b (zero_pad w ds) = number b ds"
proof -
  have "digit_val CHR ''0'' = 0" by code_simp
  then have "foldl (\<lambda>n c. b * n + digit_val c) 0 (replicate k CHR ''0'') = 0" for k
    by (induction k) simp_all
  then show ?thesis by (simp add: number_def zero_pad_def)
qed

lemma length_zero_pad: "length (zero_pad w ds) = max w (length ds)"
  by (simp add: zero_pad_def)

text \<open>The number of digits.\<close>

lemma length_radix: "2 \<le> b \<Longrightarrow> n < b ^ k \<Longrightarrow> 0 < k \<Longrightarrow> length (radix b n) \<le> k"
proof (induction b n arbitrary: k rule: radix.induct)
  case (1 b n)
  show ?case
  proof (cases "n < b")
    case True
    then show ?thesis using 1(4) by (subst radix.simps) simp
  next
    case False
    obtain j where k: "k = Suc j" using 1 by (cases k) auto
    have j: "0 < j" using False 1(3) k by (cases j) auto
    have "n div b < b ^ j" using 1(3) k "1.prems"(1) by (simp add: div_less_iff_less_mult mult.commute)
    then show ?thesis using 1 False j k by (subst radix.simps) simp
  qed
qed

end
