(* ===== verification/Gfifo_Drivers.thy ===== *)
theory Gfifo_Drivers
  imports Gfifo_Protocol Gmem C_Strings
begin

text \<open>
  The six FIFO drivers as instances of the shared device and protocol: for each its constants,
  its file operations (the handlers of \<^verbatim>\<open>Gfifo_Core\<close> and \<^verbatim>\<open>Gfifo_Sched\<close> at the driver's
  configuration, with the handlers it lacks left out of its \<^verbatim>\<open>file_operations\<close>), and its life
  cycle: \<^verbatim>\<open>gfifo.c\<close>, \<^verbatim>\<open>gfifo_nonblock.c\<close> and \<^verbatim>\<open>gfifo_async.c\<close> as loadable modules,
  \<^verbatim>\<open>gfifo_platform\<close>, \<^verbatim>\<open>gfifo_misc\<close> and \<^verbatim>\<open>gfifo_misc_n\<close> as platform drivers with their device
  modules. The \<^verbatim>\<open>memcpy\<close> the driver is linked with is a parameter throughout.
\<close>

section \<open>File operations\<close>

text \<open>
  \<^verbatim>\<open>struct file_operations\<close>, as far as the drivers fill it. A step handler advances one task by
  one step and gives \<open>None\<close> when the task cannot move.
\<close>

type_synonym step_handler = "tid \<Rightarrow> gfifo_sys \<Rightarrow> (event \<times> gfifo_sys) option"
type_synonym mcpy = "u8 list \<Rightarrow> nat \<Rightarrow> nat \<Rightarrow> nat \<Rightarrow> u8 list"

record file_operations =
  f_llseek :: "loff_t \<Rightarrow> loff_t \<Rightarrow> int \<Rightarrow> int \<times> loff_t"
  f_read :: step_handler
  f_write :: step_handler
  f_unlocked_ioctl :: step_handler
  f_poll :: "step_handler option"
  f_fasync :: "(bool \<Rightarrow> nat \<Rightarrow> bool \<Rightarrow> gfifo_dev \<Rightarrow> int \<times> gfifo_dev) option"
  f_release :: "nat \<Rightarrow> gfifo_dev \<Rightarrow> int \<times> gfifo_dev"

text \<open>
  The transitions of a driver given by its file operations: the kernel calls what the table
  holds, and nothing for an empty entry.
\<close>

inductive fops_step :: "file_operations \<Rightarrow> gfifo_sys \<Rightarrow> event \<Rightarrow> gfifo_sys \<Rightarrow> bool" for fops where
  fo_read: "f_read fops t s = Some (e, s') \<Longrightarrow> fops_step fops s e s'"
| fo_write: "f_write fops t s = Some (e, s') \<Longrightarrow> fops_step fops s e s'"
| fo_ioctl: "f_unlocked_ioctl fops t s = Some (e, s') \<Longrightarrow> fops_step fops s e s'"
| fo_poll: "f_poll fops = Some p \<Longrightarrow> p t s = Some (e, s') \<Longrightarrow> fops_step fops s e s'"
| fo_enter: "pcs s t = Idle \<Longrightarrow> c = C_poll \<longrightarrow> f_poll fops \<noteq> None \<Longrightarrow>
    fops_step fops s Tau (sys_call t c s)"
| fo_fasync: "f_fasync fops = Some f \<Longrightarrow> f alloc_ok filp mode (dev s) = (r, d) \<Longrightarrow>
    fops_step fops s Tau (set_dev d s)"
| fo_release: "f_release fops filp (dev s) = (r, d) \<Longrightarrow> fops_step fops s Tau (set_dev d s)"
| fo_signal: "fops_step fops s Tau (s\<lparr>sigp := (sigp s)(t := True)\<rparr>)"
| fo_handled: "pcs s t = Idle \<Longrightarrow> fops_step fops s Tau (s\<lparr>sigp := (sigp s)(t := False)\<rparr>)"

inductive fops_run :: "file_operations \<Rightarrow> gfifo_sys \<Rightarrow> event list \<Rightarrow> gfifo_sys \<Rightarrow> bool" for fops where
  fr_nil: "fops_run fops s [] s"
| fr_snoc: "fops_run fops s es s' \<Longrightarrow> fops_step fops s' e s'' \<Longrightarrow> fops_run fops s (es @ [e]) s''"

subsection \<open>gfifo.c\<close>

definition gfifo_blk_cfg :: "mcpy \<Rightarrow> gfifo_cfg" where
  "gfifo_blk_cfg mcpy = \<lparr>GFIFO_SIZE = 0x1000, has_poll = False, has_async = False, fifo_memcpy = mcpy\<rparr>"

definition gfifo_blk_read :: "mcpy \<Rightarrow> step_handler" where
  "gfifo_blk_read mcpy t s = gfifo_read (gfifo_blk_cfg mcpy) t s"

definition gfifo_blk_write :: "mcpy \<Rightarrow> step_handler" where
  "gfifo_blk_write mcpy t s = gfifo_write (gfifo_blk_cfg mcpy) t s"

definition gfifo_blk_ioctl :: "mcpy \<Rightarrow> step_handler" where
  "gfifo_blk_ioctl mcpy t s = gfifo_ioctl (gfifo_blk_cfg mcpy) t s"

definition gfifo_blk_llseek :: "mcpy \<Rightarrow> loff_t \<Rightarrow> loff_t \<Rightarrow> int \<Rightarrow> int \<times> loff_t" where
  "gfifo_blk_llseek mcpy pos offset orig = gfifo_llseek (gfifo_blk_cfg mcpy) pos offset orig"

definition gfifo_blk_release :: "nat \<Rightarrow> gfifo_dev \<Rightarrow> int \<times> gfifo_dev" where
  "gfifo_blk_release filp d = gfifo_release_plain filp d"

definition gfifo_blk_fops :: "mcpy \<Rightarrow> file_operations" where
  "gfifo_blk_fops mcpy = \<lparr>f_llseek = gfifo_blk_llseek mcpy, f_read = gfifo_blk_read mcpy, f_write = gfifo_blk_write mcpy,
     f_unlocked_ioctl = gfifo_blk_ioctl mcpy, f_poll = None, f_fasync = None, f_release = gfifo_blk_release\<rparr>"

subsection \<open>gfifo\_nonblock.c\<close>

definition gfifo_nonblock_cfg :: "mcpy \<Rightarrow> gfifo_cfg" where
  "gfifo_nonblock_cfg mcpy = \<lparr>GFIFO_SIZE = 0x100, has_poll = True, has_async = False, fifo_memcpy = mcpy\<rparr>"

definition gfifo_nonblock_read :: "mcpy \<Rightarrow> step_handler" where
  "gfifo_nonblock_read mcpy t s = gfifo_read (gfifo_nonblock_cfg mcpy) t s"

definition gfifo_nonblock_write :: "mcpy \<Rightarrow> step_handler" where
  "gfifo_nonblock_write mcpy t s = gfifo_write (gfifo_nonblock_cfg mcpy) t s"

definition gfifo_nonblock_ioctl :: "mcpy \<Rightarrow> step_handler" where
  "gfifo_nonblock_ioctl mcpy t s = gfifo_ioctl (gfifo_nonblock_cfg mcpy) t s"

definition gfifo_nonblock_llseek :: "mcpy \<Rightarrow> loff_t \<Rightarrow> loff_t \<Rightarrow> int \<Rightarrow> int \<times> loff_t" where
  "gfifo_nonblock_llseek mcpy pos offset orig = gfifo_llseek (gfifo_nonblock_cfg mcpy) pos offset orig"

definition gfifo_nonblock_poll :: "mcpy \<Rightarrow> step_handler" where
  "gfifo_nonblock_poll mcpy t s = gfifo_poll (gfifo_nonblock_cfg mcpy) t s"

definition gfifo_nonblock_release :: "nat \<Rightarrow> gfifo_dev \<Rightarrow> int \<times> gfifo_dev" where
  "gfifo_nonblock_release filp d = gfifo_release_plain filp d"

definition gfifo_nonblock_fops :: "mcpy \<Rightarrow> file_operations" where
  "gfifo_nonblock_fops mcpy = \<lparr>f_llseek = gfifo_nonblock_llseek mcpy, f_read = gfifo_nonblock_read mcpy, f_write = gfifo_nonblock_write mcpy,
     f_unlocked_ioctl = gfifo_nonblock_ioctl mcpy, f_poll = Some (gfifo_nonblock_poll mcpy), f_fasync = None, f_release = gfifo_nonblock_release\<rparr>"

subsection \<open>gfifo\_async.c\<close>

definition gfifo_async_cfg :: "mcpy \<Rightarrow> gfifo_cfg" where
  "gfifo_async_cfg mcpy = \<lparr>GFIFO_SIZE = 0x100, has_poll = True, has_async = True, fifo_memcpy = mcpy\<rparr>"

definition gfifo_async_read :: "mcpy \<Rightarrow> step_handler" where
  "gfifo_async_read mcpy t s = gfifo_read (gfifo_async_cfg mcpy) t s"

definition gfifo_async_write :: "mcpy \<Rightarrow> step_handler" where
  "gfifo_async_write mcpy t s = gfifo_write (gfifo_async_cfg mcpy) t s"

definition gfifo_async_ioctl :: "mcpy \<Rightarrow> step_handler" where
  "gfifo_async_ioctl mcpy t s = gfifo_ioctl (gfifo_async_cfg mcpy) t s"

definition gfifo_async_llseek :: "mcpy \<Rightarrow> loff_t \<Rightarrow> loff_t \<Rightarrow> int \<Rightarrow> int \<times> loff_t" where
  "gfifo_async_llseek mcpy pos offset orig = gfifo_llseek (gfifo_async_cfg mcpy) pos offset orig"

definition gfifo_async_poll :: "mcpy \<Rightarrow> step_handler" where
  "gfifo_async_poll mcpy t s = gfifo_poll (gfifo_async_cfg mcpy) t s"

definition gfifo_async_fasync :: "bool \<Rightarrow> nat \<Rightarrow> bool \<Rightarrow> gfifo_dev \<Rightarrow> int \<times> gfifo_dev" where
  "gfifo_async_fasync alloc_ok filp mode d = gfifo_fasync alloc_ok filp mode d"

definition gfifo_async_release :: "nat \<Rightarrow> gfifo_dev \<Rightarrow> int \<times> gfifo_dev" where
  "gfifo_async_release filp d = gfifo_release filp d"

definition gfifo_async_fops :: "mcpy \<Rightarrow> file_operations" where
  "gfifo_async_fops mcpy = \<lparr>f_llseek = gfifo_async_llseek mcpy, f_read = gfifo_async_read mcpy, f_write = gfifo_async_write mcpy,
     f_unlocked_ioctl = gfifo_async_ioctl mcpy, f_poll = Some (gfifo_async_poll mcpy), f_fasync = Some gfifo_async_fasync, f_release = gfifo_async_release\<rparr>"

subsection \<open>gfifo\_platform\_driver.c\<close>

definition gfifo_platform_cfg :: "mcpy \<Rightarrow> gfifo_cfg" where
  "gfifo_platform_cfg mcpy = \<lparr>GFIFO_SIZE = 0x100, has_poll = True, has_async = True, fifo_memcpy = mcpy\<rparr>"

definition gfifo_platform_read :: "mcpy \<Rightarrow> step_handler" where
  "gfifo_platform_read mcpy t s = gfifo_read (gfifo_platform_cfg mcpy) t s"

definition gfifo_platform_write :: "mcpy \<Rightarrow> step_handler" where
  "gfifo_platform_write mcpy t s = gfifo_write (gfifo_platform_cfg mcpy) t s"

definition gfifo_platform_ioctl :: "mcpy \<Rightarrow> step_handler" where
  "gfifo_platform_ioctl mcpy t s = gfifo_ioctl (gfifo_platform_cfg mcpy) t s"

definition gfifo_platform_llseek :: "mcpy \<Rightarrow> loff_t \<Rightarrow> loff_t \<Rightarrow> int \<Rightarrow> int \<times> loff_t" where
  "gfifo_platform_llseek mcpy pos offset orig = gfifo_llseek (gfifo_platform_cfg mcpy) pos offset orig"

definition gfifo_platform_poll :: "mcpy \<Rightarrow> step_handler" where
  "gfifo_platform_poll mcpy t s = gfifo_poll (gfifo_platform_cfg mcpy) t s"

definition gfifo_platform_fasync :: "bool \<Rightarrow> nat \<Rightarrow> bool \<Rightarrow> gfifo_dev \<Rightarrow> int \<times> gfifo_dev" where
  "gfifo_platform_fasync alloc_ok filp mode d = gfifo_fasync alloc_ok filp mode d"

definition gfifo_platform_release :: "nat \<Rightarrow> gfifo_dev \<Rightarrow> int \<times> gfifo_dev" where
  "gfifo_platform_release filp d = gfifo_release filp d"

definition gfifo_platform_fops :: "mcpy \<Rightarrow> file_operations" where
  "gfifo_platform_fops mcpy = \<lparr>f_llseek = gfifo_platform_llseek mcpy, f_read = gfifo_platform_read mcpy, f_write = gfifo_platform_write mcpy,
     f_unlocked_ioctl = gfifo_platform_ioctl mcpy, f_poll = Some (gfifo_platform_poll mcpy), f_fasync = Some gfifo_platform_fasync, f_release = gfifo_platform_release\<rparr>"

subsection \<open>gfifo\_misc.c\<close>

definition gfifo_misc_cfg :: "mcpy \<Rightarrow> gfifo_cfg" where
  "gfifo_misc_cfg mcpy = \<lparr>GFIFO_SIZE = 0x100, has_poll = True, has_async = True, fifo_memcpy = mcpy\<rparr>"

definition gfifo_misc_read :: "mcpy \<Rightarrow> step_handler" where
  "gfifo_misc_read mcpy t s = gfifo_read (gfifo_misc_cfg mcpy) t s"

definition gfifo_misc_write :: "mcpy \<Rightarrow> step_handler" where
  "gfifo_misc_write mcpy t s = gfifo_write (gfifo_misc_cfg mcpy) t s"

definition gfifo_misc_ioctl :: "mcpy \<Rightarrow> step_handler" where
  "gfifo_misc_ioctl mcpy t s = gfifo_ioctl (gfifo_misc_cfg mcpy) t s"

definition gfifo_misc_llseek :: "mcpy \<Rightarrow> loff_t \<Rightarrow> loff_t \<Rightarrow> int \<Rightarrow> int \<times> loff_t" where
  "gfifo_misc_llseek mcpy pos offset orig = gfifo_llseek (gfifo_misc_cfg mcpy) pos offset orig"

definition gfifo_misc_poll :: "mcpy \<Rightarrow> step_handler" where
  "gfifo_misc_poll mcpy t s = gfifo_poll (gfifo_misc_cfg mcpy) t s"

definition gfifo_misc_fasync :: "bool \<Rightarrow> nat \<Rightarrow> bool \<Rightarrow> gfifo_dev \<Rightarrow> int \<times> gfifo_dev" where
  "gfifo_misc_fasync alloc_ok filp mode d = gfifo_fasync alloc_ok filp mode d"

definition gfifo_misc_release :: "nat \<Rightarrow> gfifo_dev \<Rightarrow> int \<times> gfifo_dev" where
  "gfifo_misc_release filp d = gfifo_release filp d"

definition gfifo_misc_fops :: "mcpy \<Rightarrow> file_operations" where
  "gfifo_misc_fops mcpy = \<lparr>f_llseek = gfifo_misc_llseek mcpy, f_read = gfifo_misc_read mcpy, f_write = gfifo_misc_write mcpy,
     f_unlocked_ioctl = gfifo_misc_ioctl mcpy, f_poll = Some (gfifo_misc_poll mcpy), f_fasync = Some gfifo_misc_fasync, f_release = gfifo_misc_release\<rparr>"

subsection \<open>gfifo\_misc\_n.c\<close>

definition gfifo_misc_n_cfg :: "mcpy \<Rightarrow> gfifo_cfg" where
  "gfifo_misc_n_cfg mcpy = \<lparr>GFIFO_SIZE = 0x100, has_poll = True, has_async = True, fifo_memcpy = mcpy\<rparr>"

definition gfifo_misc_n_read :: "mcpy \<Rightarrow> step_handler" where
  "gfifo_misc_n_read mcpy t s = gfifo_read (gfifo_misc_n_cfg mcpy) t s"

definition gfifo_misc_n_write :: "mcpy \<Rightarrow> step_handler" where
  "gfifo_misc_n_write mcpy t s = gfifo_write (gfifo_misc_n_cfg mcpy) t s"

definition gfifo_misc_n_ioctl :: "mcpy \<Rightarrow> step_handler" where
  "gfifo_misc_n_ioctl mcpy t s = gfifo_ioctl (gfifo_misc_n_cfg mcpy) t s"

definition gfifo_misc_n_llseek :: "mcpy \<Rightarrow> loff_t \<Rightarrow> loff_t \<Rightarrow> int \<Rightarrow> int \<times> loff_t" where
  "gfifo_misc_n_llseek mcpy pos offset orig = gfifo_llseek (gfifo_misc_n_cfg mcpy) pos offset orig"

definition gfifo_misc_n_poll :: "mcpy \<Rightarrow> step_handler" where
  "gfifo_misc_n_poll mcpy t s = gfifo_poll (gfifo_misc_n_cfg mcpy) t s"

definition gfifo_misc_n_fasync :: "bool \<Rightarrow> nat \<Rightarrow> bool \<Rightarrow> gfifo_dev \<Rightarrow> int \<times> gfifo_dev" where
  "gfifo_misc_n_fasync alloc_ok filp mode d = gfifo_fasync alloc_ok filp mode d"

definition gfifo_misc_n_release :: "nat \<Rightarrow> gfifo_dev \<Rightarrow> int \<times> gfifo_dev" where
  "gfifo_misc_n_release filp d = gfifo_release filp d"

definition gfifo_misc_n_fops :: "mcpy \<Rightarrow> file_operations" where
  "gfifo_misc_n_fops mcpy = \<lparr>f_llseek = gfifo_misc_n_llseek mcpy, f_read = gfifo_misc_n_read mcpy, f_write = gfifo_misc_n_write mcpy,
     f_unlocked_ioctl = gfifo_misc_n_ioctl mcpy, f_poll = Some (gfifo_misc_n_poll mcpy), f_fasync = Some gfifo_misc_n_fasync, f_release = gfifo_misc_n_release\<rparr>"

section \<open>One protocol for the six drivers\<close>

text \<open>The table of a driver with configuration \<open>cfg\<close>.\<close>

definition fops_of :: "gfifo_cfg \<Rightarrow> file_operations" where
  "fops_of cfg = \<lparr>f_llseek = gfifo_llseek cfg, f_read = gfifo_read cfg, f_write = gfifo_write cfg,
     f_unlocked_ioctl = gfifo_ioctl cfg, f_poll = (if has_poll cfg then Some (gfifo_poll cfg) else None),
     f_fasync = (if has_async cfg then Some gfifo_fasync else None), f_release = gfifo_close cfg\<rparr>"

lemma fops_step_sound: "fops_step (fops_of cfg) s e s' \<Longrightarrow> gfifo_step cfg s e s'"
  by (cases rule: fops_step.cases)
    (auto simp: fops_of_def split: if_splits intro: gfifo_step.intros)

lemma fops_step_complete:
  assumes "gfifo_step cfg s e s'" and "has_poll cfg"
  shows "fops_step (fops_of cfg) s e s'"
  using assms(1)
proof cases
  case (st_poll t)
  then show ?thesis
    using assms(2) fo_poll [of "fops_of cfg" "gfifo_poll cfg" t s e s'] by (simp add: fops_of_def)
next
  case (st_fasync a f m r d)
  then show ?thesis
    using fo_fasync [of "fops_of cfg"] by (auto simp: fops_of_def)
next
  case (st_release f r d)
  then show ?thesis
    using fo_release [of "fops_of cfg"] by (auto simp: fops_of_def)
qed (insert assms(2), auto simp: fops_of_def intro: fops_step.intros)

lemma fops_run_complete: "gfifo_run cfg s es s' \<Longrightarrow> has_poll cfg \<Longrightarrow> fops_run (fops_of cfg) s es s'"
  by (induction rule: gfifo_run.induct) (auto intro: fops_run.intros fops_step_complete)

lemma fops_run_sound: "fops_run (fops_of cfg) s es s' \<Longrightarrow> gfifo_run cfg s es s'"
  by (induction rule: fops_run.induct) (auto intro: gfifo_run.intros fops_step_sound)

text \<open>
  What a driver's table promises to the programs that use the device, whatever the driver: the
  table is the shared one at the driver's configuration, so every execution of the driver is one
  of the protocol.
\<close>

locale gfifo_driver =
  fixes fops :: file_operations and cfg :: gfifo_cfg
  assumes table: "fops = fops_of cfg"
    and memcpy_down: "memcpy_descending (fifo_memcpy cfg)"
begin

lemma run_sound: "fops_run fops s es s' \<Longrightarrow> gfifo_run cfg s es s'"
  unfolding table by (rule fops_run_sound)

lemma memcpy_std: "memcpy_contract (fifo_memcpy cfg)"
  using memcpy_down by (simp add: memcpy_descending_def)

lemma reachable_inv: "fops_run fops (gfifo_start cfg) es s \<Longrightarrow> sys_inv cfg s"
  by (rule sys_inv_reachable [OF run_sound memcpy_std])

lemma one_holder:
  "fops_run fops (gfifo_start cfg) es s \<Longrightarrow> holds (pcs s t) \<Longrightarrow> holds (pcs s u) \<Longrightarrow> t = u"
  by (metis others_out reachable_inv sys_inv_def)

lemma fifo_order:
  "fops_run fops (gfifo_start cfg) es s \<Longrightarrow> Cleared \<notin> set es \<Longrightarrow>
     accepted es = delivered es @ gfifo_queue (dev s)"
  using fifo_balance [OF run_sound memcpy_down] by blast

lemma within_buffer:
  "fops_run fops (gfifo_start cfg) es s \<Longrightarrow> length (gfifo_queue (dev s)) \<le> unat (GFIFO_SIZE cfg)"
  using reachable_inv gfifo_queue_bound by (auto simp: sys_inv_def)

end

lemmas driver_handlers =
  gfifo_blk_read_def gfifo_blk_write_def gfifo_blk_ioctl_def gfifo_blk_llseek_def
  gfifo_blk_release_def
  gfifo_nonblock_read_def gfifo_nonblock_write_def gfifo_nonblock_ioctl_def
  gfifo_nonblock_llseek_def gfifo_nonblock_poll_def gfifo_nonblock_release_def
  gfifo_async_read_def gfifo_async_write_def gfifo_async_ioctl_def gfifo_async_llseek_def
  gfifo_async_poll_def gfifo_async_fasync_def gfifo_async_release_def
  gfifo_platform_read_def gfifo_platform_write_def gfifo_platform_ioctl_def
  gfifo_platform_llseek_def gfifo_platform_poll_def gfifo_platform_fasync_def
  gfifo_platform_release_def
  gfifo_misc_read_def gfifo_misc_write_def gfifo_misc_ioctl_def gfifo_misc_llseek_def
  gfifo_misc_poll_def gfifo_misc_fasync_def gfifo_misc_release_def
  gfifo_misc_n_read_def gfifo_misc_n_write_def gfifo_misc_n_ioctl_def gfifo_misc_n_llseek_def
  gfifo_misc_n_poll_def gfifo_misc_n_fasync_def gfifo_misc_n_release_def

lemmas driver_cfgs =
  gfifo_blk_cfg_def gfifo_nonblock_cfg_def gfifo_async_cfg_def gfifo_platform_cfg_def
  gfifo_misc_cfg_def gfifo_misc_n_cfg_def

lemmas driver_tables =
  gfifo_blk_fops_def gfifo_nonblock_fops_def gfifo_async_fops_def gfifo_platform_fops_def
  gfifo_misc_fops_def gfifo_misc_n_fops_def

text \<open>The drivers and their configurations.\<close>

definition gfifo_drivers :: "mcpy \<Rightarrow> (file_operations \<times> gfifo_cfg) list" where
  "gfifo_drivers mcpy =
    [(gfifo_blk_fops mcpy, gfifo_blk_cfg mcpy),
     (gfifo_nonblock_fops mcpy, gfifo_nonblock_cfg mcpy),
     (gfifo_async_fops mcpy, gfifo_async_cfg mcpy),
     (gfifo_platform_fops mcpy, gfifo_platform_cfg mcpy),
     (gfifo_misc_fops mcpy, gfifo_misc_cfg mcpy),
     (gfifo_misc_n_fops mcpy, gfifo_misc_n_cfg mcpy)]"

lemma gfifo_drivers_table:
  "(fops, cfg) \<in> set (gfifo_drivers mcpy) \<Longrightarrow> fops = fops_of cfg \<and> fifo_memcpy cfg = mcpy"
  by (auto simp: gfifo_drivers_def driver_tables driver_cfgs driver_handlers fops_of_def
      gfifo_close_def fun_eq_iff)

lemma gfifo_driverI:
  "(fops, cfg) \<in> set (gfifo_drivers mcpy) \<Longrightarrow> memcpy_descending mcpy \<Longrightarrow> gfifo_driver fops cfg"
  using gfifo_drivers_table by (simp add: gfifo_driver_def)

interpretation gfifo_blk: gfifo_driver "gfifo_blk_fops memcpy_fwd" "gfifo_blk_cfg memcpy_fwd"
  by (rule gfifo_driverI [OF _ fwd.memcpy_descending_axioms]) (simp add: gfifo_drivers_def)

interpretation gfifo_nonblock: gfifo_driver "gfifo_nonblock_fops memcpy_fwd" "gfifo_nonblock_cfg memcpy_fwd"
  by (rule gfifo_driverI [OF _ fwd.memcpy_descending_axioms]) (simp add: gfifo_drivers_def)

interpretation gfifo_async: gfifo_driver "gfifo_async_fops memcpy_fwd" "gfifo_async_cfg memcpy_fwd"
  by (rule gfifo_driverI [OF _ fwd.memcpy_descending_axioms]) (simp add: gfifo_drivers_def)

interpretation gfifo_platform: gfifo_driver "gfifo_platform_fops memcpy_fwd" "gfifo_platform_cfg memcpy_fwd"
  by (rule gfifo_driverI [OF _ fwd.memcpy_descending_axioms]) (simp add: gfifo_drivers_def)

interpretation gfifo_misc: gfifo_driver "gfifo_misc_fops memcpy_fwd" "gfifo_misc_cfg memcpy_fwd"
  by (rule gfifo_driverI [OF _ fwd.memcpy_descending_axioms]) (simp add: gfifo_drivers_def)

interpretation gfifo_misc_n: gfifo_driver "gfifo_misc_n_fops memcpy_fwd" "gfifo_misc_n_cfg memcpy_fwd"
  by (rule gfifo_driverI [OF _ fwd.memcpy_descending_axioms]) (simp add: gfifo_drivers_def)



section \<open>Asynchronous notification\<close>

lemma gfifo_data_async:
  "gfifo_read_data cfg d ulen c = (r, bs, d') \<Longrightarrow> async_queue d' = async_queue d"
  "gfifo_write_data cfg d ubuf c = (r, d') \<Longrightarrow> async_queue d' = async_queue d"
  by (auto simp: gfifo_read_data_def gfifo_write_data_def Let_def split: prod.splits if_splits)

lemma gfifo_fasync_distinct:
  "distinct (async_queue d) \<Longrightarrow> gfifo_fasync a f m d = (r, d') \<Longrightarrow> distinct (async_queue d')"
  by (auto simp: gfifo_fasync_def distinct_removeAll split: if_splits)

lemma gfifo_close_distinct:
  "distinct (async_queue d) \<Longrightarrow> gfifo_close cfg f d = (r, d') \<Longrightarrow> distinct (async_queue d')"
  using gfifo_fasync_distinct [of d True f False]
  by (auto simp: gfifo_close_def gfifo_release_def gfifo_release_plain_def split: if_splits)
    (metis surj_pair snd_conv)

lemma gfifo_at_async:
  "gfifo_read_at cfg t ulen c nb l s = Some (e, s') \<Longrightarrow> async_queue (dev s') = async_queue (dev s)"
  "gfifo_write_at cfg t ubuf c nb l s = Some (e, s') \<Longrightarrow> async_queue (dev s') = async_queue (dev s)"
  by (cases l; auto simp: sys_update_defs Let_def dest: gfifo_data_async
      split: if_splits option.splits prod.splits)+

lemma async_distinct_step:
  assumes "gfifo_step cfg s e s'" and "distinct (async_queue (dev s))"
  shows "distinct (async_queue (dev s'))"
  using assms(1)
proof cases
  case (st_read t)
  from gfifo_read_SomeD [OF this] gfifo_at_async(1) assms(2) show ?thesis by metis
next
  case (st_write t)
  from gfifo_write_SomeD [OF this] gfifo_at_async(2) assms(2) show ?thesis by metis
next
  case (st_ioctl t)
  with assms(2) show ?thesis
    by (auto simp: gfifo_ioctl_def sys_update_defs split: pc.splits call.splits if_splits option.splits)
next
  case (st_poll t)
  with assms(2) show ?thesis
    by (auto simp: gfifo_poll_def sys_update_defs split: pc.splits option.splits)
qed (insert assms(2), auto simp: sys_call_def goto_def set_dev_def
    dest: gfifo_fasync_distinct gfifo_close_distinct)

lemma async_distinct_reachable:
  "gfifo_run cfg (gfifo_start cfg) es s \<Longrightarrow> distinct (async_queue (dev s))"
  by (induction "gfifo_start cfg" es s rule: gfifo_run.induct)
    (auto simp: gfifo_start_def gfifo_dev0_def intro: async_distinct_step)

lemma count_notified:
  "distinct q \<Longrightarrow> count_list (map (\<lambda>f. (f, b)) q @ xs) (f, b) = count_list xs (f, b) + (if f \<in> set q then 1 else 0)"
  by (induction q) auto

text \<open>
  C36. SIGIO. In every reachable state of a driver with asynchronous notification, the writer that
  has stored data sends exactly one POLL\_IN signal to each file that asked for notification and
  none to any other; enabling it twice does not double the signal, and a file that was released is
  not notified any more.
\<close>

theorem gfifo_async_notify:
  assumes "has_async cfg" and "gfifo_run cfg (gfifo_start cfg) es s"
    and "pcs s t = Wr L_wake" and "calls s t = C_write ubuf count nonblock"
  shows "(\<exists>s'. gfifo_write cfg t s = Some (Tau, s') \<and>
      (\<forall>f. count_list (sigio s') (f, POLL_IN) =
         count_list (sigio s) (f, POLL_IN) + (if f \<in> set (async_queue (dev s)) then 1 else 0))) \<and>
    (\<forall>f. f \<in> set (async_queue (snd (gfifo_fasync True f True (dev s)))) \<and>
       f \<notin> set (async_queue (snd (gfifo_close cfg f (dev s)))))"
proof -
  have "\<forall>f. f \<notin> set (async_queue (snd (gfifo_close cfg f (dev s))))"
    using assms(1) by (auto simp: gfifo_close_def gfifo_release_def gfifo_fasync_def)
  moreover have "\<forall>f. f \<in> set (async_queue (snd (gfifo_fasync True f True (dev s))))"
    by (auto simp: gfifo_fasync_def)
  ultimately show ?thesis
    using assms(1,3,4)
    by (auto simp: gfifo_write_def sys_update_defs Let_def
        count_notified [OF async_distinct_reachable [OF assms(2)]] simp del: count_list_append)
qed

theorem gfifo_async_notify_witness:
  "\<exists>es s s'. gfifo_run cfg4 (gfifo_start cfg4) es s \<and> gfifo_write cfg4 2 s = Some (Tau, s') \<and>
     count_list (sigio s') (5, POLL_IN) = 1"
proof -
  have "\<exists>es s. gfifo_run cfg4 (gfifo_start cfg4) es s \<and> pcs s 2 = Wr L_wake \<and>
     calls s 2 = C_write [7] 1 False \<and> 5 \<in> set (async_queue (dev s)) \<and> sigio s = []"
    by (rule exec_start [where as =
        "[Fasync 5, Enter 2 (C_write [7] 1 False)] @ replicate 4 (Move 2)"]) code_simp
  then obtain es s where s: "gfifo_run cfg4 (gfifo_start cfg4) es s" "pcs s 2 = Wr L_wake"
     "calls s 2 = C_write [7] 1 False" "5 \<in> set (async_queue (dev s))" "sigio s = []" by blast
  have "has_async cfg4" by (simp add: cfg4_def)
  from gfifo_async_notify [OF this s(1-3)] s show ?thesis by fastforce
qed

section \<open>Life cycles\<close>

subsection \<open>The loadable modules and the platform driver\<close>

text \<open>
  \<^verbatim>\<open>gfifo.c\<close>, \<^verbatim>\<open>gfifo_nonblock.c\<close> and \<^verbatim>\<open>gfifo_async.c\<close> register on loading;
  \<^verbatim>\<open>gfifo_platform_driver.c\<close> does the same in \<^verbatim>\<open>probe\<close> and \<^verbatim>\<open>remove\<close>, whose result is always
  zero. The device structure they allocate and initialise is \<open>gfifo_dev0\<close>.
\<close>

definition gfifo_init :: "chr_kernel \<Rightarrow> chr_module \<Rightarrow> int \<times> chr_module" where
  "gfifo_init k s =
    (case chr_register 1 k s of
       (r, s) \<Rightarrow>
         if r < 0 then (r, s)
         else if \<not> kzalloc_ok k then (- ENOMEM, unregister_chrdev_region (major s) 1 s)
         else (0, chr_setup_cdev k 0 (s\<lparr>devp := True\<rparr>)))"

definition gfifo_exit :: "chr_module \<Rightarrow> chr_module" where
  "gfifo_exit s = unregister_chrdev_region (major s) 1 ((cdev_del 0 s)\<lparr>devp := False\<rparr>)"

definition gfifo_nonblock_init :: "chr_kernel \<Rightarrow> chr_module \<Rightarrow> int \<times> chr_module" where
  "gfifo_nonblock_init k s =
    (case chr_register 1 k s of
       (r, s) \<Rightarrow>
         if r < 0 then (r, s)
         else if \<not> kzalloc_ok k then (- ENOMEM, unregister_chrdev_region (major s) 1 s)
         else (0, chr_setup_cdev k 0 (s\<lparr>devp := True\<rparr>)))"

definition gfifo_nonblock_exit :: "chr_module \<Rightarrow> chr_module" where
  "gfifo_nonblock_exit s = unregister_chrdev_region (major s) 1 ((cdev_del 0 s)\<lparr>devp := False\<rparr>)"

definition gfifo_async_init :: "chr_kernel \<Rightarrow> chr_module \<Rightarrow> int \<times> chr_module" where
  "gfifo_async_init k s =
    (case chr_register 1 k s of
       (r, s) \<Rightarrow>
         if r < 0 then (r, s)
         else if \<not> kzalloc_ok k then (- ENOMEM, unregister_chrdev_region (major s) 1 s)
         else (0, chr_setup_cdev k 0 (s\<lparr>devp := True\<rparr>)))"

definition gfifo_async_exit :: "chr_module \<Rightarrow> chr_module" where
  "gfifo_async_exit s = unregister_chrdev_region (major s) 1 ((cdev_del 0 s)\<lparr>devp := False\<rparr>)"

definition gfifo_platform_probe :: "chr_kernel \<Rightarrow> chr_module \<Rightarrow> int \<times> chr_module" where
  "gfifo_platform_probe k s =
    (case chr_register 1 k s of
       (r, s) \<Rightarrow>
         if r < 0 then (r, s)
         else if \<not> kzalloc_ok k then (- ENOMEM, unregister_chrdev_region (major s) 1 s)
         else (0, chr_setup_cdev k 0 (s\<lparr>devp := True\<rparr>)))"

definition gfifo_platform_remove :: "chr_module \<Rightarrow> chr_module" where
  "gfifo_platform_remove s = unregister_chrdev_region (major s) 1 ((cdev_del 0 s)\<lparr>devp := False\<rparr>)"

lemmas chr_driver_defs =
  gfifo_init_def gfifo_exit_def gfifo_nonblock_init_def gfifo_nonblock_exit_def
  gfifo_async_init_def gfifo_async_exit_def gfifo_platform_probe_def gfifo_platform_remove_def

lemma chr_drivers_alike:
  "gfifo_init = gmem_init" "gfifo_exit = gmem_exit"
  "gfifo_nonblock_init = gmem_init" "gfifo_nonblock_exit = gmem_exit"
  "gfifo_async_init = gmem_init" "gfifo_async_exit = gmem_exit"
  "gfifo_platform_probe = gmem_init" "gfifo_platform_remove = gmem_exit"
  by (simp_all add: fun_eq_iff chr_driver_defs gmem_init_def gmem_exit_def)

interpretation gfifo_chr: chr_lifecycle gfifo_init gfifo_exit "gmem_attached 1"
  unfolding chr_drivers_alike by (rule gmem_chr.chr_lifecycle_axioms)

interpretation gfifo_nonblock_chr: chr_lifecycle gfifo_nonblock_init gfifo_nonblock_exit "gmem_attached 1"
  unfolding chr_drivers_alike by (rule gmem_chr.chr_lifecycle_axioms)

interpretation gfifo_async_chr: chr_lifecycle gfifo_async_init gfifo_async_exit "gmem_attached 1"
  unfolding chr_drivers_alike by (rule gmem_chr.chr_lifecycle_axioms)

interpretation gfifo_platform_chr: chr_lifecycle gfifo_platform_probe gfifo_platform_remove "gmem_attached 1"
  unfolding chr_drivers_alike by (rule gmem_chr.chr_lifecycle_axioms)

subsection \<open>The platform device modules\<close>

text \<open>
  The platform bus: the identifiers of the registered devices and of the allocated device
  structures. \<^verbatim>\<open>platform_device_put\<close> gives up the reference to a structure that was not added;
  \<^verbatim>\<open>platform_device_unregister\<close> removes a device and its structure.
\<close>

record platform_kernel =
  pdev_alloc_ok :: "nat \<Rightarrow> bool"
  pdev_add_ret :: "nat \<Rightarrow> int"

record platform_bus =
  pdevs :: "nat list"
  pdev_live :: "nat list"

definition platform_device_alloc :: "nat \<Rightarrow> platform_bus \<Rightarrow> platform_bus" where
  "platform_device_alloc i b = b\<lparr>pdev_live := i # pdev_live b\<rparr>"

definition platform_device_add :: "nat \<Rightarrow> platform_bus \<Rightarrow> platform_bus" where
  "platform_device_add i b = b\<lparr>pdevs := i # pdevs b\<rparr>"

definition platform_device_put :: "nat \<Rightarrow> platform_bus \<Rightarrow> platform_bus" where
  "platform_device_put i b = b\<lparr>pdev_live := remove1 i (pdev_live b)\<rparr>"

definition platform_device_unregister :: "nat \<Rightarrow> platform_bus \<Rightarrow> platform_bus" where
  "platform_device_unregister i b =
     b\<lparr>pdevs := remove1 i (pdevs b), pdev_live := remove1 i (pdev_live b)\<rparr>"

text \<open>
  The device of \<^verbatim>\<open>gfifo_platform\<close> is a static structure: there is nothing to allocate and
  unregistering takes it off the bus. It has the identifier -1, written 0 here as the only one.
\<close>

definition gfifo_platform_device_init :: "platform_kernel \<Rightarrow> platform_bus \<Rightarrow> int \<times> platform_bus" where
  "gfifo_platform_device_init k b =
    (let r = pdev_add_ret k 0 in (r, if r = 0 then platform_device_add 0 b else b))"

definition gfifo_platform_device_exit :: "platform_bus \<Rightarrow> platform_bus" where
  "gfifo_platform_device_exit b = b\<lparr>pdevs := remove1 0 (pdevs b)\<rparr>"

definition gfifo_misc_device_init :: "platform_kernel \<Rightarrow> platform_bus \<Rightarrow> int \<times> platform_bus" where
  "gfifo_misc_device_init k b =
    (if \<not> pdev_alloc_ok k 0 then (- ENOMEM, b)
     else let b = platform_device_alloc 0 b; r = pdev_add_ret k 0
          in if r \<noteq> 0 then (r, platform_device_put 0 b)
             else (0, platform_device_add 0 b))"

definition gfifo_misc_device_exit :: "platform_bus \<Rightarrow> platform_bus" where
  "gfifo_misc_device_exit b = platform_device_unregister 0 b"

text \<open>The loop of \<^verbatim>\<open>gfifo_platform_device_n.c\<close> over the sixteen devices returns at the first error.\<close>

fun gfifo_misc_n_device_loop ::
    "platform_kernel \<Rightarrow> nat list \<Rightarrow> platform_bus \<Rightarrow> int \<times> platform_bus" where
  "gfifo_misc_n_device_loop k [] b = (0, b)"
| "gfifo_misc_n_device_loop k (i # is) b =
    (if \<not> pdev_alloc_ok k i then (- ENOMEM, b)
     else let b = platform_device_alloc i b; r = pdev_add_ret k i
          in if r \<noteq> 0 then (r, platform_device_put i b)
             else gfifo_misc_n_device_loop k is (platform_device_add i b))"

definition gfifo_misc_n_device_init :: "platform_kernel \<Rightarrow> platform_bus \<Rightarrow> int \<times> platform_bus" where
  "gfifo_misc_n_device_init k b = gfifo_misc_n_device_loop k [0..<DEVICE_NUM] b"

definition gfifo_misc_n_device_exit :: "platform_bus \<Rightarrow> platform_bus" where
  "gfifo_misc_n_device_exit b = fold platform_device_unregister [0..<DEVICE_NUM] b"

lemmas platform_defs = platform_device_alloc_def platform_device_add_def platform_device_put_def
  platform_device_unregister_def

text \<open>The loop registers the devices before the first one that fails.\<close>

definition pdev_ok :: "platform_kernel \<Rightarrow> nat \<Rightarrow> bool" where
  "pdev_ok k i \<longleftrightarrow> pdev_alloc_ok k i \<and> pdev_add_ret k i = 0"

lemma device_loop_result:
  "gfifo_misc_n_device_loop k is b = (r, b') \<Longrightarrow> \<forall>i \<in> set is. pdev_add_ret k i \<le> 0 \<Longrightarrow>
     (r = 0 \<longleftrightarrow> list_all (pdev_ok k) is) \<and> r \<le> 0 \<and>
     pdevs b' = rev (takeWhile (pdev_ok k) is) @ pdevs b \<and>
     pdev_live b' = rev (takeWhile (pdev_ok k) is) @ pdev_live b"
  by (induction "is" arbitrary: b) (auto simp: pdev_ok_def platform_defs Let_def split: if_splits)

lemma unregister_all:
  "pdevs (fold platform_device_unregister is b) = fold remove1 is (pdevs b)"
  "pdev_live (fold platform_device_unregister is b) = fold remove1 is (pdev_live b)"
  by (induction "is" arbitrary: b) (auto simp: platform_defs)

lemma fold_remove1_rev: "distinct is \<Longrightarrow> fold remove1 is (rev is @ xs) = xs"
proof (induction "is" arbitrary: xs)
  case (Cons i "is")
  then have "remove1 i (rev (i # is) @ xs) = rev is @ xs"
    by (simp add: remove1_append)
  with Cons show ?case by simp
qed simp

text \<open>
  Loading and unloading the sixteen platform devices. With kernel errors at most zero, loading
  reports success exactly when every device could be allocated and added, and unloading then
  restores the bus. When device \<open>i\<close> is the first to fail, loading fails but the devices before it
  stay registered, and the module is not there to unregister them.
\<close>

theorem gfifo_misc_n_device_lifecycle:
  assumes "\<forall>i < DEVICE_NUM. pdev_add_ret k i \<le> 0"
    and "gfifo_misc_n_device_init k b = (r, b')"
  shows "(r = 0 \<longleftrightarrow> (\<forall>i < DEVICE_NUM. pdev_ok k i)) \<and>
    (r = 0 \<longrightarrow> pdevs b' = rev [0..<DEVICE_NUM] @ pdevs b \<and> gfifo_misc_n_device_exit b' = b) \<and>
    (\<forall>i < DEVICE_NUM. (\<forall>j < i. pdev_ok k j) \<and> \<not> pdev_ok k i \<longrightarrow>
       r < 0 \<and> pdevs b' = rev [0..<i] @ pdevs b)"
proof -
  have l: "r = 0 \<longleftrightarrow> list_all (pdev_ok k) [0..<DEVICE_NUM]" "r \<le> 0"
    "pdevs b' = rev (takeWhile (pdev_ok k) [0..<DEVICE_NUM]) @ pdevs b"
    "pdev_live b' = rev (takeWhile (pdev_ok k) [0..<DEVICE_NUM]) @ pdev_live b"
    using device_loop_result [of k "[0..<DEVICE_NUM]" b r b'] assms
    by (auto simp: gfifo_misc_n_device_init_def)
  have all: "list_all (pdev_ok k) [0..<DEVICE_NUM] \<longleftrightarrow> (\<forall>i < DEVICE_NUM. pdev_ok k i)"
    by (auto simp: list_all_iff)
  have ok: "pdevs b' = rev [0..<DEVICE_NUM] @ pdevs b \<and> gfifo_misc_n_device_exit b' = b" if "r = 0"
  proof -
    have "takeWhile (pdev_ok k) [0..<DEVICE_NUM] = [0..<DEVICE_NUM]"
      using that l(1) all by (intro takeWhile_eq_all_conv [THEN iffD2]) auto
    with l(3,4) show ?thesis
      using fold_remove1_rev [of "[0..<DEVICE_NUM]"] distinct_upt
      by (simp add: gfifo_misc_n_device_exit_def unregister_all platform_bus.equality del: upt_rec_numeral upt_conv_Cons_Cons)
  qed
  have bad: "r < 0 \<and> pdevs b' = rev [0..<i] @ pdevs b"
    if "i < DEVICE_NUM" "\<forall>j < i. pdev_ok k j" "\<not> pdev_ok k i" for i
  proof -
    have "[0..<DEVICE_NUM] = [0..<i] @ i # [Suc i..<DEVICE_NUM]"
      using that(1) upt_add_eq_append [of 0 i "DEVICE_NUM - i"] upt_conv_Cons [of i DEVICE_NUM] by simp
    moreover have "takeWhile (pdev_ok k) ([0..<i] @ i # [Suc i..<DEVICE_NUM]) = [0..<i]"
      using that(2,3) by (subst takeWhile_append2) auto
    ultimately show ?thesis
      using l(1-3) all that by auto
  qed
  show ?thesis using l(1) all ok bad by blast
qed

theorem gfifo_misc_n_device_lifecycle_witness:
  "\<exists>b'. gfifo_misc_n_device_init \<lparr>pdev_alloc_ok = (\<lambda>_. True), pdev_add_ret = (\<lambda>i. if i = 2 then - 16 else 0)\<rparr>
       \<lparr>pdevs = [], pdev_live = []\<rparr> = (- 16, b') \<and> pdevs b' = [1, 0]"
proof -
  let ?k = "\<lparr>pdev_alloc_ok = (\<lambda>_. True), pdev_add_ret = (\<lambda>i. if i = 2 then - 16 else 0)\<rparr> :: platform_kernel"
  let ?b = "\<lparr>pdevs = [], pdev_live = []\<rparr> :: platform_bus"
  obtain r b' where i: "gfifo_misc_n_device_init ?k ?b = (r, b')" by (metis surj_pair)
  have "fst (gfifo_misc_n_device_init ?k ?b) = - 16" by code_simp
  then have r: "r = - 16" unfolding i by simp
  have "\<forall>j < 2. pdev_ok ?k j" "\<not> pdev_ok ?k 2" "(2 :: nat) < DEVICE_NUM"
    by (auto simp: pdev_ok_def)
  moreover have "\<forall>i < DEVICE_NUM. pdev_add_ret ?k i \<le> 0" by simp
  ultimately have "pdevs b' = rev [0..<2] @ pdevs ?b"
    using gfifo_misc_n_device_lifecycle [OF _ i] by blast
  then show ?thesis
    using i r by (simp add: numeral_2_eq_2)
qed

subsection \<open>The misc drivers\<close>

text \<open>
  \<^verbatim>\<open>probe\<close> allocates a device, stores it in the platform device and registers a misc device with
  it. A C string pointer is to static storage or to the stack frame of the running function; the
  latter is dead once the function has returned. The state: the allocated device structures (by the
  platform device they belong to), the driver data, and the registered misc devices with the
  name each was registered under.
\<close>

datatype cstr = Static string | Frame string

record misc_kernel =
  misc_kzalloc_ok :: bool
  misc_register_ret :: int

record misc_state =
  live :: "nat list"
  drvdata :: "nat \<Rightarrow> nat option"
  miscdevs :: "(nat \<times> cstr) list"

definition gfifo_misc_probe :: "misc_kernel \<Rightarrow> nat \<Rightarrow> misc_state \<Rightarrow> int \<times> misc_state" where
  "gfifo_misc_probe k pdev s =
    (if \<not> misc_kzalloc_ok k then (- ENOMEM, s)
     else let s = s\<lparr>live := pdev # live s, drvdata := (drvdata s)(pdev := Some pdev)\<rparr>;
              r = misc_register_ret k
          in if r \<noteq> 0 then (r, s)
             else (0, s\<lparr>miscdevs := (pdev, Static ''gfifo'') # miscdevs s\<rparr>))"

text \<open>\<^verbatim>\<open>remove\<close> uses the driver data without a check: with none it dereferences a null pointer.\<close>

definition gfifo_misc_remove :: "nat \<Rightarrow> misc_state \<Rightarrow> (int \<times> misc_state) option" where
  "gfifo_misc_remove pdev s =
    (case drvdata s pdev of
       None \<Rightarrow> None
     | Some d \<Rightarrow> Some (0, s\<lparr>miscdevs := filter (\<lambda>(i, _). i \<noteq> d) (miscdevs s),
                              live := remove1 d (live s)\<rparr>))"

abbreviation GFIFO_NAME_SIZE :: nat where "GFIFO_NAME_SIZE \<equiv> 0x0A"

definition gfifo_misc_n_probe :: "misc_kernel \<Rightarrow> nat \<Rightarrow> misc_state \<Rightarrow> int \<times> misc_state" where
  "gfifo_misc_n_probe k pdev s =
    (if \<not> misc_kzalloc_ok k then (- ENOMEM, s)
     else let dev_name = snprintf_str GFIFO_NAME_SIZE (''gfifo'' @ dec pdev);
              s = s\<lparr>live := pdev # live s, drvdata := (drvdata s)(pdev := Some pdev)\<rparr>;
              r = misc_register_ret k
          in if r \<noteq> 0 then (r, s)
             else (0, s\<lparr>miscdevs := (pdev, Frame dev_name) # miscdevs s\<rparr>))"

definition gfifo_misc_n_remove :: "nat \<Rightarrow> misc_state \<Rightarrow> (int \<times> misc_state) option" where
  "gfifo_misc_n_remove pdev s =
    (case drvdata s pdev of
       None \<Rightarrow> None
     | Some d \<Rightarrow> Some (0, s\<lparr>miscdevs := filter (\<lambda>(i, _). i \<noteq> d) (miscdevs s),
                              live := remove1 d (live s)\<rparr>))"

text \<open>
  The contract of \<^verbatim>\<open>probe\<close> and \<^verbatim>\<open>remove\<close>, as the driver core uses them: a device that was bound
  is released completely; a failed registration, however, keeps the allocation.
\<close>

locale misc_driver =
  fixes probe :: "misc_kernel \<Rightarrow> nat \<Rightarrow> misc_state \<Rightarrow> int \<times> misc_state"
    and remove :: "nat \<Rightarrow> misc_state \<Rightarrow> (int \<times> misc_state) option"
    and name :: "nat \<Rightarrow> cstr"
  assumes probe_ok: "misc_kzalloc_ok k \<Longrightarrow> misc_register_ret k = 0 \<Longrightarrow>
      probe k i s = (0, s\<lparr>live := i # live s, drvdata := (drvdata s)(i := Some i),
        miscdevs := (i, name i) # miscdevs s\<rparr>)"
    and probe_nomem: "\<not> misc_kzalloc_ok k \<Longrightarrow> probe k i s = (- ENOMEM, s)"
    and probe_leak: "misc_kzalloc_ok k \<Longrightarrow> misc_register_ret k \<noteq> 0 \<Longrightarrow>
      probe k i s = (misc_register_ret k, s\<lparr>live := i # live s, drvdata := (drvdata s)(i := Some i)\<rparr>)"
    and remove_bound: "drvdata s i = Some d \<Longrightarrow>
      remove i s = Some (0, s\<lparr>miscdevs := filter (\<lambda>(i, _). i \<noteq> d) (miscdevs s),
        live := remove1 d (live s)\<rparr>)"
begin

lemma probe_remove:
  assumes "misc_kzalloc_ok k" and "misc_register_ret k = 0" and "i \<notin> fst ` set (miscdevs s)"
  shows "\<exists>s' s''. probe k i s = (0, s') \<and> remove i s' = Some (0, s'') \<and>
    live s'' = live s \<and> miscdevs s'' = miscdevs s"
proof -
  have "filter (\<lambda>(j, _). j \<noteq> i) (miscdevs s) = miscdevs s"
    using assms(3) by (intro filter_True) force
  then show ?thesis
    using probe_ok [OF assms(1,2), of i s] by (simp add: remove_bound)
qed

lemma probe_fail_leaks:
  assumes "misc_kzalloc_ok k" and "misc_register_ret k \<noteq> 0"
  shows "\<exists>s'. probe k i s = (misc_register_ret k, s') \<and> live s' = i # live s \<and> miscdevs s' = miscdevs s"
  using probe_leak [OF assms] by simp

end

interpretation gfifo_misc_drv: misc_driver gfifo_misc_probe gfifo_misc_remove "\<lambda>_. Static ''gfifo''"
  by unfold_locales (auto simp: gfifo_misc_probe_def gfifo_misc_remove_def Let_def)

interpretation gfifo_misc_n_drv: misc_driver gfifo_misc_n_probe gfifo_misc_n_remove
  "\<lambda>i. Frame (snprintf_str GFIFO_NAME_SIZE (''gfifo'' @ dec i))"
  by unfold_locales (auto simp: gfifo_misc_n_probe_def gfifo_misc_n_remove_def Let_def)

text \<open>
  \<^verbatim>\<open>gfifo_misc\<close> and \<^verbatim>\<open>gfifo_misc_n\<close>, bound and unbound. A device that was probed successfully
  is released completely by \<^verbatim>\<open>remove\<close>; but when \<^verbatim>\<open>misc_register\<close> fails, both \<^verbatim>\<open>probe\<close> functions
  return its error and leave the device structure allocated.
\<close>

theorem gfifo_misc_bind_unbind:
  assumes "misc_kzalloc_ok k" and "i \<notin> fst ` set (miscdevs s)"
    and "(probe, remove) \<in> {(gfifo_misc_probe, gfifo_misc_remove), (gfifo_misc_n_probe, gfifo_misc_n_remove)}"
  shows "(misc_register_ret k = 0 \<longrightarrow> (\<exists>s' s''. probe k i s = (0, s') \<and> remove i s' = Some (0, s'') \<and>
      live s'' = live s \<and> miscdevs s'' = miscdevs s)) \<and>
    (misc_register_ret k \<noteq> 0 \<longrightarrow> (\<exists>s'. probe k i s = (misc_register_ret k, s') \<and>
      live s' = i # live s \<and> miscdevs s' = miscdevs s))"
  using assms gfifo_misc_drv.probe_remove gfifo_misc_drv.probe_fail_leaks
    gfifo_misc_n_drv.probe_remove gfifo_misc_n_drv.probe_fail_leaks by blast

theorem gfifo_misc_bind_unbind_witness:
  "\<exists>s'. gfifo_misc_probe \<lparr>misc_kzalloc_ok = True, misc_register_ret = - 16\<rparr> 0
      \<lparr>live = [], drvdata = (\<lambda>_. None), miscdevs = []\<rparr> = (- 16, s') \<and> live s' = [0] \<and> miscdevs s' = []"
  using gfifo_misc_bind_unbind [of "\<lparr>misc_kzalloc_ok = True, misc_register_ret = - 16\<rparr>" 0
      "\<lparr>live = [], drvdata = (\<lambda>_. None), miscdevs = []\<rparr>" gfifo_misc_probe gfifo_misc_remove]
  by simp

text \<open>
  The names of \<^verbatim>\<open>gfifo_misc_n\<close>. For the sixteen devices the name fits the ten-byte buffer and
  the names differ; but the registered misc device keeps a pointer into the stack frame of
  \<^verbatim>\<open>gfifo_probe\<close>, which has returned.
\<close>

theorem gfifo_misc_n_names:
  "(\<forall>i < DEVICE_NUM. snprintf_str GFIFO_NAME_SIZE (''gfifo'' @ dec i) = ''gfifo'' @ dec i) \<and>
   distinct (map (\<lambda>i. ''gfifo'' @ dec i) [0..<DEVICE_NUM]) \<and>
   (\<forall>k i s. misc_kzalloc_ok k \<and> misc_register_ret k = 0 \<longrightarrow>
      (i, Frame (snprintf_str GFIFO_NAME_SIZE (''gfifo'' @ dec i)))
        \<in> set (miscdevs (snd (gfifo_misc_n_probe k i s))))"
proof (intro conjI)
  have "list_all (\<lambda>i. snprintf_str GFIFO_NAME_SIZE (''gfifo'' @ dec i) = ''gfifo'' @ dec i) [0..<DEVICE_NUM]"
    by code_simp
  then show "\<forall>i < DEVICE_NUM. snprintf_str GFIFO_NAME_SIZE (''gfifo'' @ dec i) = ''gfifo'' @ dec i"
    by (auto simp: list_all_iff)
  show "distinct (map (\<lambda>i. ''gfifo'' @ dec i) [0..<DEVICE_NUM])"
    by code_simp
qed (simp add: gfifo_misc_n_drv.probe_ok)

theorem gfifo_misc_n_names_witness:
  "snprintf_str GFIFO_NAME_SIZE (''gfifo'' @ dec 12) = ''gfifo12'' \<and>
   (12, Frame (snprintf_str GFIFO_NAME_SIZE (''gfifo'' @ dec 12))) \<in> set (miscdevs (snd
     (gfifo_misc_n_probe \<lparr>misc_kzalloc_ok = True, misc_register_ret = 0\<rparr> 12
        \<lparr>live = [], drvdata = (\<lambda>_. None), miscdevs = []\<rparr>)))"
proof -
  let ?k = "\<lparr>misc_kzalloc_ok = True, misc_register_ret = 0\<rparr>"
  have "''gfifo'' @ dec 12 = ''gfifo12''" by code_simp
  moreover have "snprintf_str GFIFO_NAME_SIZE (''gfifo'' @ dec 12) = ''gfifo'' @ dec 12"
    by (rule gfifo_misc_n_names [THEN conjunct1, rule_format]) simp
  moreover have "misc_kzalloc_ok ?k \<and> misc_register_ret ?k = 0" by simp
  ultimately show ?thesis
    using gfifo_misc_n_names [THEN conjunct2, THEN conjunct2] by metis
qed

end
