(* ===== verification/Generic_Access.thy ===== *)
theory Generic_Access
  imports Ldd_Prelude
begin

text \<open>
  Register access, \<^verbatim>\<open>src/generic/generic_access.c\<close> with its header and the macros of
  \<^verbatim>\<open>dev_common.h\<close>: masked writes and reads of 8, 16, 32 and 64 bit registers under a spinlock or
  a mutex, with hooks that can take over the 8-bit accesses to an address range. The I/O accessors
  of the kernel are a parameter of the model (the record \<open>iobus\<close>), and so are the hooks.
\<close>

unbundle bit_operations_syntax

section \<open>State and parameters\<close>

text \<open>
  The accessors \<^verbatim>\<open>__raw_readb\<close> to \<^verbatim>\<open>__raw_writel\<close> act on the state \<open>'io\<close> of the hardware;
  reading may change it. \<open>virt_to_phys\<close> stands for \<^verbatim>\<open>vmalloc_to_page\<close> and \<^verbatim>\<open>page_to_phys\<close>: the
  physical address of an I/O address, or \<open>None\<close> when it is not mapped.
\<close>

record 'io iobus =
  raw_readb :: "u32 \<Rightarrow> 'io \<Rightarrow> u8 \<times> 'io"
  raw_writeb :: "u8 \<Rightarrow> u32 \<Rightarrow> 'io \<Rightarrow> 'io"
  raw_readw :: "u32 \<Rightarrow> 'io \<Rightarrow> u16 \<times> 'io"
  raw_writew :: "u16 \<Rightarrow> u32 \<Rightarrow> 'io \<Rightarrow> 'io"
  raw_readl :: "u32 \<Rightarrow> 'io \<Rightarrow> u32 \<times> 'io"
  raw_writel :: "u32 \<Rightarrow> u32 \<Rightarrow> 'io \<Rightarrow> 'io"
  virt_to_phys :: "u32 \<Rightarrow> u32 option"

record 'io ga_ioaddr_ops =
  op_init :: "(u32 \<Rightarrow> u32 \<Rightarrow> nat \<Rightarrow> 'io \<Rightarrow> int \<times> 'io) option"
  op_read8 :: "(u32 \<Rightarrow> nat \<Rightarrow> 'io \<Rightarrow> u8 \<times> 'io) option"
  op_write8 :: "(u8 \<Rightarrow> u32 \<Rightarrow> nat \<Rightarrow> 'io \<Rightarrow> 'io) option"

record 'io ga_ioaddr_info =
  ga_addr :: u32
  ga_size :: u32
  ga_opaque :: nat
  ga_ops :: "'io ga_ioaddr_ops"

abbreviation GA_LM_SPINLOCK :: int where "GA_LM_SPINLOCK \<equiv> 0"
abbreviation GA_LM_MUTEX :: int where "GA_LM_MUTEX \<equiv> 1"

record 'io ga_state =
  addr_info :: "'io ga_ioaddr_info"
  ga_lock_mode :: int
  ga_spinlock :: bool
  ga_mutex :: bool
  io :: 'io

abbreviation GA_WRITE :: u32 where "GA_WRITE \<equiv> 0x01"
abbreviation GA_READ_WRITE_CONDITIONAL :: u32 where "GA_READ_WRITE_CONDITIONAL \<equiv> 0x02"
abbreviation GA_READ_WRITE_ALWAYS :: u32 where "GA_READ_WRITE_ALWAYS \<equiv> 0x04"
abbreviation GA_MODIFIED_NONE :: int where "GA_MODIFIED_NONE \<equiv> 0"
abbreviation GA_MODIFIED_SURE :: int where "GA_MODIFIED_SURE \<equiv> 1"
abbreviation GA_MODIFIED_MAYBE :: int where "GA_MODIFIED_MAYBE \<equiv> 2"

section \<open>Lock mode and hooks\<close>

definition ga_set_lock_mode :: "int \<Rightarrow> 'io ga_state \<Rightarrow> 'io ga_state" where
  "ga_set_lock_mode mode s = s\<lparr>ga_lock_mode := mode\<rparr>"

definition no_ops :: "'io ga_ioaddr_ops" where
  "no_ops = \<lparr>op_init = None, op_read8 = None, op_write8 = None\<rparr>"

definition no_info :: "'io ga_ioaddr_info" where
  "no_info = \<lparr>ga_addr = 0, ga_size = 0, ga_opaque = 0, ga_ops = no_ops\<rparr>"

definition ga_set_phys_addr_ops ::
    "u32 \<Rightarrow> u32 \<Rightarrow> 'io ga_ioaddr_ops option \<Rightarrow> nat \<Rightarrow> 'io ga_state \<Rightarrow> int \<times> 'io ga_state" where
  "ga_set_phys_addr_ops addr sz ops opaque s =
    (case ops of
       None \<Rightarrow> (0, s\<lparr>addr_info := no_info\<rparr>)
     | Some ops \<Rightarrow>
         let s = s\<lparr>addr_info := \<lparr>ga_addr = addr, ga_size = sz, ga_opaque = opaque, ga_ops = ops\<rparr>\<rparr>
         in case op_init ops of
              None \<Rightarrow> (0, s)
            | Some init \<Rightarrow>
                (case init addr sz opaque (io s) of
                   (ret, io') \<Rightarrow>
                     if ret \<noteq> 0 then (ret, s\<lparr>io := io', addr_info := no_info\<rparr>)
                     else (0, s\<lparr>io := io'\<rparr>)))"

text \<open>Is the address in the hooked range: \<^verbatim>\<open>addr_info.addr + addr_info.size\<close> is a 32-bit sum.\<close>

definition ga_ioaddr_to_phys :: "'io iobus \<Rightarrow> u32 \<Rightarrow> 'io ga_state \<Rightarrow> int \<times> u32" where
  "ga_ioaddr_to_phys bus ioaddr s =
    (case virt_to_phys bus ioaddr of
       None \<Rightarrow> (- EFAULT, 0)
     | Some addr \<Rightarrow>
         if ga_addr (addr_info s) \<le> addr \<and> addr < ga_addr (addr_info s) + ga_size (addr_info s)
         then (1, addr) else (0, 0))"

definition ga_raw_readb :: "'io iobus \<Rightarrow> u32 \<Rightarrow> 'io ga_state \<Rightarrow> u8 \<times> 'io ga_state" where
  "ga_raw_readb bus ioaddr s =
    (let raw = (case raw_readb bus ioaddr (io s) of (v, io') \<Rightarrow> (v, s\<lparr>io := io'\<rparr>))
     in case op_read8 (ga_ops (addr_info s)) of
          None \<Rightarrow> raw
        | Some read8 \<Rightarrow>
            (case ga_ioaddr_to_phys bus ioaddr s of
               (ret, addr) \<Rightarrow>
                 if ret < 0 then (0, s)
                 else if 0 < ret then
                   (case read8 addr (ga_opaque (addr_info s)) (io s) of (v, io') \<Rightarrow> (v, s\<lparr>io := io'\<rparr>))
                 else raw))"

definition ga_raw_writeb :: "'io iobus \<Rightarrow> u8 \<Rightarrow> u32 \<Rightarrow> 'io ga_state \<Rightarrow> 'io ga_state" where
  "ga_raw_writeb bus val ioaddr s =
    (let raw = s\<lparr>io := raw_writeb bus val ioaddr (io s)\<rparr>
     in case op_write8 (ga_ops (addr_info s)) of
          None \<Rightarrow> raw
        | Some write8 \<Rightarrow>
            (case ga_ioaddr_to_phys bus ioaddr s of
               (ret, addr) \<Rightarrow>
                 if ret < 0 then s
                 else if 0 < ret then s\<lparr>io := write8 val addr (ga_opaque (addr_info s)) (io s)\<rparr>
                 else raw))"

text \<open>The 16 and 32 bit accessors go to the hardware directly.\<close>

definition io_readw :: "'io iobus \<Rightarrow> u32 \<Rightarrow> 'io ga_state \<Rightarrow> u16 \<times> 'io ga_state" where
  "io_readw bus a s = (case raw_readw bus a (io s) of (v, io') \<Rightarrow> (v, s\<lparr>io := io'\<rparr>))"

definition io_writew :: "'io iobus \<Rightarrow> u16 \<Rightarrow> u32 \<Rightarrow> 'io ga_state \<Rightarrow> 'io ga_state" where
  "io_writew bus v a s = s\<lparr>io := raw_writew bus v a (io s)\<rparr>"

definition io_readl :: "'io iobus \<Rightarrow> u32 \<Rightarrow> 'io ga_state \<Rightarrow> u32 \<times> 'io ga_state" where
  "io_readl bus a s = (case raw_readl bus a (io s) of (v, io') \<Rightarrow> (v, s\<lparr>io := io'\<rparr>))"

definition io_writel :: "'io iobus \<Rightarrow> u32 \<Rightarrow> u32 \<Rightarrow> 'io ga_state \<Rightarrow> 'io ga_state" where
  "io_writel bus v a s = s\<lparr>io := raw_writel bus v a (io s)\<rparr>"

section \<open>Locking\<close>

text \<open>
  The macros \<^verbatim>\<open>LOCK\<close> and \<^verbatim>\<open>UNLOCK\<close>. Taking a lock that is held does not return: \<open>None\<close>.
\<close>

definition LOCK :: "'io ga_state \<Rightarrow> 'io ga_state option" where
  "LOCK s =
    (if ga_lock_mode s = GA_LM_SPINLOCK
     then (if ga_spinlock s then None else Some (s\<lparr>ga_spinlock := True\<rparr>))
     else (if ga_mutex s then None else Some (s\<lparr>ga_mutex := True\<rparr>)))"

definition UNLOCK :: "'io ga_state \<Rightarrow> 'io ga_state" where
  "UNLOCK s =
    (if ga_lock_mode s = GA_LM_SPINLOCK then s\<lparr>ga_spinlock := False\<rparr> else s\<lparr>ga_mutex := False\<rparr>)"

section \<open>Masked writes and reads\<close>

text \<open>
  The bodies of the macros \<^verbatim>\<open>GA_DEFINE_REG_WRITE\<close> and \<^verbatim>\<open>GA_DEFINE_REG_READ\<close>, for any width: the
  accessors and the all-ones mask are the macro's arguments.
\<close>

definition ga_reg_update ::
    "(u32 \<Rightarrow> 's \<Rightarrow> 'a::len word \<times> 's) \<Rightarrow> ('a word \<Rightarrow> u32 \<Rightarrow> 's \<Rightarrow> 's) \<Rightarrow> 'a word \<Rightarrow>
     u32 \<Rightarrow> 'a word \<Rightarrow> 'a word \<Rightarrow> u32 \<Rightarrow> 's \<Rightarrow> int \<times> 's" where
  "ga_reg_update rd wr all addr msk value options s =
    (if options AND GA_WRITE \<noteq> 0 \<or> msk = all then
       (GA_MODIFIED_MAYBE, wr (value AND msk) addr s)
     else if options AND (GA_READ_WRITE_CONDITIONAL OR GA_READ_WRITE_ALWAYS) \<noteq> 0 then
       (case rd addr s of
          (old_reg, s) \<Rightarrow>
            let new_reg = (old_reg AND NOT msk) OR (value AND msk);
                modified = (if old_reg \<noteq> new_reg then GA_MODIFIED_SURE else GA_MODIFIED_NONE)
            in (modified,
                if options AND GA_READ_WRITE_ALWAYS \<noteq> 0 \<or> old_reg \<noteq> new_reg
                then wr new_reg addr s else s))
     else (GA_MODIFIED_NONE, s))"

definition locked :: "('io ga_state \<Rightarrow> 'r \<times> 'io ga_state) \<Rightarrow> 'io ga_state \<Rightarrow> ('r \<times> 'io ga_state) option" where
  "locked body s =
    (case LOCK s of
       None \<Rightarrow> None
     | Some s \<Rightarrow> (case body s of (r, s) \<Rightarrow> Some (r, UNLOCK s)))"

definition ga_reg_write8 :: "'io iobus \<Rightarrow> u32 \<Rightarrow> u8 \<Rightarrow> u8 \<Rightarrow> u32 \<Rightarrow> 'io ga_state \<Rightarrow> (int \<times> 'io ga_state) option" where
  "ga_reg_write8 bus addr msk value options =
     locked (ga_reg_update (ga_raw_readb bus) (ga_raw_writeb bus) 0xff addr msk value options)"

definition ga_reg_write16 :: "'io iobus \<Rightarrow> u32 \<Rightarrow> u16 \<Rightarrow> u16 \<Rightarrow> u32 \<Rightarrow> 'io ga_state \<Rightarrow> (int \<times> 'io ga_state) option" where
  "ga_reg_write16 bus addr msk value options =
     locked (ga_reg_update (io_readw bus) (io_writew bus) 0xffff addr msk value options)"

definition ga_reg_write32 :: "'io iobus \<Rightarrow> u32 \<Rightarrow> u32 \<Rightarrow> u32 \<Rightarrow> u32 \<Rightarrow> 'io ga_state \<Rightarrow> (int \<times> 'io ga_state) option" where
  "ga_reg_write32 bus addr msk value options =
     locked (ga_reg_update (io_readl bus) (io_writel bus) 0xffffffff addr msk value options)"

text \<open>The 64-bit write of a 32-bit little-endian target: two locked 32-bit writes.\<close>

definition ga_reg_write64 :: "'io iobus \<Rightarrow> u32 \<Rightarrow> u64 \<Rightarrow> u64 \<Rightarrow> u32 \<Rightarrow> 'io ga_state \<Rightarrow> (int \<times> 'io ga_state) option" where
  "ga_reg_write64 bus addr msk value options s =
    (case ga_reg_write32 bus addr (ucast (msk AND 0xffffffff)) (ucast (value AND 0xffffffff)) options s of
       None \<Rightarrow> None
     | Some (rc1, s) \<Rightarrow>
         (case ga_reg_write32 bus (addr + 4) (ucast (drop_bit 32 msk)) (ucast (drop_bit 32 value)) options s of
            None \<Rightarrow> None
          | Some (rc2, s) \<Rightarrow>
              Some (if rc1 = GA_MODIFIED_SURE \<or> rc2 = GA_MODIFIED_SURE then GA_MODIFIED_SURE
                    else if rc1 = GA_MODIFIED_MAYBE \<or> rc2 = GA_MODIFIED_MAYBE then GA_MODIFIED_MAYBE
                    else GA_MODIFIED_NONE, s)))"

definition ga_reg_write :: "'io iobus \<Rightarrow> u32 \<Rightarrow> int \<Rightarrow> u64 \<Rightarrow> u64 \<Rightarrow> u32 \<Rightarrow> 'io ga_state \<Rightarrow> (int \<times> 'io ga_state) option" where
  "ga_reg_write bus addr access_size msk value options s =
    (if access_size = 8 then
       map_option (\<lambda>(_, s). (0, s)) (ga_reg_write8 bus addr (ucast msk) (ucast value) options s)
     else if access_size = 16 then
       map_option (\<lambda>(_, s). (0, s)) (ga_reg_write16 bus addr (ucast msk) (ucast value) options s)
     else if access_size = 32 then
       map_option (\<lambda>(_, s). (0, s)) (ga_reg_write32 bus addr (ucast msk) (ucast value) options s)
     else if access_size = 64 then
       map_option (\<lambda>(_, s). (0, s)) (ga_reg_write64 bus addr msk value options s)
     else Some (- EINVAL, s))"

definition ga_reg_fetch :: "(u32 \<Rightarrow> 's \<Rightarrow> 'a::len word \<times> 's) \<Rightarrow> u32 \<Rightarrow> 'a word \<Rightarrow> 's \<Rightarrow> 'a word \<times> 's" where
  "ga_reg_fetch rd addr msk s = (case rd addr s of (v, s) \<Rightarrow> (v AND msk, s))"

definition ga_reg_read8 :: "'io iobus \<Rightarrow> u32 \<Rightarrow> u8 \<Rightarrow> 'io ga_state \<Rightarrow> (u8 \<times> 'io ga_state) option" where
  "ga_reg_read8 bus addr msk = locked (ga_reg_fetch (ga_raw_readb bus) addr msk)"

definition ga_reg_read16 :: "'io iobus \<Rightarrow> u32 \<Rightarrow> u16 \<Rightarrow> 'io ga_state \<Rightarrow> (u16 \<times> 'io ga_state) option" where
  "ga_reg_read16 bus addr msk = locked (ga_reg_fetch (io_readw bus) addr msk)"

definition ga_reg_read32 :: "'io iobus \<Rightarrow> u32 \<Rightarrow> u32 \<Rightarrow> 'io ga_state \<Rightarrow> (u32 \<times> 'io ga_state) option" where
  "ga_reg_read32 bus addr msk = locked (ga_reg_fetch (io_readl bus) addr msk)"

definition ga_reg_read64 :: "'io iobus \<Rightarrow> u32 \<Rightarrow> u64 \<Rightarrow> 'io ga_state \<Rightarrow> (u64 \<times> 'io ga_state) option" where
  "ga_reg_read64 bus addr msk s =
    (case ga_reg_read32 bus addr (ucast (msk AND 0xffffffff)) s of
       None \<Rightarrow> None
     | Some (l, s) \<Rightarrow>
         (case ga_reg_read32 bus (addr + 4) (ucast (drop_bit 32 msk)) s of
            None \<Rightarrow> None
          | Some (m, s) \<Rightarrow>
              let lsv = ucast l :: u64; msv = ucast m :: u64
              in Some (push_bit 32 msv AND lsv, s)))"

text \<open>\<^verbatim>\<open>ga_reg_read\<close> stores the value through its pointer argument only for a valid size.\<close>

definition ga_reg_read :: "'io iobus \<Rightarrow> u32 \<Rightarrow> int \<Rightarrow> u64 \<Rightarrow> 'io ga_state \<Rightarrow> (int \<times> u64 option \<times> 'io ga_state) option" where
  "ga_reg_read bus addr access_size msk s =
    (if access_size = 8 then
       map_option (\<lambda>(v, s). (0, Some (ucast v), s)) (ga_reg_read8 bus addr (ucast msk) s)
     else if access_size = 16 then
       map_option (\<lambda>(v, s). (0, Some (ucast v), s)) (ga_reg_read16 bus addr (ucast msk) s)
     else if access_size = 32 then
       map_option (\<lambda>(v, s). (0, Some (ucast v), s)) (ga_reg_read32 bus addr (ucast msk) s)
     else if access_size = 64 then
       map_option (\<lambda>(v, s). (0, Some v, s)) (ga_reg_read64 bus addr msk s)
     else Some (- EINVAL, None, s))"

section \<open>The macros of dev\_common.h\<close>

definition dev_read :: "'io iobus \<Rightarrow> u32 \<Rightarrow> 'io ga_state \<Rightarrow> (u8 \<times> 'io ga_state) option" where
  "dev_read bus addr = ga_reg_read8 bus addr 0xff"

definition dev_write :: "'io iobus \<Rightarrow> u32 \<Rightarrow> u8 \<Rightarrow> 'io ga_state \<Rightarrow> (int \<times> 'io ga_state) option" where
  "dev_write bus addr val = ga_reg_write8 bus addr 0xff val GA_WRITE"

definition dev_read_modify_write :: "'io iobus \<Rightarrow> u32 \<Rightarrow> u8 \<Rightarrow> u8 \<Rightarrow> 'io ga_state \<Rightarrow> (int \<times> 'io ga_state) option" where
  "dev_read_modify_write bus addr msk upd = ga_reg_write8 bus addr msk upd GA_READ_WRITE_ALWAYS"

definition dev_read_modify_write_cond :: "'io iobus \<Rightarrow> u32 \<Rightarrow> u8 \<Rightarrow> u8 \<Rightarrow> 'io ga_state \<Rightarrow> (int \<times> 'io ga_state) option" where
  "dev_read_modify_write_cond bus addr msk upd = ga_reg_write8 bus addr msk upd GA_READ_WRITE_CONDITIONAL"

section \<open>The interface of a register\<close>

text \<open>
  What a masked access relies on: reading has no side effect and gives what was written last,
  while the states satisfy \<open>ok\<close>.
\<close>

locale reg_port =
  fixes rd :: "u32 \<Rightarrow> 's \<Rightarrow> 'a::len word \<times> 's"
    and wr :: "'a word \<Rightarrow> u32 \<Rightarrow> 's \<Rightarrow> 's"
    and ok :: "'s \<Rightarrow> bool"
  assumes rd_pure: "ok s \<Longrightarrow> snd (rd a s) = s"
    and rd_wr: "ok s \<Longrightarrow> fst (rd a (wr v a s)) = v"
    and ok_wr: "ok s \<Longrightarrow> ok (wr v a s)"
begin

definition merged :: "u32 \<Rightarrow> 'a word \<Rightarrow> 'a word \<Rightarrow> 's \<Rightarrow> 'a word" where
  "merged a msk v s = (fst (rd a s) AND NOT msk) OR (v AND msk)"

text \<open>A masked update replaces the bits under the mask and reports exactly whether it changed any.\<close>

lemma update_masked:
  assumes "ok s" and "options AND GA_WRITE = 0" and "msk \<noteq> all"
    and "options AND (GA_READ_WRITE_CONDITIONAL OR GA_READ_WRITE_ALWAYS) \<noteq> 0"
    and "ga_reg_update rd wr all a msk v options s = (r, s')"
  shows "ok s'" and "fst (rd a s') = merged a msk v s"
    and "r = (if merged a msk v s \<noteq> fst (rd a s) then GA_MODIFIED_SURE else GA_MODIFIED_NONE)"
proof -
  obtain old where old: "rd a s = (old, s)"
    using rd_pure [OF assms(1), of a] by (metis prod.collapse)
  show "ok s'" "fst (rd a s') = merged a msk v s"
    "r = (if merged a msk v s \<noteq> fst (rd a s) then GA_MODIFIED_SURE else GA_MODIFIED_NONE)"
    using assms old
    by (auto simp: ga_reg_update_def merged_def Let_def ok_wr rd_wr split: if_splits)
qed

text \<open>A plain write stores the value under the mask: the other bits become zero.\<close>

lemma update_plain:
  assumes "ok s" and "options AND GA_WRITE \<noteq> 0 \<or> msk = all"
    and "ga_reg_update rd wr all a msk v options s = (r, s')"
  shows "ok s'" and "fst (rd a s') = v AND msk" and "r = GA_MODIFIED_MAYBE"
  using assms by (auto simp: ga_reg_update_def ok_wr rd_wr)

end

section \<open>Plain memory behind the accessors\<close>

text \<open>
  The laws of registers that hold what was written to them; the 32-bit register at the next
  address is another one.
\<close>

locale io_memory =
  fixes bus :: "'io iobus"
  assumes readb_pure: "snd (raw_readb bus a m) = m"
    and readb_writeb: "fst (raw_readb bus a (raw_writeb bus vb a m)) = vb"
    and readw_pure: "snd (raw_readw bus a m) = m"
    and readw_writew: "fst (raw_readw bus a (raw_writew bus vw a m)) = vw"
    and readl_pure: "snd (raw_readl bus a m) = m"
    and readl_writel: "fst (raw_readl bus a (raw_writel bus vl a m)) = vl"

definition unhooked :: "'io ga_state \<Rightarrow> bool" where
  "unhooked s \<longleftrightarrow> Option.is_none (op_read8 (ga_ops (addr_info s))) \<and>
     Option.is_none (op_write8 (ga_ops (addr_info s)))"

sublocale io_memory \<subseteq> reg8: reg_port "ga_raw_readb bus" "ga_raw_writeb bus" unhooked
  by unfold_locales
    (auto simp: ga_raw_readb_def ga_raw_writeb_def unhooked_def Option.is_none_def split_beta readb_writeb
      readb_pure)

sublocale io_memory \<subseteq> reg16: reg_port "io_readw bus" "io_writew bus" unhooked
  by unfold_locales (auto simp: io_readw_def io_writew_def unhooked_def split_beta readw_pure readw_writew)

sublocale io_memory \<subseteq> reg32: reg_port "io_readl bus" "io_writel bus" unhooked
  by unfold_locales (auto simp: io_readl_def io_writel_def unhooked_def split_beta readl_pure readl_writel)

text \<open>Byte-addressed little-endian memory meets the laws.\<close>

definition ram_bus :: "(u32 \<Rightarrow> u8) iobus" where
  "ram_bus = \<lparr>
     raw_readb = (\<lambda>a m. (m a, m)),
     raw_writeb = (\<lambda>v a m. m(a := v)),
     raw_readw = (\<lambda>a m. (ucast (m a) OR push_bit 8 (ucast (m (a + 1))), m)),
     raw_writew = (\<lambda>v a m. m(a := ucast v, a + 1 := ucast (drop_bit 8 v))),
     raw_readl = (\<lambda>a m. (ucast (m a) OR push_bit 8 (ucast (m (a + 1))) OR
       push_bit 16 (ucast (m (a + 2))) OR push_bit 24 (ucast (m (a + 3))), m)),
     raw_writel = (\<lambda>v a m. m(a := ucast v, a + 1 := ucast (drop_bit 8 v),
       a + 2 := ucast (drop_bit 16 v), a + 3 := ucast (drop_bit 24 v))),
     virt_to_phys = Some\<rparr>"

lemma bytes_of_u16: "(ucast (ucast v :: u8) :: u16) OR push_bit 8 (ucast (ucast (drop_bit 8 v) :: u8)) = v"
  by (rule bit_word_eqI) (auto simp: bit_simps)

lemma bytes_of_u32:
  "(ucast (ucast v :: u8) :: u32) OR push_bit 8 (ucast (ucast (drop_bit 8 v) :: u8)) OR
     push_bit 16 (ucast (ucast (drop_bit 16 v) :: u8)) OR push_bit 24 (ucast (ucast (drop_bit 24 v) :: u8)) = v"
proof (rule bit_word_eqI)
  fix n :: nat
  show "bit ((ucast (ucast v :: u8) :: u32) OR push_bit 8 (ucast (ucast (drop_bit 8 v) :: u8)) OR
      push_bit 16 (ucast (ucast (drop_bit 16 v) :: u8)) OR
      push_bit 24 (ucast (ucast (drop_bit 24 v) :: u8))) n = bit v n" if "n < LENGTH(32)"
    using that by (cases "24 \<le> n"; cases "16 \<le> n") (auto simp: bit_simps)
qed

interpretation ram: io_memory ram_bus
  by unfold_locales (simp_all add: ram_bus_def bytes_of_u16 bytes_of_u32)

section \<open>Locking is balanced\<close>

definition lock_free :: "'io ga_state \<Rightarrow> bool" where
  "lock_free s \<longleftrightarrow> \<not> (if ga_lock_mode s = GA_LM_SPINLOCK then ga_spinlock s else ga_mutex s)"

text \<open>The accessors do not touch the locks, the lock mode or the hooks.\<close>

definition same_locks :: "'io ga_state \<Rightarrow> 'io ga_state \<Rightarrow> bool" where
  "same_locks s s' \<longleftrightarrow> ga_lock_mode s' = ga_lock_mode s \<and> ga_spinlock s' = ga_spinlock s \<and>
     ga_mutex s' = ga_mutex s \<and> addr_info s' = addr_info s"

lemma same_locks_refl [simp]: "same_locks s s"
  and same_locks_io [simp]: "same_locks s (s\<lparr>io := x\<rparr>)"
  by (simp_all add: same_locks_def)

lemma same_locks_trans: "same_locks s t \<Longrightarrow> same_locks t u \<Longrightarrow> same_locks s u"
  by (simp add: same_locks_def)

lemma same_locks_raw:
  "ga_raw_readb bus a s = (v, s') \<Longrightarrow> same_locks s s'" "same_locks s (ga_raw_writeb bus b a s)"
  "io_readw bus a s = (w, s') \<Longrightarrow> same_locks s s'" "same_locks s (io_writew bus x a s)"
  "io_readl bus a s = (y, s') \<Longrightarrow> same_locks s s'" "same_locks s (io_writel bus z a s)"
  by (auto simp: ga_raw_readb_def ga_raw_writeb_def io_readw_def io_writew_def io_readl_def
      io_writel_def Let_def split: option.splits prod.splits if_splits)

lemma same_locks_update:
  assumes "\<And>s v s'. rd a s = (v, s') \<Longrightarrow> same_locks s s'" and "\<And>v s. same_locks s (wr v a s)"
    and "ga_reg_update rd wr all a msk v options s = (r, s')"
  shows "same_locks s s'"
  using assms(3) same_locks_trans [OF assms(1) assms(2)] assms(1,2)
  by (auto simp: ga_reg_update_def Let_def split: if_splits prod.splits)

lemma same_locks_fetch:
  assumes "\<And>s v s'. rd a s = (v, s') \<Longrightarrow> same_locks s s'" and "ga_reg_fetch rd a msk s = (r, s')"
  shows "same_locks s s'"
  using assms by (auto simp: ga_reg_fetch_def split: prod.splits)

text \<open>The state with the lock taken, as the body of a locked access sees it.\<close>

definition with_lock :: "'io ga_state \<Rightarrow> 'io ga_state" where
  "with_lock s = (if ga_lock_mode s = GA_LM_SPINLOCK then s\<lparr>ga_spinlock := True\<rparr> else s\<lparr>ga_mutex := True\<rparr>)"

lemma with_lock_fields [simp]:
  "addr_info (with_lock s) = addr_info s" "ga_lock_mode (with_lock s) = ga_lock_mode s" "io (with_lock s) = io s"
  by (simp_all add: with_lock_def)

lemma locked_free:
  assumes "lock_free s" and "\<And>r s'. body (with_lock s) = (r, s') \<Longrightarrow> same_locks (with_lock s) s'"
    and "body (with_lock s) = (r, s')"
  shows "locked body s = Some (r, s\<lparr>io := io s'\<rparr>)"
  using assms(1,3) assms(2) [OF assms(3)]
  by (auto simp: locked_def LOCK_def UNLOCK_def lock_free_def with_lock_def same_locks_def
      split: if_splits)

lemma locked_held: "\<not> lock_free s \<Longrightarrow> locked body s = None"
  by (simp add: locked_def LOCK_def lock_free_def split: if_splits)

text \<open>Every access at once: it blocks exactly when the selected lock is held, and releases it.\<close>

lemma locked_balanced:
  assumes "\<And>t r t'. body t = (r, t') \<Longrightarrow> same_locks t t'"
  shows "(locked body s = None \<longleftrightarrow> \<not> lock_free s) \<and>
    (\<forall>r s'. locked body s = Some (r, s') \<longrightarrow> same_locks s s')"
proof (cases "lock_free s")
  case True
  obtain r s' where b: "body (with_lock s) = (r, s')" by (metis surj_pair)
  show ?thesis
    using locked_free [where body = body, OF True _ b] assms [OF b] assms True by simp
qed (simp add: locked_held)

lemmas update_keeps = same_locks_update [where rd = "ga_raw_readb bus" and wr = "ga_raw_writeb bus", OF same_locks_raw(1,2)]
  same_locks_update [where rd = "io_readw bus" and wr = "io_writew bus", OF same_locks_raw(3,4)]
  same_locks_update [where rd = "io_readl bus" and wr = "io_writel bus", OF same_locks_raw(5,6)] for bus

lemmas fetch_keeps = same_locks_fetch [where rd = "ga_raw_readb bus", OF same_locks_raw(1)]
  same_locks_fetch [where rd = "io_readw bus", OF same_locks_raw(3)]
  same_locks_fetch [where rd = "io_readl bus", OF same_locks_raw(5)] for bus

lemma lock_free_same: "same_locks s s' \<Longrightarrow> lock_free s' = lock_free s"
  by (simp add: same_locks_def lock_free_def)

lemma write32_balanced:
  "(ga_reg_write32 bus a m v opt s = None \<longleftrightarrow> \<not> lock_free s) \<and>
    (\<forall>r s'. ga_reg_write32 bus a m v opt s = Some (r, s') \<longrightarrow> same_locks s s')"
  unfolding ga_reg_write32_def by (rule locked_balanced) (rule update_keeps(3))

lemma read32_balanced:
  "(ga_reg_read32 bus a m s = None \<longleftrightarrow> \<not> lock_free s) \<and>
    (\<forall>r s'. ga_reg_read32 bus a m s = Some (r, s') \<longrightarrow> same_locks s s')"
  unfolding ga_reg_read32_def by (rule locked_balanced) (rule fetch_keeps(3))

lemma write64_balanced:
  "(ga_reg_write64 bus a m v opt s = None \<longleftrightarrow> \<not> lock_free s) \<and>
    (\<forall>r s'. ga_reg_write64 bus a m v opt s = Some (r, s') \<longrightarrow> same_locks s s')"
proof -
  let ?f = "ga_reg_write32 bus a (ucast (m AND 0xffffffff)) (ucast (v AND 0xffffffff)) opt"
  let ?g = "ga_reg_write32 bus (a + 4) (ucast (drop_bit 32 m)) (ucast (drop_bit 32 v)) opt"
  show ?thesis
  proof (cases "?f s")
    case None
    then show ?thesis
      using write32_balanced [of bus a _ _ opt s] by (simp add: ga_reg_write64_def)
  next
    case (Some x)
    obtain rc1 s1 where x: "x = (rc1, s1)" by (cases x)
    have s1: "same_locks s s1" "lock_free s" "lock_free s1"
      using write32_balanced [of bus a _ _ opt s] Some x lock_free_same [of s s1] by auto
    have "\<exists>rc2 s2. ?g s1 = Some (rc2, s2) \<and> same_locks s1 s2"
      using write32_balanced [of bus "a + 4" _ _ opt s1] s1(3) by fastforce
    then show ?thesis
      using Some x s1 same_locks_trans by (auto simp: ga_reg_write64_def Let_def)
  qed
qed

lemma read64_balanced:
  "(ga_reg_read64 bus a m s = None \<longleftrightarrow> \<not> lock_free s) \<and>
    (\<forall>r s'. ga_reg_read64 bus a m s = Some (r, s') \<longrightarrow> same_locks s s')"
proof -
  let ?f = "ga_reg_read32 bus a (ucast (m AND 0xffffffff))"
  let ?g = "ga_reg_read32 bus (a + 4) (ucast (drop_bit 32 m))"
  show ?thesis
  proof (cases "?f s")
    case None
    then show ?thesis
      using read32_balanced [of bus a _ s] by (simp add: ga_reg_read64_def)
  next
    case (Some x)
    obtain rc1 s1 where x: "x = (rc1, s1)" by (cases x)
    have s1: "same_locks s s1" "lock_free s" "lock_free s1"
      using read32_balanced [of bus a _ s] Some x lock_free_same [of s s1] by auto
    have "\<exists>rc2 s2. ?g s1 = Some (rc2, s2) \<and> same_locks s1 s2"
      using read32_balanced [of bus "a + 4" _ s1] s1(3) by fastforce
    then show ?thesis
      using Some x s1 same_locks_trans by (auto simp: ga_reg_read64_def Let_def)
  qed
qed

text \<open>
  Locking is balanced. Whatever the accessors, the hooks, the lock mode, the width and the
  options, a register access blocks exactly when the lock of the current mode is held, and when it
  returns both locks, the mode and the hooks are as before: an access can follow an access.
\<close>

theorem ga_locks_balanced:
  shows "(ga_reg_write bus a n m v opt s = None \<longleftrightarrow> n \<in> {8, 16, 32, 64} \<and> \<not> lock_free s) \<and>
    (ga_reg_read bus a n m s = None \<longleftrightarrow> n \<in> {8, 16, 32, 64} \<and> \<not> lock_free s) \<and>
    (\<forall>r s'. ga_reg_write bus a n m v opt s = Some (r, s') \<longrightarrow>
       r = (if n \<in> {8, 16, 32, 64} then 0 else - EINVAL) \<and> same_locks s s') \<and>
    (\<forall>r x s'. ga_reg_read bus a n m s = Some (r, x, s') \<longrightarrow>
       r = (if n \<in> {8, 16, 32, 64} then 0 else - EINVAL) \<and> same_locks s s')"
proof -
  have w8: "(ga_reg_write8 bus a m v opt s = None \<longleftrightarrow> \<not> lock_free s) \<and>
      (\<forall>r s'. ga_reg_write8 bus a m v opt s = Some (r, s') \<longrightarrow> same_locks s s')" for m v
    unfolding ga_reg_write8_def by (rule locked_balanced) (rule update_keeps(1))
  have w16: "(ga_reg_write16 bus a m v opt s = None \<longleftrightarrow> \<not> lock_free s) \<and>
      (\<forall>r s'. ga_reg_write16 bus a m v opt s = Some (r, s') \<longrightarrow> same_locks s s')" for m v
    unfolding ga_reg_write16_def by (rule locked_balanced) (rule update_keeps(2))
  have r8: "(ga_reg_read8 bus a m s = None \<longleftrightarrow> \<not> lock_free s) \<and>
      (\<forall>r s'. ga_reg_read8 bus a m s = Some (r, s') \<longrightarrow> same_locks s s')" for m
    unfolding ga_reg_read8_def by (rule locked_balanced) (rule fetch_keeps(1))
  have r16: "(ga_reg_read16 bus a m s = None \<longleftrightarrow> \<not> lock_free s) \<and>
      (\<forall>r s'. ga_reg_read16 bus a m s = Some (r, s') \<longrightarrow> same_locks s s')" for m
    unfolding ga_reg_read16_def by (rule locked_balanced) (rule fetch_keeps(2))
  show ?thesis
    using w8 w16 write64_balanced [of bus a _ _ opt s] write32_balanced [of bus a _ _ opt s]
      r8 r16 read64_balanced [of bus a _ s] read32_balanced [of bus a _ s]
    by (auto simp: ga_reg_write_def ga_reg_read_def)
qed

section \<open>Masked writes and reads under the lock\<close>

text \<open>A register port on the driver's state: what it reads depends on the hardware and the hooks only.\<close>

locale locked_port = reg_port rd wr ok
  for rd :: "u32 \<Rightarrow> 'io ga_state \<Rightarrow> 'a::len word \<times> 'io ga_state"
    and wr :: "'a word \<Rightarrow> u32 \<Rightarrow> 'io ga_state \<Rightarrow> 'io ga_state"
    and ok :: "'io ga_state \<Rightarrow> bool" +
  assumes rd_keeps: "rd a s = (v, s') \<Longrightarrow> same_locks s s'"
    and wr_keeps: "same_locks s (wr v a s)"
    and rd_cong: "io s = io t \<Longrightarrow> addr_info s = addr_info t \<Longrightarrow> fst (rd a s) = fst (rd a t)"
    and ok_cong: "addr_info s = addr_info t \<Longrightarrow> ok s = ok t"
begin

lemma locked_fetch:
  assumes "lock_free s" and "ok s"
  shows "locked (ga_reg_fetch rd a m) s = Some (fst (rd a s) AND m, s)"
proof -
  have ok': "ok (with_lock s)" using ok_cong [of "with_lock s" s] assms(2) by simp
  have "ga_reg_fetch rd a m (with_lock s) = (fst (rd a s) AND m, with_lock s)"
    using rd_pure [OF ok', of a] rd_cong [of "with_lock s" s a]
    by (auto simp: ga_reg_fetch_def split: prod.splits)
  moreover have "same_locks t t'" if "ga_reg_fetch rd a m t = (r, t')" for t r t'
    by (rule same_locks_fetch [OF _ that]) (rule rd_keeps)
  ultimately show ?thesis
    using locked_free [where body = "ga_reg_fetch rd a m", OF assms(1)] by auto
qed

lemma locked_update:
  assumes "lock_free s" and "ok s"
  obtains r s1 where "ga_reg_update rd wr all a m v opt (with_lock s) = (r, s1)"
    "locked (ga_reg_update rd wr all a m v opt) s = Some (r, s\<lparr>io := io s1\<rparr>)" "same_locks (with_lock s) s1"
proof -
  obtain r s1 where u: "ga_reg_update rd wr all a m v opt (with_lock s) = (r, s1)"
    by (metis surj_pair)
  have k: "same_locks t t'" if "ga_reg_update rd wr all a m v opt t = (r, t')" for t r t'
    by (rule same_locks_update [OF _ _ that]) (rule rd_keeps wr_keeps; assumption)+
  have "locked (ga_reg_update rd wr all a m v opt) s = Some (r, s\<lparr>io := io s1\<rparr>)"
    by (rule locked_free [OF assms(1)]) (auto intro: k u)
  with that u k show ?thesis by blast
qed

lemma locked_write_read:
  assumes "lock_free s" and "ok s" and "opt AND GA_WRITE = 0" and "m \<noteq> all"
    and "opt AND (GA_READ_WRITE_CONDITIONAL OR GA_READ_WRITE_ALWAYS) \<noteq> 0"
  shows "\<exists>r s'. locked (ga_reg_update rd wr all a m v opt) s = Some (r, s') \<and>
    same_locks s s' \<and> ok s' \<and> fst (rd a s') = merged a m v s \<and>
    r = (if merged a m v s \<noteq> fst (rd a s) then GA_MODIFIED_SURE else GA_MODIFIED_NONE)"
proof -
  have ok': "ok (with_lock s)" using ok_cong [of "with_lock s" s] assms(2) by simp
  have c: "fst (rd a (with_lock s)) = fst (rd a s)" by (rule rd_cong) simp_all
  obtain r s1 where u: "ga_reg_update rd wr all a m v opt (with_lock s) = (r, s1)"
    "locked (ga_reg_update rd wr all a m v opt) s = Some (r, s\<lparr>io := io s1\<rparr>)" "same_locks (with_lock s) s1"
    by (rule locked_update [OF assms(1,2)])
  have "fst (rd a (s\<lparr>io := io s1\<rparr>)) = fst (rd a s1)" "ok (s\<lparr>io := io s1\<rparr>)"
    using u(3) assms(2) by (auto simp: same_locks_def intro: rd_cong ok_cong [THEN iffD2, of _ s])
  with update_masked(2,3) [OF ok' assms(3-5) u(1)] u(2) c show ?thesis
    by (simp add: merged_def)
qed

lemma locked_plain_write:
  assumes "lock_free s" and "ok s" and "opt AND GA_WRITE \<noteq> 0 \<or> m = all"
  shows "\<exists>s'. locked (ga_reg_update rd wr all a m v opt) s = Some (GA_MODIFIED_MAYBE, s') \<and>
    same_locks s s' \<and> ok s' \<and> fst (rd a s') = v AND m"
proof -
  have ok': "ok (with_lock s)" using ok_cong [of "with_lock s" s] assms(2) by simp
  obtain r s1 where u: "ga_reg_update rd wr all a m v opt (with_lock s) = (r, s1)"
    "locked (ga_reg_update rd wr all a m v opt) s = Some (r, s\<lparr>io := io s1\<rparr>)" "same_locks (with_lock s) s1"
    by (rule locked_update [OF assms(1,2)])
  have "fst (rd a (s\<lparr>io := io s1\<rparr>)) = fst (rd a s1)" "ok (s\<lparr>io := io s1\<rparr>)"
    using u(3) assms(2) by (auto simp: same_locks_def intro: rd_cong ok_cong [THEN iffD2, of _ s])
  with update_plain(2,3) [OF ok' assms(3) u(1)] u(2) show ?thesis by simp
qed

end

sublocale io_memory \<subseteq> port8: locked_port "ga_raw_readb bus" "ga_raw_writeb bus" unhooked
  by unfold_locales (auto simp: unhooked_def ga_raw_readb_def ga_ioaddr_to_phys_def Let_def
      intro: same_locks_raw split: option.splits prod.splits if_splits)

sublocale io_memory \<subseteq> port16: locked_port "io_readw bus" "io_writew bus" unhooked
  by unfold_locales (auto simp: unhooked_def io_readw_def intro: same_locks_raw split: prod.splits)

sublocale io_memory \<subseteq> port32: locked_port "io_readl bus" "io_writel bus" unhooked
  by unfold_locales (auto simp: unhooked_def io_readl_def intro: same_locks_raw split: prod.splits)

section \<open>Properties of the accesses\<close>

definition reads_modifies :: "u32 \<Rightarrow> bool" where
  "reads_modifies opt \<longleftrightarrow> opt AND GA_WRITE = 0 \<and>
     opt AND (GA_READ_WRITE_CONDITIONAL OR GA_READ_WRITE_ALWAYS) \<noteq> 0"

definition merge_bits :: "'a::len word \<Rightarrow> 'a word \<Rightarrow> 'a word \<Rightarrow> 'a word" where
  "merge_bits old m v = (old AND NOT m) OR (v AND m)"

definition modified_code :: "'a::len word \<Rightarrow> 'a word \<Rightarrow> int" where
  "modified_code old new = (if new \<noteq> old then GA_MODIFIED_SURE else GA_MODIFIED_NONE)"

lemma full_masks: "(0xff :: u8) = - 1" "(0xffff :: u16) = - 1" "(0xffffffff :: u32) = - 1"
  by code_simp+

context io_memory
begin

lemma raw_values:
  "unhooked s \<Longrightarrow> fst (ga_raw_readb bus a s) = fst (raw_readb bus a (io s))"
  "fst (io_readw bus a s) = fst (raw_readw bus a (io s))"
  "fst (io_readl bus a s) = fst (raw_readl bus a (io s))"
  by (auto simp: ga_raw_readb_def unhooked_def Option.is_none_def io_readw_def io_readl_def split_beta)

lemma masked8:
  assumes "lock_free s" and "unhooked s" and "reads_modifies opt" and "m \<noteq> - 1"
    and "new = merge_bits (fst (raw_readb bus a (io s))) m v"
  shows "\<exists>s'. ga_reg_write8 bus a m v opt s = Some (modified_code (fst (raw_readb bus a (io s))) new, s') \<and>
     ga_reg_read8 bus a (- 1) s' = Some (new, s')"
proof -
  have "m \<noteq> 0xff" using assms(4) by (simp only: full_masks not_False_eq_True)
  then obtain r s' where w: "ga_reg_write8 bus a m v opt s = Some (r, s')" "same_locks s s'" "unhooked s'"
    "fst (ga_raw_readb bus a s') = new" "r = modified_code (fst (raw_readb bus a (io s))) new"
    using port8.locked_write_read [OF assms(1,2), of opt m "0xff" a v] assms(2,3,5)
    by (auto simp: ga_reg_write8_def reads_modifies_def merge_bits_def modified_code_def
        reg8.merged_def raw_values)
  then have "ga_reg_read8 bus a (- 1) s' = Some (new, s')"
    using port8.locked_fetch [of s' a "- 1"] lock_free_same [OF w(2)] assms(1)
    by (simp add: ga_reg_read8_def)
  with w show ?thesis by blast
qed

lemma plain8:
  assumes "lock_free s" and "unhooked s" and "opt AND GA_WRITE \<noteq> 0"
  shows "\<exists>s'. ga_reg_write8 bus a m v opt s = Some (GA_MODIFIED_MAYBE, s') \<and>
    ga_reg_read8 bus a (- 1) s' = Some (v AND m, s')"
proof -
  obtain s' where w: "ga_reg_write8 bus a m v opt s = Some (GA_MODIFIED_MAYBE, s')" "same_locks s s'"
    "unhooked s'" "fst (ga_raw_readb bus a s') = v AND m"
    using port8.locked_plain_write [OF assms(1,2), of opt m "0xff" a v] assms(3)
    by (auto simp: ga_reg_write8_def)
  then show ?thesis
    using port8.locked_fetch [of s' a "- 1"] lock_free_same [OF w(2)] assms(1)
    by (simp add: ga_reg_read8_def)
qed

lemma masked16:
  assumes "lock_free s" and "unhooked s" and "reads_modifies opt" and "m \<noteq> - 1"
    and "new = merge_bits (fst (raw_readw bus a (io s))) m v"
  shows "\<exists>s'. ga_reg_write16 bus a m v opt s = Some (modified_code (fst (raw_readw bus a (io s))) new, s') \<and>
     ga_reg_read16 bus a (- 1) s' = Some (new, s')"
proof -
  have "m \<noteq> 0xffff" using assms(4) by (simp only: full_masks not_False_eq_True)
  then obtain r s' where w: "ga_reg_write16 bus a m v opt s = Some (r, s')" "same_locks s s'" "unhooked s'"
    "fst (io_readw bus a s') = new" "r = modified_code (fst (raw_readw bus a (io s))) new"
    using port16.locked_write_read [OF assms(1,2), of opt m "0xffff" a v] assms(2,3,5)
    by (auto simp: ga_reg_write16_def reads_modifies_def merge_bits_def modified_code_def
        reg16.merged_def raw_values)
  then have "ga_reg_read16 bus a (- 1) s' = Some (new, s')"
    using port16.locked_fetch [of s' a "- 1"] lock_free_same [OF w(2)] assms(1)
    by (simp add: ga_reg_read16_def)
  with w show ?thesis by blast
qed

lemma masked32:
  assumes "lock_free s" and "unhooked s" and "reads_modifies opt" and "m \<noteq> - 1"
    and "new = merge_bits (fst (raw_readl bus a (io s))) m v"
  shows "\<exists>s'. ga_reg_write32 bus a m v opt s = Some (modified_code (fst (raw_readl bus a (io s))) new, s') \<and>
     ga_reg_read32 bus a (- 1) s' = Some (new, s')"
proof -
  have "m \<noteq> 0xffffffff" using assms(4) by (simp only: full_masks not_False_eq_True)
  then obtain r s' where w: "ga_reg_write32 bus a m v opt s = Some (r, s')" "same_locks s s'" "unhooked s'"
    "fst (io_readl bus a s') = new" "r = modified_code (fst (raw_readl bus a (io s))) new"
    using port32.locked_write_read [OF assms(1,2), of opt m "0xffffffff" a v] assms(2,3,5)
    by (auto simp: ga_reg_write32_def reads_modifies_def merge_bits_def modified_code_def
        reg32.merged_def raw_values)
  then have "ga_reg_read32 bus a (- 1) s' = Some (new, s')"
    using port32.locked_fetch [of s' a "- 1"] lock_free_same [OF w(2)] assms(1)
    by (simp add: ga_reg_read32_def)
  with w show ?thesis by blast
qed

end

text \<open>
  C20. Masked update. On registers that behave as memory, a read-modify-write access with a partial
  mask replaces exactly the bits under the mask, for 8, 16 and 32 bits: a full read afterwards gives
  the merged value, and the result code says exactly whether the register changed.
\<close>

theorem ga_masked_update:
  assumes "io_memory bus" and "lock_free s" and "unhooked s" and "reads_modifies opt"
    and "m8 \<noteq> - 1" and "m16 \<noteq> - 1" and "m32 \<noteq> - 1"
    and "new8 = merge_bits (fst (raw_readb bus a (io s))) m8 v8"
    and "new16 = merge_bits (fst (raw_readw bus a (io s))) m16 v16"
    and "new32 = merge_bits (fst (raw_readl bus a (io s))) m32 v32"
  shows "(\<exists>s'. ga_reg_write8 bus a m8 v8 opt s =
        Some (modified_code (fst (raw_readb bus a (io s))) new8, s') \<and>
      ga_reg_read8 bus a (- 1) s' = Some (new8, s')) \<and>
    (\<exists>s'. ga_reg_write16 bus a m16 v16 opt s =
        Some (modified_code (fst (raw_readw bus a (io s))) new16, s') \<and>
      ga_reg_read16 bus a (- 1) s' = Some (new16, s')) \<and>
    (\<exists>s'. ga_reg_write32 bus a m32 v32 opt s =
        Some (modified_code (fst (raw_readl bus a (io s))) new32, s') \<and>
      ga_reg_read32 bus a (- 1) s' = Some (new32, s'))"
  using io_memory.masked8 [OF assms(1-5,8)] io_memory.masked16 [OF assms(1-4,6,9)]
    io_memory.masked32 [OF assms(1-4,7,10)] by blast

definition ga_state0 :: "(u32 \<Rightarrow> u8) ga_state" where
  "ga_state0 = \<lparr>addr_info = no_info, ga_lock_mode = GA_LM_SPINLOCK, ga_spinlock = False,
     ga_mutex = False, io = (\<lambda>_. 0x5a)\<rparr>"

lemma ga_state0_ok: "lock_free ga_state0" "unhooked ga_state0"
  by (simp_all add: ga_state0_def lock_free_def unhooked_def no_info_def no_ops_def)

theorem ga_locks_balanced_witness:
  "\<exists>s'. ga_reg_write ram_bus 0x10 64 (- 1) 0x1122334455667788 GA_WRITE ga_state0 = Some (0, s') \<and>
     same_locks ga_state0 s'"
proof -
  let ?w = "ga_reg_write ram_bus 0x10 64 (- 1) 0x1122334455667788 GA_WRITE ga_state0"
  note b = ga_locks_balanced [of ram_bus "0x10" 64 "- 1" "0x1122334455667788" GA_WRITE ga_state0]
  have "?w \<noteq> None" using b ga_state0_ok(1) by blast
  then obtain r s' where w: "?w = Some (r, s')" by auto
  then have "r = (if 64 \<in> {8, 16, 32, 64 :: int} then 0 else - EINVAL) \<and> same_locks ga_state0 s'"
    using b by blast
  with w show ?thesis by simp
qed

theorem ga_masked_update_witness:
  "\<exists>s'. ga_reg_write8 ram_bus 0x10 0x0f 0x33 GA_READ_WRITE_ALWAYS ga_state0 = Some (GA_MODIFIED_SURE, s') \<and>
     ga_reg_read8 ram_bus 0x10 (- 1) s' = Some (0x53, s')"
proof -
  have "reads_modifies GA_READ_WRITE_ALWAYS" by (simp add: reads_modifies_def)
  moreover have "merge_bits (fst (raw_readb ram_bus 0x10 (io ga_state0))) 0x0f 0x33 = 0x53"
    "modified_code (fst (raw_readb ram_bus 0x10 (io ga_state0))) 0x53 = GA_MODIFIED_SURE" by code_simp+
  ultimately show ?thesis
    using ga_masked_update [OF ram.io_memory_axioms ga_state0_ok, where opt = GA_READ_WRITE_ALWAYS
        and ?m8.0 = "0x0f" and ?m16.0 = 0 and ?m32.0 = 0 and ?v8.0 = "0x33" and a = "0x10"
        and ?new8.0 = "0x53"] by simp
qed

text \<open>
  \<^verbatim>\<open>GA_WRITE\<close> with a partial mask does not write the given value. The header says the register
  is only written with the value; the code writes the value under the mask, so every bit outside
  the mask becomes zero, whatever the value and the old contents.
\<close>

theorem ga_write_clears_outside_mask:
  assumes "io_memory bus" and "lock_free s" and "unhooked s" and "opt AND GA_WRITE \<noteq> 0"
  shows "\<exists>s'. ga_reg_write8 bus a m v opt s = Some (GA_MODIFIED_MAYBE, s') \<and>
    ga_reg_read8 bus a (- 1) s' = Some (v AND m, s')"
  by (rule io_memory.plain8 [OF assms])

theorem ga_write_clears_outside_mask_witness:
  "\<exists>s'. ga_reg_write8 ram_bus 0x10 0x0f 0x33 GA_WRITE ga_state0 = Some (GA_MODIFIED_MAYBE, s') \<and>
     ga_reg_read8 ram_bus 0x10 (- 1) s' = Some (0x03, s')"
  using ga_write_clears_outside_mask [OF ram.io_memory_axioms ga_state0_ok, where opt = GA_WRITE and a = "0x10" and m = "0x0f" and v = "0x33"]
  by simp

text \<open>
  The 64-bit read of a 32-bit target always returns zero: the two halves are combined with a
  bitwise and instead of an or. So a 64-bit value that was written in full is read back as zero.
\<close>

theorem ga_read64_zero:
  assumes "ga_reg_read64 bus a m s = Some (v, s')"
  shows "v = 0"
proof -
  have "push_bit 32 (ucast y :: u64) AND ucast x = 0" for x y :: u32
    by (rule bit_word_eqI) (auto simp: bit_simps dest: bit_imp_le_length)
  then show ?thesis
    using assms by (auto simp: ga_reg_read64_def Let_def split: option.splits)
qed

theorem ga_read64_zero_witness:
  "\<exists>s1 v s2. ga_reg_write64 ram_bus 0x10 (- 1) 0x1122334455667788 GA_WRITE ga_state0 = Some (GA_MODIFIED_MAYBE, s1) \<and>
     ga_reg_read32 ram_bus 0x10 (- 1) s1 = Some (0x55667788, s1) \<and>
     ga_reg_read64 ram_bus 0x10 (- 1) s1 = Some (v, s2) \<and> v = 0"
proof -
  let ?w = "ga_reg_write64 ram_bus 0x10 (- 1) 0x1122334455667788 GA_WRITE ga_state0"
  have "case ?w of None \<Rightarrow> False | Some (r, s1) \<Rightarrow> r = GA_MODIFIED_MAYBE \<and> lock_free s1 \<and> unhooked s1 \<and>
      fst (raw_readl ram_bus 0x10 (io s1)) = 0x55667788"
    by code_simp
  then obtain s1 where s1: "?w = Some (GA_MODIFIED_MAYBE, s1)" "lock_free s1" "unhooked s1"
    "fst (raw_readl ram_bus 0x10 (io s1)) = 0x55667788" by (auto split: option.splits)
  obtain v s2 where r: "ga_reg_read64 ram_bus 0x10 (- 1) s1 = Some (v, s2)"
    using read64_balanced [of ram_bus "0x10" "- 1" s1] s1(2) by fastforce
  have "ga_reg_read32 ram_bus 0x10 (- 1) s1 = Some (0x55667788, s1)"
    using ram.port32.locked_fetch [OF s1(2,3), of "0x10" "- 1"] s1(4)
    by (simp add: ga_reg_read32_def ram.raw_values)
  with s1 r ga_read64_zero [OF r] show ?thesis by blast
qed

definition raw_byte :: "'io iobus \<Rightarrow> u32 \<Rightarrow> 'io ga_state \<Rightarrow> u8 \<times> 'io ga_state" where
  "raw_byte bus ia s = (case raw_readb bus ia (io s) of (v, io') \<Rightarrow> (v, s\<lparr>io := io'\<rparr>))"

definition hooked_byte :: "(u32 \<Rightarrow> nat \<Rightarrow> 'io \<Rightarrow> u8 \<times> 'io) \<Rightarrow> u32 \<Rightarrow> nat \<Rightarrow> 'io ga_state \<Rightarrow> u8 \<times> 'io ga_state" where
  "hooked_byte rd8 p opq s = (case rd8 p opq (io s) of (v, io') \<Rightarrow> (v, s\<lparr>io := io'\<rparr>))"

lemma set_ops_info:
  assumes "ga_set_phys_addr_ops addr sz (Some ops) opq s = (0, s1)"
  shows "addr_info s1 = \<lparr>ga_addr = addr, ga_size = sz, ga_opaque = opq, ga_ops = ops\<rparr>"
  using assms by (auto simp: ga_set_phys_addr_ops_def Let_def split: option.splits prod.splits if_splits)

lemma read_hooked:
  assumes "addr_info s = \<lparr>ga_addr = addr, ga_size = sz, ga_opaque = opq, ga_ops = ops\<rparr>"
    and "op_read8 ops = Some rd8" and "virt_to_phys bus ia = Some p"
  shows "ga_raw_readb bus ia s =
    (if addr \<le> p \<and> p < addr + sz then hooked_byte rd8 p opq s else raw_byte bus ia s)"
  using assms by (auto simp: ga_raw_readb_def ga_ioaddr_to_phys_def hooked_byte_def raw_byte_def Let_def)

text \<open>
  The 8-bit hook. After a successful \<^verbatim>\<open>ga_set_phys_addr_ops\<close>, a byte access is served by the hook
  exactly when its physical address lies in the registered range, provided the range ends below
  the top of the 32-bit address space; a range that ends at the top is never hooked, because its
  end is computed modulo two to the 32. An initialisation that fails, or a null table, removes
  the hook.
\<close>

theorem ga_hook_range:
  assumes "op_read8 ops = Some rd8" and "virt_to_phys bus ia = Some p"
    and "ga_set_phys_addr_ops addr sz (Some ops) opq s = (r, s1)"
  shows "(r = 0 \<and> unat addr + unat sz < 2 ^ 32 \<longrightarrow> ga_raw_readb bus ia s1 =
      (if unat addr \<le> unat p \<and> unat p < unat addr + unat sz
       then hooked_byte rd8 p opq s1 else raw_byte bus ia s1)) \<and>
    (r = 0 \<and> unat addr + unat sz = 2 ^ 32 \<longrightarrow> ga_raw_readb bus ia s1 = raw_byte bus ia s1) \<and>
    (r \<noteq> 0 \<longrightarrow> unhooked s1) \<and>
    unhooked (snd (ga_set_phys_addr_ops addr sz None opq s))"
proof (intro conjI impI)
  assume a: "r = 0 \<and> unat addr + unat sz < 2 ^ 32"
  then have "unat (addr + sz) = unat addr + unat sz" by (intro unat_plus32) simp
  with read_hooked [OF set_ops_info assms(1,2), of addr sz opq s s1] assms(3) a
  show "ga_raw_readb bus ia s1 = (if unat addr \<le> unat p \<and> unat p < unat addr + unat sz
       then hooked_byte rd8 p opq s1 else raw_byte bus ia s1)"
    by (simp add: word_le_nat_alt word_less_nat_alt)
next
  assume a: "r = 0 \<and> unat addr + unat sz = 2 ^ 32"
  then have "addr + sz = 0" by (simp add: word_unat_eq_iff unat_word_ariths)
  with read_hooked [OF set_ops_info assms(1,2), of addr sz opq s s1] assms(3) a
  show "ga_raw_readb bus ia s1 = raw_byte bus ia s1" by simp
next
  assume "r \<noteq> 0"
  with assms(3) show "unhooked s1"
    by (auto simp: ga_set_phys_addr_ops_def Let_def unhooked_def no_info_def no_ops_def
        split: option.splits prod.splits if_splits)
qed (simp add: ga_set_phys_addr_ops_def unhooked_def no_info_def no_ops_def)

theorem ga_hook_range_witness:
  "\<exists>s1. ga_set_phys_addr_ops 0xfffff000 0x1000 (Some (no_ops\<lparr>op_read8 := Some (\<lambda>p o' m. (0x77, m))\<rparr>)) 0 ga_state0 = (0, s1) \<and>
     fst (ga_raw_readb ram_bus 0xfffff010 s1) = 0x5a"
proof -
  let ?ops = "no_ops\<lparr>op_read8 := Some (\<lambda>p o' m. (0x77, m))\<rparr> :: (u32 \<Rightarrow> u8) ga_ioaddr_ops"
  obtain r s1 where s: "ga_set_phys_addr_ops 0xfffff000 0x1000 (Some ?ops) 0 ga_state0 = (r, s1)"
    by (metis surj_pair)
  then have r: "r = 0" "io s1 = io ga_state0"
    by (auto simp: ga_set_phys_addr_ops_def no_ops_def)
  have "ga_raw_readb ram_bus 0xfffff010 s1 = raw_byte ram_bus 0xfffff010 s1"
    using ga_hook_range [OF _ _ s, of _ ram_bus "0xfffff010" "0xfffff010"] r
    by (simp add: ram_bus_def)
  then show ?thesis
    using s r by (simp add: raw_byte_def ram_bus_def ga_state0_def)
qed

section \<open>What the client drivers use\<close>

text \<open>A forced read-modify-write and a read, on a register that behaves as memory.\<close>

context io_memory
begin

lemma rmw_read:
  assumes "lock_free g" and "unhooked g"
  shows "\<exists>r g'. dev_read_modify_write bus a m v g = Some (r, g') \<and> lock_free g' \<and> unhooked g' \<and>
    dev_read bus a g' = Some (merge_bits (fst (raw_readb bus a (io g))) m v, g')"
proof (cases "m = - 1")
  case True
  obtain g' where w: "dev_read_modify_write bus a m v g = Some (GA_MODIFIED_MAYBE, g')" "same_locks g g'"
    "unhooked g'" "fst (ga_raw_readb bus a g') = v AND m"
    using port8.locked_plain_write [OF assms, of GA_READ_WRITE_ALWAYS m "0xff" a v] True
    by (auto simp: dev_read_modify_write_def ga_reg_write8_def full_masks)
  moreover have "dev_read bus a g' = Some (v AND m, g')"
    using port8.locked_fetch [of g' a "0xff"] lock_free_same [OF w(2)] w assms(1)
    by (simp add: dev_read_def ga_reg_read8_def full_masks)
  ultimately show ?thesis
    using lock_free_same [OF w(2)] assms(1) True by (auto simp: merge_bits_def)
next
  case False
  then have m: "m \<noteq> 0xff" by (simp only: full_masks not_False_eq_True)
  obtain r g' where w: "dev_read_modify_write bus a m v g = Some (r, g')" "same_locks g g'" "unhooked g'"
    "fst (ga_raw_readb bus a g') = merge_bits (fst (raw_readb bus a (io g))) m v"
    using port8.locked_write_read [OF assms, of GA_READ_WRITE_ALWAYS m "0xff" a v] m assms(2)
    by (auto simp: dev_read_modify_write_def ga_reg_write8_def reg8.merged_def raw_values merge_bits_def)
  moreover have "dev_read bus a g' = Some (merge_bits (fst (raw_readb bus a (io g))) m v, g')"
    using port8.locked_fetch [of g' a "0xff"] lock_free_same [OF w(2)] w assms(1)
    by (simp add: dev_read_def ga_reg_read8_def full_masks)
  ultimately show ?thesis
    using lock_free_same [OF w(2)] assms(1) by auto
qed

end

end
