(* ===== verification/Watchdog.thy ===== *)
theory Watchdog
  imports Generic_Access
begin

text \<open>
  The watchdog driver, \<^verbatim>\<open>src/watchdog/watchdog.c\<close>: the private structure, the register accesses
  through \<^verbatim>\<open>Generic_Access\<close>, the timer that kicks the watchdog, the misc device's handlers, and
  \<^verbatim>\<open>probe\<close> and \<^verbatim>\<open>remove\<close> with the kernel's answers as a parameter. A last section models the race
  between the timer handler and the stop command as interleaved steps.
\<close>

section \<open>State\<close>

abbreviation WD_PROP_KICK_OFFSET :: nat where "WD_PROP_KICK_OFFSET \<equiv> 0"
abbreviation WD_PROP_KICK_VALUE :: nat where "WD_PROP_KICK_VALUE \<equiv> 1"
abbreviation WD_PROP_ENABLE_OFFSET :: nat where "WD_PROP_ENABLE_OFFSET \<equiv> 2"
abbreviation WD_PROP_ENABLE_VALUE :: nat where "WD_PROP_ENABLE_VALUE \<equiv> 3"
abbreviation WD_PROP_COUNT :: nat where "WD_PROP_COUNT \<equiv> 4"
abbreviation WD_PROP_NONE :: u32 where "WD_PROP_NONE \<equiv> 0xffffffff"

datatype wd_status = WD_STATE_UNKNOWN | WD_STATE_DISABLED | WD_STATE_ENABLED

text \<open>
  \<^verbatim>\<open>struct dev_watchdog\<close>, with the 32-bit \<^verbatim>\<open>props\<close> as words (\<^verbatim>\<open>WD_PROP_NONE\<close> is -1) and a null
  \<^verbatim>\<open>reg_base\<close> as 0. The one-bit facts are booleans. Of the kernel's own state: whether the timer
  and the work item are queued, the live workqueues, the number of mappings, whether the misc
  device is registered, and whether a workqueue was destroyed that is not live.
\<close>

record 'io dev_watchdog =
  workqueue :: "nat option"
  reg_base :: u32
  use_workqueue :: bool
  props :: "u32 list"
  misc_registered :: bool
  timer_running :: bool
  wd_state :: wd_status
  timer_pending :: bool
  work_pending :: bool
  live_wqs :: "nat list"
  io_maps :: nat
  misc_live :: bool
  wq_fault :: bool
  ga :: "'io ga_state"

definition watchdog_props :: "(bool \<times> string) list" where
  "watchdog_props = [(True, ''reg-kick-offset''), (True, ''reg-kick-value''),
     (False, ''reg-enable-offset''), (False, ''reg-enable-value'')]"

section \<open>Register accesses\<close>

text \<open>A register access that blocks on the access lock gives \<open>None\<close>.\<close>

definition dev_watchdog_kick :: "'io iobus \<Rightarrow> 'io dev_watchdog \<Rightarrow> 'io dev_watchdog option" where
  "dev_watchdog_kick bus s =
     map_option (\<lambda>(_, g). s\<lparr>ga := g\<rparr>)
       (dev_write bus (reg_base s + props s ! WD_PROP_KICK_OFFSET)
          (ucast (props s ! WD_PROP_KICK_VALUE)) (ga s))"

definition wd_has_enable :: "'io dev_watchdog \<Rightarrow> bool" where
  "wd_has_enable s \<longleftrightarrow> props s ! WD_PROP_ENABLE_OFFSET \<noteq> WD_PROP_NONE \<and>
     props s ! WD_PROP_ENABLE_VALUE \<noteq> WD_PROP_NONE"

definition wd_read_state :: "'io iobus \<Rightarrow> 'io dev_watchdog \<Rightarrow> 'io dev_watchdog option" where
  "wd_read_state bus s =
     map_option
       (\<lambda>(reg, g). s\<lparr>ga := g, wd_state :=
          (if ucast reg AND props s ! WD_PROP_ENABLE_VALUE \<noteq> 0 then WD_STATE_ENABLED
           else WD_STATE_DISABLED)\<rparr>)
       (dev_read bus (reg_base s + props s ! WD_PROP_ENABLE_OFFSET) (ga s))"

definition dev_watchdog_enable :: "'io iobus \<Rightarrow> bool \<Rightarrow> 'io dev_watchdog \<Rightarrow> 'io dev_watchdog option" where
  "dev_watchdog_enable bus enable s =
    (if wd_has_enable s then
       (case dev_read_modify_write bus (reg_base s + props s ! WD_PROP_ENABLE_OFFSET)
               (ucast (props s ! WD_PROP_ENABLE_VALUE))
               (if enable then ucast (props s ! WD_PROP_ENABLE_VALUE) else 0) (ga s) of
          None \<Rightarrow> None
        | Some (_, g) \<Rightarrow> wd_read_state bus (s\<lparr>ga := g\<rparr>))
     else Some s)"

definition dev_watchdog_read_enable :: "'io iobus \<Rightarrow> 'io dev_watchdog \<Rightarrow> 'io dev_watchdog option" where
  "dev_watchdog_read_enable bus s =
    (let s = s\<lparr>wd_state := WD_STATE_UNKNOWN\<rparr>
     in if wd_has_enable s then wd_read_state bus s else Some s)"

section \<open>The timer\<close>

definition dev_watchdog_start :: "'io dev_watchdog \<Rightarrow> 'io dev_watchdog" where
  "dev_watchdog_start s = s\<lparr>timer_running := True, timer_pending := True\<rparr>"

definition dev_watchdog_stop :: "'io dev_watchdog \<Rightarrow> 'io dev_watchdog" where
  "dev_watchdog_stop s = s\<lparr>timer_running := False, timer_pending := False\<rparr>"

definition dev_watchdog_work :: "'io iobus \<Rightarrow> 'io dev_watchdog \<Rightarrow> 'io dev_watchdog option" where
  "dev_watchdog_work bus s = dev_watchdog_kick bus s"

text \<open>The timer handler; the kernel has taken the timer off its queue before it calls it.\<close>

definition dev_watchdog_timeout :: "'io iobus \<Rightarrow> 'io dev_watchdog \<Rightarrow> 'io dev_watchdog option" where
  "dev_watchdog_timeout bus s =
    (if \<not> timer_running s then Some s
     else map_option dev_watchdog_start
            (if use_workqueue s then Some (s\<lparr>work_pending := True\<rparr>) else dev_watchdog_kick bus s))"

section \<open>The misc device's handlers\<close>

text \<open>An open file: whether \<^verbatim>\<open>private_data\<close> is set. \<^verbatim>\<open>read\<close> clears it, so that the next read ends.\<close>

definition dev_watchdog_open :: "bool \<Rightarrow> int \<times> bool" where
  "dev_watchdog_open private_data = (0, True)"

definition dev_watchdog_release :: "bool \<Rightarrow> int \<times> bool" where
  "dev_watchdog_release private_data = (0, False)"

datatype wd_cmd = Quit | Kick | Start | Enable | Disable

text \<open>The cases of the \<^verbatim>\<open>switch\<close>: a byte value, a digit, a small or a capital letter.\<close>

definition wd_command :: "u8 \<Rightarrow> wd_cmd option" where
  "wd_command c =
    (if c \<in> {0, 0x30, 0x71, 0x51} then Some Quit
     else if c \<in> {1, 0x31, 0x6b, 0x4b} then Some Kick
     else if c \<in> {2, 0x32, 0x73, 0x53} then Some Start
     else if c \<in> {3, 0x33, 0x65, 0x45} then Some Enable
     else if c \<in> {4, 0x34, 0x64, 0x44} then Some Disable
     else None)"

definition dev_watchdog_write ::
    "'io iobus \<Rightarrow> u8 option \<Rightarrow> u32 \<Rightarrow> 'io dev_watchdog \<Rightarrow> (int \<times> 'io dev_watchdog) option" where
  "dev_watchdog_write bus data len s =
    (case data of
       None \<Rightarrow> Some (- EFAULT, s)
     | Some c \<Rightarrow>
         (case wd_command c of
            None \<Rightarrow> Some (- EINVAL, s)
          | Some cmd \<Rightarrow>
              map_option (\<lambda>s. (int (unat len), s))
                (case cmd of
                   Quit \<Rightarrow> Some (dev_watchdog_stop s)
                 | Kick \<Rightarrow> dev_watchdog_kick bus s
                 | Start \<Rightarrow> Some (dev_watchdog_start s)
                 | Enable \<Rightarrow> dev_watchdog_enable bus True s
                 | Disable \<Rightarrow> dev_watchdog_enable bus False s)))"

fun wd_state_char :: "wd_status \<Rightarrow> u8" where
  "wd_state_char WD_STATE_UNKNOWN = 0x75"
| "wd_state_char WD_STATE_DISABLED = 0x64"
| "wd_state_char WD_STATE_ENABLED = 0x65"

text \<open>The status line \<^verbatim>\<open>t=%d s=%c\<close> and a newline.\<close>

definition wd_status_line :: "'io dev_watchdog \<Rightarrow> u8 list" where
  "wd_status_line s = [0x74, 0x3d, if timer_running s then 0x31 else 0x30, 0x20, 0x73, 0x3d,
     wd_state_char (wd_state s), 0x0a]"

text \<open>
  \<^verbatim>\<open>read\<close> overwrites its argument \<open>len\<close>; the result is the return value, the bytes stored in the
  user buffer (of which \<open>ulen\<close> bytes can be written) and the new \<^verbatim>\<open>private_data\<close>.
\<close>

definition dev_watchdog_read :: "'io dev_watchdog \<Rightarrow> bool \<Rightarrow> nat \<Rightarrow> u32 \<Rightarrow> int \<times> u8 list \<times> bool" where
  "dev_watchdog_read s private_data ulen len =
    (if \<not> private_data then (0, [], private_data)
     else let str = wd_status_line s; len = length str; (left, user) = copy_to_user ulen str
          in if left \<noteq> 0 then (- EFAULT, user, False) else (int len, user, False))"

section \<open>Probe and remove\<close>

text \<open>The kernel's answers: the mapped address, the device-tree properties with their lengths, the
  result of \<^verbatim>\<open>misc_register\<close>, whether \<^verbatim>\<open>use-workqueue\<close> is present, and the created workqueue.\<close>

record wd_kernel =
  of_iomap :: u32
  of_prop :: "string \<Rightarrow> (u32 \<times> nat) option"
  wd_misc_ret :: int
  of_use_wq :: bool
  new_wq :: "nat option"

text \<open>Destroying a workqueue first runs the work that is pending on it.\<close>

definition destroy_workqueue :: "'io iobus \<Rightarrow> nat \<Rightarrow> 'io dev_watchdog \<Rightarrow> 'io dev_watchdog option" where
  "destroy_workqueue bus w s =
     (if w \<in> set (live_wqs s) then
        map_option (\<lambda>s. s\<lparr>live_wqs := remove1 w (live_wqs s), work_pending := False\<rparr>)
          (if work_pending s then dev_watchdog_work bus s else Some s)
      else Some (s\<lparr>wq_fault := True\<rparr>))"

definition dev_watchdog_remove :: "'io iobus \<Rightarrow> 'io dev_watchdog \<Rightarrow> (int \<times> 'io dev_watchdog) option" where
  "dev_watchdog_remove bus s =
    (let s = dev_watchdog_stop s
     in map_option
          (\<lambda>s. let s = (if misc_registered s then s\<lparr>misc_live := False, misc_registered := False\<rparr> else s);
                   s = (if reg_base s \<noteq> 0 then s\<lparr>io_maps := io_maps s - 1, reg_base := 0\<rparr> else s)
               in (0, s))
          (case workqueue s of None \<Rightarrow> Some s | Some w \<Rightarrow> destroy_workqueue bus w s))"

text \<open>
  The loop over the properties from index \<open>i\<close> on: the error (0 for none) and the array
  \<^verbatim>\<open>priv.props\<close>, in which the entries before an error are already stored.
\<close>

fun wd_get_props :: "wd_kernel \<Rightarrow> nat \<Rightarrow> (bool \<times> string) list \<Rightarrow> u32 list \<Rightarrow> int \<times> u32 list" where
  "wd_get_props k i [] ps = (0, ps)"
| "wd_get_props k i ((mandatory, name) # rest) ps =
    (case of_prop k name of
       Some (v, len) \<Rightarrow>
         if len \<noteq> 4 then (- EINVAL, ps) else wd_get_props k (Suc i) rest (ps[i := v])
     | None \<Rightarrow>
         if mandatory then (- EINVAL, ps)
         else wd_get_props k (Suc i) rest (ps[i := WD_PROP_NONE]))"

definition wd_fail :: "'io iobus \<Rightarrow> int \<Rightarrow> 'io dev_watchdog \<Rightarrow> (int \<times> 'io dev_watchdog) option" where
  "wd_fail bus r s = map_option (\<lambda>(_, s). (r, s)) (dev_watchdog_remove bus s)"

definition dev_watchdog_probe ::
    "'io iobus \<Rightarrow> wd_kernel \<Rightarrow> 'io dev_watchdog \<Rightarrow> (int \<times> 'io dev_watchdog) option" where
  "dev_watchdog_probe bus k s =
    (if reg_base s \<noteq> 0 then Some (- EIO, s)
     else
       let s = s\<lparr>reg_base := of_iomap k, io_maps := io_maps s + (if of_iomap k \<noteq> 0 then 1 else 0)\<rparr>
       in if reg_base s = 0 then wd_fail bus (- EIO) s
          else
            (case wd_get_props k 0 watchdog_props (props s) of
               (e, ps) \<Rightarrow>
                 let s = s\<lparr>props := ps\<rparr>; r = wd_misc_ret k
                 in if e \<noteq> 0 then wd_fail bus e s
                    else if r < 0 then wd_fail bus r s
                    else
                      let s = s\<lparr>misc_live := True, misc_registered := True,
                                use_workqueue := (use_workqueue s \<or> of_use_wq k)\<rparr>
                      in (case new_wq k of
                            None \<Rightarrow> wd_fail bus r (s\<lparr>workqueue := None\<rparr>)
                          | Some w \<Rightarrow>
                              map_option (\<lambda>s. (0, s))
                                (dev_watchdog_read_enable bus
                                   (s\<lparr>workqueue := Some w, live_wqs := w # live_wqs s\<rparr>)))))"

definition dev_watchdog_init :: "'io dev_watchdog \<Rightarrow> 'io dev_watchdog" where
  "dev_watchdog_init s =
     s\<lparr>workqueue := None, reg_base := 0, use_workqueue := False, props := replicate WD_PROP_COUNT 0,
       misc_registered := False, timer_running := False, wd_state := WD_STATE_UNKNOWN,
       timer_pending := False\<rparr>"

section \<open>Enabling and disabling\<close>

text \<open>The enable bits the 8-bit register can hold.\<close>

definition wd_bits :: "'io dev_watchdog \<Rightarrow> u8" where
  "wd_bits s = ucast (props s ! WD_PROP_ENABLE_VALUE)"

lemma ucast_and_u8: "(ucast (x :: u8) :: u32) AND y \<noteq> 0 \<longleftrightarrow> x AND ucast y \<noteq> 0"
proof -
  have "(ucast x :: u32) AND y = ucast (x AND ucast y)"
    by (rule bit_word_eqI) (auto simp: bit_simps dest: bit_imp_le_length)
  moreover have "unat (ucast z :: u32) = unat z" for z :: u8
    using unsigned_less [of z, where ?'a = nat]
    by (simp add: unsigned_ucast_eq take_bit_nat_eq_self_iff)
  ultimately show ?thesis by (metis unat_eq_0)
qed

text \<open>
  Enable, disable and read back. On a register that behaves as memory, the enable command sets
  the configured bits, the disable command clears them, both keep every other bit of the register,
  and the state that is read back and reported is the commanded one; for enabling, this needs a
  configured value with a bit in the low byte. Without the optional properties nothing is written
  and the state is kept.
\<close>

theorem wd_enable_readback:
  assumes "io_memory bus" and "lock_free (ga s)" and "unhooked (ga s)"
    and "a = reg_base s + props s ! WD_PROP_ENABLE_OFFSET"
    and "old = fst (raw_readb bus a (io (ga s)))"
  shows "if wd_has_enable s then
      \<exists>s'. dev_watchdog_enable bus en s = Some s' \<and>
        dev_read bus a (ga s') = Some (if en then old OR wd_bits s else old AND NOT (wd_bits s), ga s') \<and>
        wd_state s' = (if en \<and> wd_bits s \<noteq> 0 then WD_STATE_ENABLED else WD_STATE_DISABLED)
    else dev_watchdog_enable bus en s = Some s"
proof (cases "wd_has_enable s")
  case True
  let ?v = "if en then ucast (props s ! WD_PROP_ENABLE_VALUE) else 0 :: u8"
  obtain r g where w: "dev_read_modify_write bus a (wd_bits s) ?v (ga s) = Some (r, g)"
    "dev_read bus a g = Some (merge_bits old (wd_bits s) ?v, g)"
    using io_memory.rmw_read [OF assms(1-3)] assms(5) by blast
  have v: "merge_bits old (wd_bits s) ?v = (if en then old OR wd_bits s else old AND NOT (wd_bits s))"
    by (rule bit_word_eqI) (auto simp: merge_bits_def wd_bits_def bit_simps)
  have "(if en then old OR wd_bits s else old AND NOT (wd_bits s)) AND wd_bits s = (if en then wd_bits s else 0)"
    by (rule bit_word_eqI) (auto simp: bit_simps)
  then have "merge_bits old (wd_bits s) ?v AND wd_bits s \<noteq> 0 \<longleftrightarrow> en \<and> wd_bits s \<noteq> 0"
    unfolding v by simp
  then have st: "ucast (merge_bits old (wd_bits s) ?v) AND props s ! WD_PROP_ENABLE_VALUE \<noteq> 0 \<longleftrightarrow>
      en \<and> wd_bits s \<noteq> 0"
    by (simp only: ucast_and_u8 wd_bits_def)
  show ?thesis
    using True w st assms(4) v
    by (simp add: dev_watchdog_enable_def wd_read_state_def wd_bits_def del: if_split_asm cong: if_cong)
qed (simp add: dev_watchdog_enable_def)

text \<open>A watchdog with kick register 0x10 and enable bit 7 of register 0x11, on plain memory.\<close>

definition wd_example :: "(u32 \<Rightarrow> u8) dev_watchdog" where
  "wd_example = \<lparr>workqueue = None, reg_base = 0x1000, use_workqueue = False,
     props = [0x10, 0xaa, 0x11, 0x80], misc_registered = True, timer_running = False,
     wd_state = WD_STATE_DISABLED, timer_pending = False, work_pending = False, live_wqs = [],
     io_maps = 1, misc_live = True, wq_fault = False, ga = ga_state0\<rparr>"

theorem wd_enable_readback_witness:
  "\<exists>s'. dev_watchdog_enable ram_bus True wd_example = Some s' \<and>
     dev_read ram_bus 0x1011 (ga s') = Some (0xda, ga s') \<and> wd_state s' = WD_STATE_ENABLED"
proof -
  have "lock_free (ga wd_example)" "unhooked (ga wd_example)" "wd_has_enable wd_example"
    "reg_base wd_example + props wd_example ! WD_PROP_ENABLE_OFFSET = 0x1011"
    "fst (raw_readb ram_bus 0x1011 (io (ga wd_example))) = 0x5a"
    "0x5a OR wd_bits wd_example = 0xda" "wd_bits wd_example \<noteq> 0"
    by code_simp+
  with wd_enable_readback [OF ram.io_memory_axioms, of wd_example "0x1011" "0x5a" True] show ?thesis
    by (auto split: if_splits)
qed

section \<open>Probe and remove\<close>

text \<open>Nothing of the device is left: not mapped, not registered, no workqueue, no timer, no work.\<close>

definition wd_clean :: "'io dev_watchdog \<Rightarrow> bool" where
  "wd_clean s \<longleftrightarrow> reg_base s = 0 \<and> io_maps s = 0 \<and> \<not> misc_registered s \<and> \<not> misc_live s \<and>
     live_wqs s = [] \<and> \<not> timer_running s \<and> \<not> timer_pending s \<and> \<not> work_pending s"

text \<open>What \<^verbatim>\<open>remove\<close> needs: the flags agree with the kernel's state.\<close>

definition wd_bound :: "'io dev_watchdog \<Rightarrow> bool" where
  "wd_bound s \<longleftrightarrow> io_maps s = (if reg_base s \<noteq> 0 then 1 else 0) \<and> misc_registered s = misc_live s \<and>
     live_wqs s = (case workqueue s of None \<Rightarrow> [] | Some w \<Rightarrow> [w]) \<and> (work_pending s \<longrightarrow> workqueue s \<noteq> None)"

lemma remove_clean:
  assumes "wd_bound s" and "dev_watchdog_remove bus s = Some (r, s')"
  shows "r = 0 \<and> wd_clean s' \<and> wq_fault s' = wq_fault s"
  using assms
  by (auto simp: wd_bound_def wd_clean_def dev_watchdog_remove_def dev_watchdog_stop_def Let_def
      destroy_workqueue_def dev_watchdog_work_def dev_watchdog_kick_def split: option.splits if_splits)

lemma remove_returns:
  "\<not> work_pending s \<Longrightarrow> dev_watchdog_remove bus s \<noteq> None"
  by (auto simp: dev_watchdog_remove_def dev_watchdog_stop_def Let_def destroy_workqueue_def split: option.splits)

lemma read_enable_frame:
  assumes "dev_watchdog_read_enable bus s = Some s'"
  shows "workqueue s' = workqueue s \<and> reg_base s' = reg_base s \<and> io_maps s' = io_maps s \<and>
    misc_registered s' = misc_registered s \<and> misc_live s' = misc_live s \<and> live_wqs s' = live_wqs s \<and>
    wq_fault s' = wq_fault s \<and> work_pending s' = work_pending s"
  using assms by (auto simp: dev_watchdog_read_enable_def wd_read_state_def Let_def split: if_splits)

text \<open>
  C39. Binding and unbinding. From a clean state, a \<^verbatim>\<open>probe\<close> that reports an error leaves nothing
  behind, and after a \<^verbatim>\<open>probe\<close> that created its workqueue \<^verbatim>\<open>remove\<close> releases everything. Two
  exceptions: when the workqueue cannot be created, \<^verbatim>\<open>probe\<close> removes the device and still returns
  the zero of \<^verbatim>\<open>misc_register\<close>; and since \<^verbatim>\<open>remove\<close> keeps the pointer to the destroyed workqueue,
  a later \<^verbatim>\<open>probe\<close> that fails to map its memory destroys it a second time.
\<close>

theorem wd_probe_lifecycle:
  assumes "wd_clean s" and "dev_watchdog_probe bus k s = Some (r, s')"
  shows "(workqueue s = None \<and> r < 0 \<longrightarrow> wd_clean s' \<and> wq_fault s' = wq_fault s) \<and>
    (workqueue s = None \<and> 0 \<le> r \<and> new_wq k \<noteq> None \<longrightarrow>
       misc_live s' \<and> reg_base s' = of_iomap k \<and>
       (\<exists>s''. dev_watchdog_remove bus s' = Some (0, s'') \<and> wd_clean s'' \<and> wq_fault s'' = wq_fault s)) \<and>
    (0 \<le> r \<and> new_wq k = None \<longrightarrow> r = wd_misc_ret k \<and> wd_clean s') \<and>
    (workqueue s \<noteq> None \<and> of_iomap k = 0 \<longrightarrow> r = - EIO \<and> wq_fault s')"
proof -
  obtain e ps where p: "wd_get_props k 0 watchdog_props (props s) = (e, ps)" by (metis surj_pair)
  have c: "reg_base s = 0" "io_maps s = 0" "\<not> misc_registered s" "\<not> misc_live s" "live_wqs s = []" "\<not> work_pending s"
    using assms(1) by (auto simp: wd_clean_def)
  have e: "e = 0 \<or> e = - EINVAL"
    using p by (auto simp: watchdog_props_def split: option.splits if_splits)
  note unf = dev_watchdog_probe_def wd_fail_def Let_def
  note rem = wd_clean_def dev_watchdog_remove_def dev_watchdog_stop_def destroy_workqueue_def
  have 1: "wd_clean s' \<and> wq_fault s' = wq_fault s" if "workqueue s = None" "r < 0"
    using assms(2) p c e that by (auto simp: unf rem split: if_splits option.splits)
  have 2: "wd_bound s' \<and> \<not> work_pending s' \<and> misc_live s' \<and> reg_base s' = of_iomap k \<and> wq_fault s' = wq_fault s"
    if "workqueue s = None" "0 \<le> r" "new_wq k \<noteq> None"
    using assms(2) p c e that
    by (auto simp: unf wd_bound_def split: if_splits option.splits dest!: read_enable_frame)
  have 3: "r = wd_misc_ret k \<and> wd_clean s'" if "0 \<le> r" "new_wq k = None"
    using assms(2) p c e that by (auto simp: unf rem split: if_splits option.splits)
  have 4: "r = - EIO \<and> wq_fault s'" if "workqueue s \<noteq> None" "of_iomap k = 0"
    using assms(2) c that by (auto simp: unf rem split: if_splits option.splits)
  show ?thesis
    using 1 2 3 4 remove_clean [of s' bus] remove_returns [of s' bus] by fastforce
qed

definition wd_kernel_ok :: wd_kernel where
  "wd_kernel_ok = \<lparr>of_iomap = 0x1000, of_prop = (\<lambda>_. Some (0x10, 4)), wd_misc_ret = 0,
     of_use_wq = False, new_wq = Some 1\<rparr>"

definition wd_fresh :: "(u32 \<Rightarrow> u8) dev_watchdog" where
  "wd_fresh = (dev_watchdog_init wd_example)\<lparr>io_maps := 0, misc_live := False\<rparr>"

text \<open>The witness: bound, unbound, and then a failing \<^verbatim>\<open>probe\<close> with the stale workqueue pointer.\<close>

theorem wd_probe_lifecycle_witness:
  "\<exists>s1 s2 s3. dev_watchdog_probe ram_bus wd_kernel_ok wd_fresh = Some (0, s1) \<and>
     dev_watchdog_remove ram_bus s1 = Some (0, s2) \<and> wd_clean s2 \<and>
     dev_watchdog_probe ram_bus (wd_kernel_ok\<lparr>of_iomap := 0\<rparr>) s2 = Some (- EIO, s3) \<and> wq_fault s3"
proof -
  let ?bad = "wd_kernel_ok\<lparr>of_iomap := 0\<rparr>"
  have f: "wd_clean wd_fresh" "workqueue wd_fresh = None" "new_wq wd_kernel_ok \<noteq> None"
    by code_simp+
  have "case dev_watchdog_probe ram_bus wd_kernel_ok wd_fresh of None \<Rightarrow> False
      | Some (r, s) \<Rightarrow> r = 0 \<and> (case dev_watchdog_remove ram_bus s of None \<Rightarrow> False
          | Some (_, s2) \<Rightarrow> workqueue s2 \<noteq> None \<and> \<not> Option.is_none (dev_watchdog_probe ram_bus ?bad s2))"
    by code_simp
  then obtain s1 r2 s2 r s3 where p: "dev_watchdog_probe ram_bus wd_kernel_ok wd_fresh = Some (0, s1)"
    "dev_watchdog_remove ram_bus s1 = Some (r2, s2)" "workqueue s2 \<noteq> None"
    "dev_watchdog_probe ram_bus ?bad s2 = Some (r, s3)"
    by (auto split: option.splits simp: Option.is_none_def)
  have c: "r2 = 0 \<and> wd_clean s2"
    using wd_probe_lifecycle [OF f(1) p(1)] f p(2) by simp
  with wd_probe_lifecycle [OF _ p(4)] p show ?thesis by auto
qed

text \<open>
  The status line is always copied in full: a \<^verbatim>\<open>read\<close> with a smaller count still stores and
  returns eight bytes.
\<close>

lemma wd_read_ignores_len:
  "8 \<le> ulen \<Longrightarrow> dev_watchdog_read s True ulen len = (8, wd_status_line s, False)"
  by (simp add: dev_watchdog_read_def wd_status_line_def copy_to_user_def)

section \<open>The timer handler and the commands, interleaved\<close>

text \<open>
  The timer handler runs in interrupt context, the commands in tasks, and nothing orders their
  accesses to \<^verbatim>\<open>timer_running\<close>. The steps of the handler: entry, after the test of the flag,
  after the kick or the queueing of the work item, and between setting the flag and \<^verbatim>\<open>mod_timer\<close> in \<^verbatim>\<open>dev_watchdog_start\<close>. The
  steps of a task: between setting the flag and \<^verbatim>\<open>mod_timer\<close> (start), and between clearing the flag
  and the return of \<^verbatim>\<open>del_timer_sync\<close> (stop), which waits until the handler is not running and takes
  the timer off the queue. With the workqueue, the kick is a step of its own of the worker thread.
\<close>

datatype handler_pc = T_idle | T_entered | T_checked | T_kicked | T_rearm
datatype user_pc = U_idle | U_start | U_stop
datatype wd_event = W_tau | W_kick | W_start tid | W_stopped tid

record wd_race =
  use_wq :: bool
  queued :: bool
  running :: bool
  pending :: bool
  hpc :: handler_pc
  upc :: "tid \<Rightarrow> user_pc"

inductive wd_step :: "wd_race \<Rightarrow> wd_event \<Rightarrow> wd_race \<Rightarrow> bool" where
  t_fire: "pending s \<Longrightarrow> hpc s = T_idle \<Longrightarrow> wd_step s W_tau (s\<lparr>pending := False, hpc := T_entered\<rparr>)"
| t_check: "hpc s = T_entered \<Longrightarrow>
    wd_step s W_tau (s\<lparr>hpc := (if running s then T_checked else T_idle)\<rparr>)"
| t_kick: "hpc s = T_checked \<Longrightarrow> \<not> use_wq s \<Longrightarrow> wd_step s W_kick (s\<lparr>hpc := T_kicked\<rparr>)"
| t_queue: "hpc s = T_checked \<Longrightarrow> use_wq s \<Longrightarrow> wd_step s W_tau (s\<lparr>queued := True, hpc := T_kicked\<rparr>)"
| w_work: "queued s \<Longrightarrow> wd_step s W_kick (s\<lparr>queued := False\<rparr>)"
| t_flag: "hpc s = T_kicked \<Longrightarrow> wd_step s W_tau (s\<lparr>running := True, hpc := T_rearm\<rparr>)"
| t_arm: "hpc s = T_rearm \<Longrightarrow> wd_step s W_tau (s\<lparr>pending := True, hpc := T_idle\<rparr>)"
| u_start: "upc s t = U_idle \<Longrightarrow>
    wd_step s (W_start t) (s\<lparr>running := True, upc := (upc s)(t := U_start)\<rparr>)"
| u_arm: "upc s t = U_start \<Longrightarrow> wd_step s W_tau (s\<lparr>pending := True, upc := (upc s)(t := U_idle)\<rparr>)"
| u_stop: "upc s t = U_idle \<Longrightarrow>
    wd_step s W_tau (s\<lparr>running := False, upc := (upc s)(t := U_stop)\<rparr>)"
| u_stopped: "upc s t = U_stop \<Longrightarrow> hpc s = T_idle \<Longrightarrow>
    wd_step s (W_stopped t) (s\<lparr>pending := False, upc := (upc s)(t := U_idle)\<rparr>)"

inductive wd_run :: "wd_race \<Rightarrow> wd_event list \<Rightarrow> wd_race \<Rightarrow> bool" where
  wd_nil: "wd_run s [] s"
| wd_cons: "wd_step s e s' \<Longrightarrow> wd_run s' es s'' \<Longrightarrow> wd_run s (e # es) s''"

definition wd_off :: wd_race where
  "wd_off = \<lparr>use_wq = False, queued = False, running = False, pending = False, hpc = T_idle, upc = (\<lambda>_. U_idle)\<rparr>"

text \<open>Quiet: the timer is not queued, its handler not running, no task inside \<^verbatim>\<open>dev_watchdog_start\<close>.\<close>

definition wd_quiet :: "wd_race \<Rightarrow> bool" where
  "wd_quiet s \<longleftrightarrow> \<not> pending s \<and> hpc s = T_idle \<and> (\<forall>t. upc s t \<noteq> U_start)"

lemma quiet_step:
  "wd_step s e s' \<Longrightarrow> wd_quiet s \<Longrightarrow> (\<forall>t. e \<noteq> W_start t) \<Longrightarrow>
    wd_quiet s' \<and> of_bool (e = W_kick) + of_bool (queued s') = (of_bool (queued s) :: nat)"
  by (induction rule: wd_step.induct) (auto simp: wd_quiet_def)

text \<open>From a quiet state, the kicks up to the next start are those of work that is queued already.\<close>

lemma quiet_run:
  "wd_run s es s' \<Longrightarrow> wd_quiet s \<Longrightarrow> (\<forall>t. W_start t \<notin> set es) \<Longrightarrow>
    wd_quiet s' \<and> count_list es W_kick + of_bool (queued s') = of_bool (queued s)"
proof (induction rule: wd_run.induct)
  case (wd_cons s e s' es s'')
  then have "wd_quiet s' \<and> of_bool (e = W_kick) + of_bool (queued s') = (of_bool (queued s) :: nat)"
    by (intro quiet_step) auto
  then show ?case using wd_cons by (auto simp: of_bool_def split: if_splits)
qed simp



text \<open>
  The stop command can leave the flag set. If the timer handler has passed its test when a task
  clears \<^verbatim>\<open>timer_running\<close>, the handler sets the flag again before \<^verbatim>\<open>del_timer_sync\<close> takes the timer
  off the queue: the stop command returns with the timer dead, while the status line reports
  \<^verbatim>\<open>t=1\<close>.
\<close>

theorem wd_stop_stale_flag:
  "\<exists>es s. wd_run wd_off (es @ [W_stopped 1]) s \<and> running s \<and> wd_quiet s"
proof -
  let ?s = "\<lambda>r p h x. \<lparr>use_wq = False, queued = False, running = r, pending = p, hpc = h, upc = (\<lambda>_. U_idle)(1 := x)\<rparr> :: wd_race"
  have 0: "wd_off = ?s False False T_idle U_idle" by (simp add: wd_off_def fun_eq_iff)
  have 1: "wd_step (?s False False T_idle U_idle) (W_start 1) (?s True False T_idle U_start)"
    using u_start [of "?s False False T_idle U_idle" 1] by simp
  have 2: "wd_step (?s True False T_idle U_start) W_tau (?s True True T_idle U_idle)"
    using u_arm [of "?s True False T_idle U_start" 1] by simp
  have 3: "wd_step (?s True True T_idle U_idle) W_tau (?s True False T_entered U_idle)"
    using t_fire [of "?s True True T_idle U_idle"] by simp
  have 4: "wd_step (?s True False T_entered U_idle) W_tau (?s True False T_checked U_idle)"
    using t_check [of "?s True False T_entered U_idle"] by simp
  have 5: "wd_step (?s True False T_checked U_idle) W_tau (?s False False T_checked U_stop)"
    using u_stop [of "?s True False T_checked U_idle" 1] by simp
  have 6: "wd_step (?s False False T_checked U_stop) W_kick (?s False False T_kicked U_stop)"
    using t_kick [of "?s False False T_checked U_stop"] by simp
  have 7: "wd_step (?s False False T_kicked U_stop) W_tau (?s True False T_rearm U_stop)"
    using t_flag [of "?s False False T_kicked U_stop"] by simp
  have 8: "wd_step (?s True False T_rearm U_stop) W_tau (?s True True T_idle U_stop)"
    using t_arm [of "?s True False T_rearm U_stop"] by simp
  have 9: "wd_step (?s True True T_idle U_stop) (W_stopped 1) (?s True False T_idle U_idle)"
    using u_stopped [of "?s True True T_idle U_stop" 1] by simp
  show ?thesis
  proof (intro exI conjI)
    show "wd_run wd_off ([W_start 1, W_tau, W_tau, W_tau, W_tau, W_kick, W_tau, W_tau] @ [W_stopped 1])
        (?s True False T_idle U_idle)"
      unfolding 0 append.simps
      by (rule wd_cons [OF 1] wd_cons [OF 2] wd_cons [OF 3] wd_cons [OF 4] wd_cons [OF 5]
          wd_cons [OF 6] wd_cons [OF 7] wd_cons [OF 8] wd_cons [OF 9] wd_nil)+
  qed (simp_all add: wd_quiet_def)
qed

end
