(* ===== verification/Monitor.thy ===== *)
theory Monitor
  imports Ldd_Prelude
begin

text \<open>
  Handlers that take a lock, work in several steps, and release it: the interleavings of any number of
  tasks inside such handlers, and the locale \<open>monitor\<close> with what makes every interleaving equivalent to
  running whole handlers one after the other. The register access (theory \<open>Ga_Sched\<close>) and
  the memory device with a mutex (theory \<open>Gmem_Sched\<close>) are instances.
\<close>

section \<open>Interleaved handlers\<close>

text \<open>
  A task is idle, has made a call and not yet passed the entry of the handler, or is inside with a local
  state. \<open>hist\<close> lists the calls that have returned, in that order, with their results.
\<close>

datatype ('c, 'l) at = Outside | Waiting 'c | Inside 'c 'l

record ('c, 'l, 'r, 's) mon =
  shared :: 's
  tasks :: "tid \<Rightarrow> ('c, 'l) at"
  hist :: "(tid \<times> 'c \<times> 'r) list"

text \<open>
  \<open>enter c s\<close> is the entry of the handler for call \<open>c\<close>: \<open>None\<close> when the lock is held, a result when the
  handler returns before the lock, and otherwise the local state and the shared state with the lock taken.
  \<open>move c l s\<close> is one step inside: a new local state, or the result when the handler returns.
\<close>

type_synonym ('c, 'l, 'r, 's) entry = "'c \<Rightarrow> 's \<Rightarrow> ('r + 'l \<times> 's) option"
type_synonym ('c, 'l, 'r, 's) move = "'c \<Rightarrow> 'l \<Rightarrow> 's \<Rightarrow> ('l + 'r) \<times> 's"

inductive mon_step ::
  "('c, 'l, 'r, 's) entry \<Rightarrow> ('c, 'l, 'r, 's) move \<Rightarrow> tid \<Rightarrow> ('c, 'l, 'r, 's) mon \<Rightarrow> ('c, 'l, 'r, 's) mon \<Rightarrow> bool"
  for enter move t where
  call: "tasks s t = Outside \<Longrightarrow> mon_step enter move t s (s\<lparr>tasks := (tasks s)(t := Waiting c)\<rparr>)"
| pass: "tasks s t = Waiting c \<Longrightarrow> enter c (shared s) = Some (Inl r) \<Longrightarrow>
    mon_step enter move t s (s\<lparr>tasks := (tasks s)(t := Outside), hist := hist s @ [(t, c, r)]\<rparr>)"
| enter: "tasks s t = Waiting c \<Longrightarrow> enter c (shared s) = Some (Inr (l, x)) \<Longrightarrow>
    mon_step enter move t s (s\<lparr>tasks := (tasks s)(t := Inside c l), shared := x\<rparr>)"
| more: "tasks s t = Inside c l \<Longrightarrow> move c l (shared s) = (Inl l', x) \<Longrightarrow>
    mon_step enter move t s (s\<lparr>tasks := (tasks s)(t := Inside c l'), shared := x\<rparr>)"
| leave: "tasks s t = Inside c l \<Longrightarrow> move c l (shared s) = (Inr r, x) \<Longrightarrow>
    mon_step enter move t s
      (s\<lparr>tasks := (tasks s)(t := Outside), shared := x, hist := hist s @ [(t, c, r)]\<rparr>)"

inductive mon_reach ::
  "('c, 'l, 'r, 's) entry \<Rightarrow> ('c, 'l, 'r, 's) move \<Rightarrow> 's \<Rightarrow> ('c, 'l, 'r, 's) mon \<Rightarrow> bool"
  for enter move x where
  start: "mon_reach enter move x \<lparr>shared = x, tasks = (\<lambda>_. Outside), hist = []\<rparr>"
| step: "mon_reach enter move x s \<Longrightarrow> mon_step enter move t s s' \<Longrightarrow> mon_reach enter move x s'"

inductive_cases mon_step_E: "mon_step enter move t s s'"

definition is_inside :: "('c, 'l) at \<Rightarrow> bool" where
  "is_inside a = (case a of Inside c l \<Rightarrow> True | _ \<Rightarrow> False)"

lemma is_inside_simps [simp]: "\<not> is_inside Outside" "\<not> is_inside (Waiting c)" "is_inside (Inside c l)"
  by (simp_all add: is_inside_def)

lemma is_inside_iff: "is_inside a \<longleftrightarrow> (\<exists>c l. a = Inside c l)"
  by (cases a) simp_all

text \<open>Whole handlers one after the other; \<open>None\<close> when one of them would wait for ever.\<close>

fun serially :: "('c \<Rightarrow> 's \<Rightarrow> ('r \<times> 's) option) \<Rightarrow> 'c list \<Rightarrow> 's \<Rightarrow> ('r list \<times> 's) option" where
  "serially whole [] s = Some ([], s)"
| "serially whole (c # cs) s =
    (case whole c s of
       None \<Rightarrow> None
     | Some (r, s) \<Rightarrow> map_option (\<lambda>(rs, s). (r # rs, s)) (serially whole cs s))"

lemma serially_append:
  assumes "serially whole cs s = Some (rs, x)" and "serially whole ds x = Some (qs, y)"
  shows "serially whole (cs @ ds) s = Some (rs @ qs, y)"
  using assms by (induction cs arbitrary: s rs) (auto split: option.splits)

lemma serially_snoc:
  assumes "serially whole cs s = Some (rs, x)" and "whole c x = Some (r, y)"
  shows "serially whole (cs @ [c]) s = Some (rs @ [r], y)"
  using serially_append [OF assms(1), of "[c]" "[r]" y] assms(2) by simp

text \<open>
  The step of a task that is not idle is determined. \<open>mon_exec\<close> runs a schedule: a task makes a call, or
  takes its next step.
\<close>

definition mon_next ::
  "('c, 'l, 'r, 's) entry \<Rightarrow> ('c, 'l, 'r, 's) move \<Rightarrow> tid \<Rightarrow> ('c, 'l, 'r, 's) mon \<Rightarrow> ('c, 'l, 'r, 's) mon option" where
  "mon_next enter move t s = (case tasks s t of
     Outside \<Rightarrow> None
   | Waiting c \<Rightarrow> (case enter c (shared s) of
         None \<Rightarrow> None
       | Some (Inl r) \<Rightarrow> Some (s\<lparr>tasks := (tasks s)(t := Outside), hist := hist s @ [(t, c, r)]\<rparr>)
       | Some (Inr (l, x)) \<Rightarrow> Some (s\<lparr>tasks := (tasks s)(t := Inside c l), shared := x\<rparr>))
   | Inside c l \<Rightarrow> (case move c l (shared s) of
         (Inl l', x) \<Rightarrow> Some (s\<lparr>tasks := (tasks s)(t := Inside c l'), shared := x\<rparr>)
       | (Inr r, x) \<Rightarrow> Some (s\<lparr>tasks := (tasks s)(t := Outside), shared := x, hist := hist s @ [(t, c, r)]\<rparr>)))"

lemma mon_next_step: "mon_next enter move t s = Some s' \<Longrightarrow> mon_step enter move t s s'"
  by (auto simp: mon_next_def split: at.splits option.splits sum.splits prod.splits intro: mon_step.intros)

lemma mon_step_next: "mon_step enter move t s s' \<Longrightarrow> tasks s t \<noteq> Outside \<Longrightarrow> mon_next enter move t s = Some s'"
  by (erule mon_step_E) (auto simp: mon_next_def)

datatype 'c move_of = Call tid 'c | Go tid

fun mon_exec ::
  "('c, 'l, 'r, 's) entry \<Rightarrow> ('c, 'l, 'r, 's) move \<Rightarrow> 'c move_of list \<Rightarrow> ('c, 'l, 'r, 's) mon \<Rightarrow> ('c, 'l, 'r, 's) mon option" where
  "mon_exec enter move [] s = Some s"
| "mon_exec enter move (Call t c # ms) s =
    (if tasks s t = Outside then mon_exec enter move ms (s\<lparr>tasks := (tasks s)(t := Waiting c)\<rparr>) else None)"
| "mon_exec enter move (Go t # ms) s =
    (case mon_next enter move t s of None \<Rightarrow> None | Some s \<Rightarrow> mon_exec enter move ms s)"

definition mon_start :: "'s \<Rightarrow> ('c, 'l, 'r, 's) mon" where
  "mon_start x = \<lparr>shared = x, tasks = (\<lambda>_. Outside), hist = []\<rparr>"

lemma mon_exec_reach:
  "mon_exec enter move ms s = Some s' \<Longrightarrow> mon_reach enter move x s \<Longrightarrow> mon_reach enter move x s'"
  by (induction enter move ms s rule: mon_exec.induct)
    (auto split: if_splits option.splits intro: mon_reach.step mon_step.call dest!: mon_next_step)

lemma mon_exec_from_start: "mon_exec enter move ms (mon_start x) = Some s \<Longrightarrow> mon_reach enter move x s"
  using mon_exec_reach [of enter move ms "mon_start x" s x] mon_reach.start [of enter move x]
  by (simp add: mon_start_def)

section \<open>The contract\<close>

text \<open>
  \<open>finish c l s\<close> is what the rest of the handler does from the local state \<open>l\<close> on when it is not
  disturbed. A step keeps it, and the lock keeps the others out. A handler that returns early does not
  depend on the shared state. A handler may return with the lock held. \<open>valid\<close> are the calls that can pass the
  entry, \<open>ok\<close> the well-formed shared states.
\<close>

locale monitor =
  fixes enter :: "('c, 'l, 'r, 's) entry" and move :: "('c, 'l, 'r, 's) move"
    and whole :: "'c \<Rightarrow> 's \<Rightarrow> ('r \<times> 's) option" and finish :: "'c \<Rightarrow> 'l \<Rightarrow> 's \<Rightarrow> 'r \<times> 's"
    and held ok :: "'s \<Rightarrow> bool" and valid :: "'c \<Rightarrow> bool"
  assumes pass_pure: "enter c s = Some (Inl r) \<Longrightarrow> whole c x = Some (r, x)"
    and enter_whole: "ok s \<Longrightarrow> enter c s = Some (Inr (l, x)) \<Longrightarrow> whole c s = Some (finish c l x) \<and> held x \<and> ok x \<and> valid c"
    and held_blocks: "held s \<Longrightarrow> enter c s \<noteq> Some (Inr y)"
    and free_enters: "\<not> held s \<Longrightarrow> enter c s \<noteq> None"
    and move_more: "ok s \<Longrightarrow> held s \<Longrightarrow> valid c \<Longrightarrow> move c l s = (Inl l', x) \<Longrightarrow> finish c l' x = finish c l s \<and> held x \<and> ok x"
    and move_last: "ok s \<Longrightarrow> held s \<Longrightarrow> valid c \<Longrightarrow> move c l s = (Inr r, x) \<Longrightarrow> finish c l s = (r, x) \<and> ok x"
begin

text \<open>
  The invariant: the returned calls, run serially, lead to a state \<open>g\<close>; nobody is inside and \<open>g\<close> is the
  shared state, or one task is inside, and finishing it from here gives what its whole handler gives from \<open>g\<close>.
\<close>

definition mon_inv :: "'s \<Rightarrow> ('c, 'l, 'r, 's) mon \<Rightarrow> bool" where
  "mon_inv x s \<longleftrightarrow> (\<exists>g. serially whole (map (fst \<circ> snd) (hist s)) x = Some (map (snd \<circ> snd) (hist s), g) \<and> ok g \<and>
     ok (shared s) \<and>
     ((\<forall>t. \<not> is_inside (tasks s t)) \<and> shared s = g \<or>
      (\<exists>t c l. tasks s t = Inside c l \<and> (\<forall>u. u \<noteq> t \<longrightarrow> \<not> is_inside (tasks s u)) \<and> held (shared s) \<and> valid c \<and>
         whole c g = Some (finish c l (shared s)))))"

lemma mon_inv_free:
  assumes "serially whole (map (fst \<circ> snd) (hist s)) x = Some (map (snd \<circ> snd) (hist s), shared s)"
    and "ok (shared s)" and "\<And>t. \<not> is_inside (tasks s t)"
  shows "mon_inv x s"
  using assms unfolding mon_inv_def by blast

lemma mon_inv_busy:
  assumes "serially whole (map (fst \<circ> snd) (hist s)) x = Some (map (snd \<circ> snd) (hist s), g)"
    and "ok g" and "ok (shared s)" and "tasks s t = Inside c l" and "\<And>u. u \<noteq> t \<Longrightarrow> \<not> is_inside (tasks s u)"
    and "held (shared s)" and "valid c" and "whole c g = Some (finish c l (shared s))"
  shows "mon_inv x s"
  using assms unfolding mon_inv_def by blast

lemma mon_inv_cases:
  assumes "mon_inv x s"
  obtains (free) "serially whole (map (fst \<circ> snd) (hist s)) x = Some (map (snd \<circ> snd) (hist s), shared s)"
      "ok (shared s)" "\<And>t. \<not> is_inside (tasks s t)"
    | (busy) g t c l where "serially whole (map (fst \<circ> snd) (hist s)) x = Some (map (snd \<circ> snd) (hist s), g)"
      "ok g" "ok (shared s)" "tasks s t = Inside c l" "\<And>u. u \<noteq> t \<Longrightarrow> \<not> is_inside (tasks s u)"
      "held (shared s)" "valid c" "whole c g = Some (finish c l (shared s))"
  using assms unfolding mon_inv_def by blast

text \<open>The task that is inside, if there is one; and a step of a task outside that leaves the shared state alone.\<close>

lemma mon_inv_at:
  assumes "mon_inv x s" and "tasks s t = Inside c l"
  obtains g where "serially whole (map (fst \<circ> snd) (hist s)) x = Some (map (snd \<circ> snd) (hist s), g)"
    "ok g" "ok (shared s)" "\<And>u. u \<noteq> t \<Longrightarrow> \<not> is_inside (tasks s u)" "held (shared s)" "valid c"
    "whole c g = Some (finish c l (shared s))"
  using assms(1)
proof (cases rule: mon_inv_cases)
  case free
  then show ?thesis using assms(2) by (metis is_inside_simps(3))
next
  case (busy g u d k)
  then have u: "u = t" using assms(2) by (metis is_inside_simps(3))
  with busy assms(2) have "d = c" "k = l" by simp_all
  with busy u show ?thesis by (intro that [of g]) auto
qed

lemma mon_inv_outside:
  assumes "mon_inv x s" and "\<not> is_inside (tasks s t)" and "\<not> is_inside a"
    and "\<And>y. serially whole (map (fst \<circ> snd) h) y = Some (map (snd \<circ> snd) h, y)"
  shows "mon_inv x (s\<lparr>tasks := (tasks s)(t := a), hist := hist s @ h\<rparr>)"
  using assms(1)
proof (cases rule: mon_inv_cases)
  case free
  with assms(3,4) show ?thesis by (intro mon_inv_free) (auto intro!: serially_append)
next
  case (busy g u d l)
  moreover have "u \<noteq> t" using busy(4) assms(2) by auto
  ultimately show ?thesis using assms(3,4)
    by (intro mon_inv_busy [where g = g and t = u and c = d and l = l]) (auto intro!: serially_append)
qed

lemma mon_inv_step:
  assumes "mon_step enter move t s s'" and "mon_inv x s"
  shows "mon_inv x s'"
  using assms(1)
proof (cases rule: mon_step.cases)
  case (call c)
  then show ?thesis using mon_inv_outside [OF assms(2), of t "Waiting c" "[]"] by simp
next
  case (pass c r)
  then show ?thesis
    using mon_inv_outside [OF assms(2), of t Outside "[(t, c, r)]"] pass_pure [OF pass(3)] by simp
next
  case (enter c l y)
  from assms(2) show ?thesis
  proof (cases rule: mon_inv_cases)
    case free
    with enter_whole [OF free(2) enter(3)] show ?thesis unfolding enter(1)
      by (intro mon_inv_busy [where g = "shared s" and t = t and c = c and l = l]) auto
  next
    case (busy g u d k)
    then show ?thesis using held_blocks enter(3) by blast
  qed
next
  case (more c l l' y)
  obtain g where g: "serially whole (map (fst \<circ> snd) (hist s)) x = Some (map (snd \<circ> snd) (hist s), g)"
    "ok g" "ok (shared s)" "\<And>u. u \<noteq> t \<Longrightarrow> \<not> is_inside (tasks s u)" "held (shared s)" "valid c"
    "whole c g = Some (finish c l (shared s))" by (rule mon_inv_at [OF assms(2) more(2)]) (rule that)
  with move_more [OF g(3,5,6) more(3)] show ?thesis unfolding more(1)
    by (intro mon_inv_busy [where g = g and t = t and c = c and l = l']) auto
next
  case (leave c l r y)
  obtain g where g: "serially whole (map (fst \<circ> snd) (hist s)) x = Some (map (snd \<circ> snd) (hist s), g)"
    "ok g" "ok (shared s)" "\<And>u. u \<noteq> t \<Longrightarrow> \<not> is_inside (tasks s u)" "held (shared s)" "valid c"
    "whole c g = Some (finish c l (shared s))" by (rule mon_inv_at [OF assms(2) leave(2)]) (rule that)
  with move_last [OF g(3,5,6) leave(3)] show ?thesis unfolding leave(1)
    by (intro mon_inv_free) (auto intro!: serially_append)
qed

lemma mon_reach_inv:
  assumes "mon_reach enter move x s" and "ok x"
  shows "mon_inv x s"
  using assms
proof (induction rule: mon_reach.induct)
  case start
  then show ?case by (intro mon_inv_free) simp_all
next
  case (step s t s')
  then show ?case by (blast intro: mon_inv_step)
qed

text \<open>Mutual exclusion, and the equivalence with a serial execution whenever nobody is inside.\<close>

lemma exclusive:
  assumes "mon_reach enter move x s" and "ok x" and "is_inside (tasks s t)" and "is_inside (tasks s u)"
  shows "t = u"
  using mon_reach_inv [OF assms(1,2)]
proof (cases rule: mon_inv_cases)
  case (busy g v c l)
  then have "t = v" "u = v" using assms(3,4) by blast+
  then show ?thesis by simp
qed (use assms(3) in blast)

lemma serial:
  assumes "mon_reach enter move x s" and "ok x" and "\<forall>t. \<not> is_inside (tasks s t)"
  shows "serially whole (map (fst \<circ> snd) (hist s)) x = Some (map (snd \<circ> snd) (hist s), shared s)"
  using mon_reach_inv [OF assms(1,2)]
proof (cases rule: mon_inv_cases)
  case (busy g t c l)
  then show ?thesis using assms(3) is_inside_simps(3) by metis
qed

text \<open>Also while a task is inside, the calls that have returned are a serial execution.\<close>

lemma returned_serial:
  assumes "mon_reach enter move x s" and "ok x"
  shows "\<exists>g. serially whole (map (fst \<circ> snd) (hist s)) x = Some (map (snd \<circ> snd) (hist s), g)"
  using mon_reach_inv [OF assms] by (cases rule: mon_inv_cases) blast+

text \<open>
  Nobody waits in vain: when some task is not idle, a step of such a task is possible, unless the lock was
  left behind by a handler that has returned.
\<close>

lemma progress:
  assumes "tasks s t \<noteq> Outside"
  shows "(\<exists>u s'. tasks s u \<noteq> Outside \<and> mon_step enter move u s s') \<or>
    (held (shared s) \<and> (\<forall>u. \<not> is_inside (tasks s u)))"
proof (cases "\<exists>u. is_inside (tasks s u)")
  case True
  then obtain u c l where u: "tasks s u = Inside c l" by (auto simp: is_inside_iff)
  obtain e y where m: "move c l (shared s) = (e, y)" by fastforce
  have "\<exists>s'. mon_step enter move u s s'"
  proof (cases e)
    case (Inl l')
    with u m show ?thesis by (blast intro: mon_step.more)
  next
    case (Inr r)
    with u m show ?thesis by (blast intro: mon_step.leave)
  qed
  moreover have "tasks s u \<noteq> Outside" using u by simp
  ultimately show ?thesis by blast
next
  case False
  show ?thesis
  proof (cases "held (shared s)")
    case True
    with False show ?thesis by blast
  next
    case nh: False
    obtain c where c: "tasks s t = Waiting c" using assms False by (cases "tasks s t") (auto simp: is_inside_iff)
    obtain e where e: "enter c (shared s) = Some e" using free_enters [OF nh] by blast
    have "\<exists>s'. mon_step enter move t s s'"
    proof (cases e)
      case (Inl r)
      with c e show ?thesis by (blast intro: mon_step.pass)
    next
      case (Inr p)
      with c e show ?thesis by (cases p) (blast intro: mon_step.enter)
    qed
    then show ?thesis using assms by blast
  qed
qed

end

end
