(* ===== verification/Watchdog_Session.thy ===== *)
theory Watchdog_Session
  imports Watchdog Monitor C_Strings
begin

text \<open>
  The watchdog driver in use (\<^verbatim>\<open>dev_watchdog_fops\<close> and \<^verbatim>\<open>dev_watchdog_miscdev\<close> of \<^verbatim>\<open>src/watchdog/watchdog.c\<close>): from
  a successful \<^verbatim>\<open>probe\<close> through any sequence of system calls, timer interrupts and runs of the worker to
  \<^verbatim>\<open>remove\<close>. The driver refines a specification that counts the kicks.
\<close>

section \<open>The file operations\<close>

record 'io wd_operations =
  wop_llseek :: "bool \<Rightarrow> int"
  wop_open :: "bool \<Rightarrow> int \<times> bool"
  wop_release :: "bool \<Rightarrow> int \<times> bool"
  wop_write :: "u8 option \<Rightarrow> u32 \<Rightarrow> 'io dev_watchdog \<Rightarrow> (int \<times> 'io dev_watchdog) option"
  wop_read :: "'io dev_watchdog \<Rightarrow> bool \<Rightarrow> nat \<Rightarrow> u32 \<Rightarrow> int \<times> u8 list \<times> bool"

text \<open>The kernel's \<^verbatim>\<open>no_llseek\<close>.\<close>

definition no_llseek :: "bool \<Rightarrow> int" where
  "no_llseek private_data = - ESPIPE"

definition dev_watchdog_fops :: "'io iobus \<Rightarrow> 'io wd_operations" where
  "dev_watchdog_fops bus = \<lparr>
     wop_llseek = no_llseek,
     wop_open = dev_watchdog_open,
     wop_release = dev_watchdog_release,
     wop_write = dev_watchdog_write bus,
     wop_read = dev_watchdog_read\<rparr>"

record 'io miscdevice =
  md_minor :: nat
  md_name :: string
  md_fops :: "'io wd_operations"

definition dev_watchdog_miscdev :: "'io iobus \<Rightarrow> 'io miscdevice" where
  "dev_watchdog_miscdev bus = \<lparr>md_minor = 130, md_name = ''watchdog'', md_fops = dev_watchdog_fops bus\<rparr>"

section \<open>System calls and interrupts\<close>

text \<open>
  Calls on a descriptor go to the misc device's operations; the first byte of the user buffer of a write is
  \<open>None\<close> if it cannot be read. The timer interrupt happens while the timer is queued, and takes it off the queue; the
  worker takes the work item. One event runs after the other: \<^verbatim>\<open>wd_stop_no_kick\<close> of \<^verbatim>\<open>Watchdog\<close> has the steps inside
  the handlers.
\<close>

datatype wd_sys =
    Wd_open nat
  | Wd_write nat "u8 option" u32
  | Wd_read nat nat u32
  | Wd_lseek nat
  | Wd_close nat
  | Wd_timer
  | Wd_worker

record 'io wd_session =
  wdog :: "'io dev_watchdog"
  handles :: "nat \<Rightarrow> bool option"


fun wd_call :: "'io iobus \<Rightarrow> wd_sys \<Rightarrow> 'io wd_session \<Rightarrow> ((int \<times> u8 list) \<times> 'io wd_session) option" where
  "wd_call bus (Wd_open fd) s =
    (if handles s fd \<noteq> None then Some ((- EBADF, []), s)
     else if \<not> misc_live (wdog s) then Some ((- ENODEV, []), s)
     else let (r, p) = wop_open (md_fops (dev_watchdog_miscdev bus)) False in
       Some ((r, []), if r = 0 then s\<lparr>handles := (handles s)(fd \<mapsto> p)\<rparr> else s))"
| "wd_call bus (Wd_write fd data len) s =
    (case handles s fd of
       None \<Rightarrow> Some ((- EBADF, []), s)
     | Some _ \<Rightarrow> map_option (\<lambda>(r, w). ((r, []), s\<lparr>wdog := w\<rparr>))
         (wop_write (md_fops (dev_watchdog_miscdev bus)) data len (wdog s)))"
| "wd_call bus (Wd_read fd ulen len) s =
    (case handles s fd of
       None \<Rightarrow> Some ((- EBADF, []), s)
     | Some p \<Rightarrow> let (r, bs, p) = wop_read (md_fops (dev_watchdog_miscdev bus)) (wdog s) p ulen len in
         Some ((r, bs), s\<lparr>handles := (handles s)(fd \<mapsto> p)\<rparr>))"
| "wd_call bus (Wd_lseek fd) s =
    (case handles s fd of
       None \<Rightarrow> Some ((- EBADF, []), s)
     | Some p \<Rightarrow> Some ((wop_llseek (md_fops (dev_watchdog_miscdev bus)) p, []), s))"
| "wd_call bus (Wd_close fd) s =
    (case handles s fd of
       None \<Rightarrow> Some ((- EBADF, []), s)
     | Some p \<Rightarrow> Some ((fst (wop_release (md_fops (dev_watchdog_miscdev bus)) p), []),
         s\<lparr>handles := (handles s)(fd := None)\<rparr>))"
| "wd_call bus Wd_timer s =
    (if timer_pending (wdog s)
     then map_option (\<lambda>w. ((0, []), s\<lparr>wdog := w\<rparr>)) (dev_watchdog_timeout bus ((wdog s)\<lparr>timer_pending := False\<rparr>))
     else Some ((0, []), s))"
| "wd_call bus Wd_worker s =
    (if work_pending (wdog s)
     then map_option (\<lambda>w. ((0, []), s\<lparr>wdog := w\<rparr>)) (dev_watchdog_work bus ((wdog s)\<lparr>work_pending := False\<rparr>))
     else Some ((0, []), s))"

section \<open>The specification\<close>

text \<open>
  Whether the watchdog is being kicked periodically, whether a kick is owed by the worker, the reported state, the
  open descriptors with whether their status line is still to be read, and the number of kicks so far; and what does
  not change: whether ticks kick through the worker, whether there is an enable register, whether the enable
  value has a bit in the low byte, and the address and value of a kick.
\<close>

record wd_spec =
  ticking :: bool
  owed :: bool
  reported :: wd_status
  unread :: "nat \<Rightarrow> bool option"
  kicks :: nat
  through_worker :: bool
  switchable :: bool
  bits_set :: bool
  target :: "u32 \<times> u8"

fun spec_command :: "wd_cmd \<Rightarrow> wd_spec \<Rightarrow> wd_spec" where
  "spec_command Quit s = s\<lparr>ticking := False\<rparr>"
| "spec_command Kick s = s\<lparr>kicks := kicks s + 1\<rparr>"
| "spec_command Start s = s\<lparr>ticking := True\<rparr>"
| "spec_command Enable s =
    (if switchable s then s\<lparr>reported := if bits_set s then WD_STATE_ENABLED else WD_STATE_DISABLED\<rparr> else s)"
| "spec_command Disable s = (if switchable s then s\<lparr>reported := WD_STATE_DISABLED\<rparr> else s)"

definition spec_line :: "wd_spec \<Rightarrow> u8 list" where
  "spec_line s = [0x74, 0x3d, if ticking s then 0x31 else 0x30, 0x20, 0x73, 0x3d, wd_state_char (reported s), 0x0a]"

fun wd_spec_call :: "wd_sys \<Rightarrow> wd_spec \<Rightarrow> (int \<times> u8 list) \<times> wd_spec" where
  "wd_spec_call (Wd_open fd) s =
    (if unread s fd \<noteq> None then ((- EBADF, []), s) else ((0, []), s\<lparr>unread := (unread s)(fd \<mapsto> True)\<rparr>))"
| "wd_spec_call (Wd_write fd data len) s =
    (if unread s fd = None then ((- EBADF, []), s)
     else case data of
       None \<Rightarrow> ((- EFAULT, []), s)
     | Some c \<Rightarrow>
         (case wd_command c of
            None \<Rightarrow> ((- EINVAL, []), s)
          | Some cmd \<Rightarrow> ((int (unat len), []), spec_command cmd s)))"
| "wd_spec_call (Wd_read fd ulen len) s =
    (case unread s fd of
       None \<Rightarrow> ((- EBADF, []), s)
     | Some False \<Rightarrow> ((0, []), s)
     | Some True \<Rightarrow>
         ((if 8 \<le> ulen then 8 else - EFAULT, take ulen (spec_line s)), s\<lparr>unread := (unread s)(fd \<mapsto> False)\<rparr>))"
| "wd_spec_call (Wd_lseek fd) s = (if unread s fd = None then ((- EBADF, []), s) else ((- ESPIPE, []), s))"
| "wd_spec_call (Wd_close fd) s =
    (if unread s fd = None then ((- EBADF, []), s) else ((0, []), s\<lparr>unread := (unread s)(fd := None)\<rparr>))"
| "wd_spec_call Wd_timer s =
    ((0, []), if \<not> ticking s then s else if through_worker s then s\<lparr>owed := True\<rparr> else s\<lparr>kicks := kicks s + 1\<rparr>)"
| "wd_spec_call Wd_worker s = ((0, []), if owed s then s\<lparr>owed := False, kicks := kicks s + 1\<rparr> else s)"

fun wd_spec_calls :: "wd_sys list \<Rightarrow> wd_spec \<Rightarrow> (int \<times> u8 list) list \<times> wd_spec" where
  "wd_spec_calls [] s = ([], s)"
| "wd_spec_calls (e # es) s = (let (r, s) = wd_spec_call e s; (rs, s) = wd_spec_calls es s in (r # rs, s))"

lemma spec_command_target: "target (spec_command cmd s) = target s"
  by (cases cmd) simp_all

lemma spec_target: "target (snd (wd_spec_call e s)) = target s"
  by (cases e) (simp_all add: spec_command_target split: option.splits bool.splits)

lemma spec_calls_target: "target (snd (wd_spec_calls es s)) = target s"
  by (induction es arbitrary: s) (simp_all add: case_prod_beta Let_def spec_target)

section \<open>The hardware\<close>

text \<open>Registers that hold what is written to them, with the list of the byte writes that reached them.\<close>

locale watched_bus = io_memory bus for bus :: "'io iobus" +
  fixes trace :: "'io \<Rightarrow> (u32 \<times> u8) list"
  assumes trace_write: "trace (raw_writeb bus v a m) = trace m @ [(a, v)]"

definition kick_reg :: "'io dev_watchdog \<Rightarrow> u32 \<times> u8" where
  "kick_reg w = (reg_base w + props w ! WD_PROP_KICK_OFFSET, ucast (props w ! WD_PROP_KICK_VALUE))"

definition wd_abs :: "('io \<Rightarrow> (u32 \<times> u8) list) \<Rightarrow> 'io wd_session \<Rightarrow> wd_spec" where
  "wd_abs trace s = (let w = wdog s in
     \<lparr>ticking = timer_running w, owed = work_pending w, reported = wd_state w, unread = handles s,
      kicks = count_list (trace (io (ga w))) (kick_reg w), through_worker = use_workqueue w,
      switchable = wd_has_enable w, bits_set = wd_bits w \<noteq> 0, target = kick_reg w\<rparr>)"

text \<open>In use: no lock is held, the timer is queued exactly while the flag is set, and the registers differ.\<close>

definition wd_in_use :: "'io dev_watchdog \<Rightarrow> bool" where
  "wd_in_use w \<longleftrightarrow> lock_free (ga w) \<and> unhooked (ga w) \<and> timer_pending w = timer_running w \<and> misc_live w \<and> wd_bound w \<and>
     (use_workqueue w \<longrightarrow> workqueue w \<noteq> None) \<and>
     (wd_has_enable w \<longrightarrow> props w ! WD_PROP_ENABLE_OFFSET \<noteq> props w ! WD_PROP_KICK_OFFSET)"

lemmas access_defs = dev_write_def dev_read_def dev_read_modify_write_def ga_reg_write8_def ga_reg_read8_def
  locked_def LOCK_def UNLOCK_def ga_reg_update_def ga_reg_fetch_def ga_raw_writeb_def ga_raw_readb_def full_masks

lemma unhooked_ops:
  "unhooked g \<longleftrightarrow> op_read8 (ga_ops (addr_info g)) = None \<and> op_write8 (ga_ops (addr_info g)) = None"
  by (simp add: unhooked_def Option.is_none_def)

lemma in_use_io: "lock_free (g\<lparr>io := m\<rparr>) = lock_free g" "unhooked (g\<lparr>io := m\<rparr>) = unhooked g"
  by (simp_all add: lock_free_def unhooked_def)

lemmas in_use_simps = wd_in_use_def wd_bound_def in_use_io
lemmas abs_simps = wd_abs_def Let_def kick_reg_def wd_has_enable_def wd_bits_def

context watched_bus
begin

lemma write_io:
  assumes "lock_free g" and "unhooked g"
  shows "dev_write bus a v g = Some (GA_MODIFIED_MAYBE, g\<lparr>io := raw_writeb bus v a (io g)\<rparr>)"
  using assms by (cases g) (simp add: access_defs lock_free_def unhooked_ops split: if_splits)

lemma read_io:
  assumes "lock_free g" and "unhooked g"
  shows "dev_read bus a g = Some (fst (raw_readb bus a (io g)), g)"
  using assms readb_pure [of a "io g"]
  by (cases g) (auto simp: access_defs lock_free_def unhooked_ops split: if_splits prod.splits)

lemma rmw_io:
  assumes "lock_free g" and "unhooked g"
  shows "\<exists>r. dev_read_modify_write bus a m v g =
    Some (r, g\<lparr>io := raw_writeb bus (merge_bits (fst (raw_readb bus a (io g))) m v) a (io g)\<rparr>)"
  using assms readb_pure [of a "io g"]
  by (cases g; cases "m = - 1") (auto simp: access_defs lock_free_def unhooked_ops merge_bits_def Let_def split: if_splits prod.splits)

text \<open>A kick is one write to the kick register.\<close>

lemma kick_io:
  assumes "wd_in_use w"
  shows "dev_watchdog_kick bus w = Some (w\<lparr>ga := (ga w)\<lparr>io := raw_writeb bus (snd (kick_reg w)) (fst (kick_reg w)) (io (ga w))\<rparr>\<rparr>)"
  using assms by (simp add: dev_watchdog_kick_def wd_in_use_def write_io kick_reg_def)

lemma kick_counted: "count_list (trace (raw_writeb bus (snd k) (fst k) m)) k = Suc (count_list (trace m) k)"
  by (simp add: trace_write)

text \<open>The enable and disable commands leave the kick register alone, and report what was commanded.\<close>

lemma enable_io:
  assumes "wd_in_use w"
  shows "\<exists>m. dev_watchdog_enable bus en w = Some (if wd_has_enable w
      then w\<lparr>ga := (ga w)\<lparr>io := m\<rparr>, wd_state := if en \<and> wd_bits w \<noteq> 0 then WD_STATE_ENABLED else WD_STATE_DISABLED\<rparr>
      else w) \<and> count_list (trace m) (kick_reg w) = count_list (trace (io (ga w))) (kick_reg w)"
proof (cases "wd_has_enable w")
  case True
  define a where "a = reg_base w + props w ! WD_PROP_ENABLE_OFFSET"
  define v where "v = (if en then ucast (props w ! WD_PROP_ENABLE_VALUE) else 0 :: u8)"
  define new where "new = merge_bits (fst (raw_readb bus a (io (ga w)))) (wd_bits w) v"
  define g where "g = (ga w)\<lparr>io := raw_writeb bus new a (io (ga w))\<rparr>"
  have lu: "lock_free (ga w)" "unhooked (ga w)" using assms by (simp_all add: wd_in_use_def)
  obtain r where r: "dev_read_modify_write bus a (wd_bits w) v (ga w) = Some (r, g)"
    using rmw_io [OF lu] unfolding g_def new_def by blast
  have rd: "dev_read bus a g = Some (new, g)"
    unfolding g_def by (subst read_io) (simp_all add: in_use_io lu readb_writeb)
  have "new AND wd_bits w = (if en then wd_bits w else 0)"
    unfolding new_def v_def by (rule bit_word_eqI) (auto simp: merge_bits_def wd_bits_def bit_simps)
  then have st: "ucast new AND props w ! WD_PROP_ENABLE_VALUE \<noteq> 0 \<longleftrightarrow> en \<and> wd_bits w \<noteq> 0"
    by (simp add: ucast_and_u8 wd_bits_def [symmetric])
  have "dev_watchdog_enable bus en w = wd_read_state bus (w\<lparr>ga := g\<rparr>)"
    using True r by (simp add: dev_watchdog_enable_def a_def v_def wd_bits_def)
  also have "\<dots> = Some (w\<lparr>ga := g, wd_state := if en \<and> wd_bits w \<noteq> 0 then WD_STATE_ENABLED else WD_STATE_DISABLED\<rparr>)"
    using rd st by (simp add: wd_read_state_def a_def)
  finally have e: "dev_watchdog_enable bus en w = \<dots>" .
  have "(a, new) \<noteq> kick_reg w" using True assms by (auto simp: wd_in_use_def kick_reg_def a_def)
  then have "count_list (trace (io g)) (kick_reg w) = count_list (trace (io (ga w))) (kick_reg w)"
    by (simp add: trace_write g_def)
  with True e show ?thesis by (intro exI [of _ "io g"]) (simp add: g_def)
qed (auto simp: dev_watchdog_enable_def)

lemma command_refines:
  assumes "wd_in_use w" and "wdog s = w"
  shows "\<exists>w'. (case cmd of Quit \<Rightarrow> Some (dev_watchdog_stop w) | Kick \<Rightarrow> dev_watchdog_kick bus w
        | Start \<Rightarrow> Some (dev_watchdog_start w) | Enable \<Rightarrow> dev_watchdog_enable bus True w
        | Disable \<Rightarrow> dev_watchdog_enable bus False w) = Some w' \<and>
      wd_in_use w' \<and> wd_abs trace (s\<lparr>wdog := w'\<rparr>) = spec_command cmd (wd_abs trace s)"
proof (cases cmd)
  case Quit
  with assms show ?thesis
    by (simp add: dev_watchdog_stop_def abs_simps in_use_simps)
next
  case Start
  with assms show ?thesis
    by (simp add: dev_watchdog_start_def abs_simps in_use_simps)
next
  case Kick
  with assms kick_io [OF assms(1)] kick_counted [of "kick_reg w"] show ?thesis
    by (simp add: abs_simps in_use_simps)
next
  case Enable
  obtain m where "dev_watchdog_enable bus True w = Some (if wd_has_enable w
      then w\<lparr>ga := (ga w)\<lparr>io := m\<rparr>, wd_state := if wd_bits w \<noteq> 0 then WD_STATE_ENABLED else WD_STATE_DISABLED\<rparr>
      else w)" "count_list (trace m) (kick_reg w) = count_list (trace (io (ga w))) (kick_reg w)"
    using enable_io [OF assms(1), of True] by (simp only: simp_thms) blast
  with assms Enable show ?thesis
    by (simp add: abs_simps in_use_simps)
next
  case Disable
  obtain m where "dev_watchdog_enable bus False w = Some (if wd_has_enable w
      then w\<lparr>ga := (ga w)\<lparr>io := m\<rparr>, wd_state := WD_STATE_DISABLED\<rparr> else w)"
    "count_list (trace m) (kick_reg w) = count_list (trace (io (ga w))) (kick_reg w)"
    using enable_io [OF assms(1), of False] by (simp only: simp_thms if_False) blast
  with assms Disable show ?thesis
    by (simp add: abs_simps in_use_simps)
qed

lemmas table_simps = dev_watchdog_miscdev_def dev_watchdog_fops_def

lemma write_refines:
  assumes "wd_in_use (wdog s)"
  shows "\<exists>s'. wd_call bus (Wd_write fd data len) s = Some (fst (wd_spec_call (Wd_write fd data len) (wd_abs trace s)), s') \<and>
    wd_abs trace s' = snd (wd_spec_call (Wd_write fd data len) (wd_abs trace s)) \<and> wd_in_use (wdog s')"
proof -
  have h: "unread (wd_abs trace s) = handles s" by (simp add: wd_abs_def Let_def)
  show ?thesis
  proof (cases "\<exists>c cmd. handles s fd \<noteq> None \<and> data = Some c \<and> wd_command c = Some cmd")
    case True
    then obtain c cmd where c: "handles s fd \<noteq> None" "data = Some c" "wd_command c = Some cmd" by blast
    from command_refines [OF assms refl, of cmd] obtain w where
      "dev_watchdog_write bus data len (wdog s) = Some (int (unat len), w)"
      "wd_in_use w" "wd_abs trace (s\<lparr>wdog := w\<rparr>) = spec_command cmd (wd_abs trace s)"
      using c by (auto simp: dev_watchdog_write_def)
    with c h show ?thesis by (auto simp: table_simps)
  next
    case False
    with assms h show ?thesis
      by (auto simp: table_simps dev_watchdog_write_def split: option.splits)
  qed
qed

lemma call_refines:
  assumes "wd_in_use (wdog s)"
  shows "\<exists>s'. wd_call bus e s = Some (fst (wd_spec_call e (wd_abs trace s)), s') \<and>
    wd_abs trace s' = snd (wd_spec_call e (wd_abs trace s)) \<and> wd_in_use (wdog s')"
proof (cases e)
  case (Wd_open fd)
  with assms show ?thesis by (auto simp: table_simps dev_watchdog_open_def abs_simps in_use_simps)
next
  case (Wd_read fd ulen len)
  with assms show ?thesis
    by (auto simp: table_simps dev_watchdog_read_def abs_simps wd_status_line_def spec_line_def copy_to_user_def
        split: option.splits bool.splits)
next
  case Wd_timer
  show ?thesis
  proof (cases "timer_running (wdog s)")
    case True
    from True Wd_timer assms kick_counted [of "kick_reg (wdog s)"] show ?thesis
      by (auto simp: dev_watchdog_timeout_def dev_watchdog_start_def dev_watchdog_kick_def write_io abs_simps in_use_simps)
  next
    case False
    with Wd_timer assms show ?thesis by (simp add: abs_simps in_use_simps)
  qed
next
  case Wd_worker
  with assms kick_counted [of "kick_reg (wdog s)"] show ?thesis
    by (auto simp: dev_watchdog_work_def dev_watchdog_kick_def write_io abs_simps in_use_simps)
next
  case (Wd_close fd)
  with assms show ?thesis by (auto simp: table_simps dev_watchdog_release_def abs_simps split: option.splits)
next
  case (Wd_lseek fd)
  with assms show ?thesis by (auto simp: table_simps no_llseek_def abs_simps split: option.splits)
qed (use write_refines [OF assms] in simp)

lemma calls_refine:
  assumes "wd_in_use (wdog s)"
  shows "\<exists>s'. serially (wd_call bus) es s = Some (fst (wd_spec_calls es (wd_abs trace s)), s') \<and>
    wd_abs trace s' = snd (wd_spec_calls es (wd_abs trace s)) \<and> wd_in_use (wdog s')"
  using assms
proof (induction es arbitrary: s)
  case (Cons e es)
  then obtain x where x: "wd_call bus e s = Some (fst (wd_spec_call e (wd_abs trace s)), x)"
    "wd_abs trace x = snd (wd_spec_call e (wd_abs trace s))" "wd_in_use (wdog x)"
    using call_refines [of s e] by blast
  with Cons.IH [OF x(3)] show ?case by (auto simp: case_prod_beta Let_def)
qed simp

text \<open>\<^verbatim>\<open>remove\<close> runs the work that is still queued: at most one last kick.\<close>

lemma remove_refines:
  assumes "wd_in_use w"
  shows "\<exists>w'. dev_watchdog_remove bus w = Some (0, w') \<and> wd_clean w' \<and>
    count_list (trace (io (ga w'))) (kick_reg w) = count_list (trace (io (ga w))) (kick_reg w) + of_bool (work_pending w)"
proof -
  have k: "dev_watchdog_kick bus (w\<lparr>timer_running := False, timer_pending := False\<rparr>) =
      Some (w\<lparr>timer_running := False, timer_pending := False,
        ga := (ga w)\<lparr>io := raw_writeb bus (snd (kick_reg w)) (fst (kick_reg w)) (io (ga w))\<rparr>\<rparr>)"
    using assms by (simp add: dev_watchdog_kick_def wd_in_use_def write_io kick_reg_def)
  show ?thesis
    using assms k kick_counted [of "kick_reg w"]
    by (cases "workqueue w") (auto simp: dev_watchdog_remove_def dev_watchdog_stop_def destroy_workqueue_def
        dev_watchdog_work_def wd_clean_def in_use_simps Let_def)
qed

lemma read_enable_io:
  assumes "lock_free (ga w)" and "unhooked (ga w)" and "dev_watchdog_read_enable bus w = Some w'"
  shows "ga w' = ga w \<and> timer_running w' = timer_running w \<and> timer_pending w' = timer_pending w \<and>
    use_workqueue w' = use_workqueue w"
  using assms by (auto simp: dev_watchdog_read_enable_def wd_read_state_def Let_def read_io split: if_splits)

lemma probe_in_use:
  assumes "wd_clean s" and "workqueue s = None" and "lock_free (ga s)" and "unhooked (ga s)"
    and "dev_watchdog_probe bus k s = Some (r, w)" and "0 \<le> r" and "new_wq k \<noteq> None"
    and "wd_has_enable w \<longrightarrow> props w ! WD_PROP_ENABLE_OFFSET \<noteq> props w ! WD_PROP_KICK_OFFSET"
  shows "wd_in_use w \<and> \<not> timer_running w \<and> \<not> work_pending w \<and> io (ga w) = io (ga s)"
proof -
  obtain e ps where p: "wd_get_props k 0 watchdog_props (props s) = (e, ps)" by (metis surj_pair)
  have e: "e = 0 \<or> e = - EINVAL"
    using p by (auto simp: watchdog_props_def split: option.splits if_splits)
  from assms(7) obtain q where q: "new_wq k = Some q" by blast
  let ?w = "s\<lparr>reg_base := of_iomap k, io_maps := Suc (io_maps s), props := ps, misc_live := True, misc_registered := True,
    use_workqueue := use_workqueue s \<or> of_use_wq k, workqueue := Some q, live_wqs := q # live_wqs s\<rparr>"
  have "dev_watchdog_read_enable bus ?w = Some w" "of_iomap k \<noteq> 0"
    using assms(1,2,5,6) p e q
    by (auto simp: dev_watchdog_probe_def wd_fail_def Let_def wd_clean_def split: if_splits)
  with assms(1-4,8) read_enable_frame [of bus ?w w] read_enable_io [of ?w w] show ?thesis
    by (auto simp: wd_clean_def in_use_simps)
qed

end

text \<open>Memory that records the byte writes.\<close>

definition traced_ram :: "((u32 \<Rightarrow> u8) \<times> (u32 \<times> u8) list) iobus" where
  "traced_ram = \<lparr>
     raw_readb = (\<lambda>a (m, t). (m a, m, t)),
     raw_writeb = (\<lambda>v a (m, t). (m(a := v), t @ [(a, v)])),
     raw_readw = (\<lambda>a (m, t). (fst (raw_readw ram_bus a m), m, t)),
     raw_writew = (\<lambda>v a (m, t). (raw_writew ram_bus v a m, t)),
     raw_readl = (\<lambda>a (m, t). (fst (raw_readl ram_bus a m), m, t)),
     raw_writel = (\<lambda>v a (m, t). (raw_writel ram_bus v a m, t)),
     virt_to_phys = Some\<rparr>"

interpretation traced: watched_bus traced_ram snd
  by unfold_locales (auto simp: traced_ram_def ram.readw_writew ram.readl_writel split: prod.splits)

section \<open>From probe to remove\<close>


text \<open>
  The witness: kick register 0x1010 with value 0x55, kicks through the worker. A user starts the kicking; two ticks, the
  worker between them; the status line; and an unknown command. The second tick's kick is made by \<^verbatim>\<open>remove\<close>.
\<close>

definition wd_wq_kernel :: wd_kernel where
  "wd_wq_kernel = \<lparr>of_iomap = 0x1000,
     of_prop = (\<lambda>n. if n = ''reg-kick-offset'' then Some (0x10, 4) else if n = ''reg-kick-value'' then Some (0x55, 4) else None),
     wd_misc_ret = 0, of_use_wq = True, new_wq = Some 1\<rparr>"

definition wd_traced :: "((u32 \<Rightarrow> u8) \<times> (u32 \<times> u8) list) dev_watchdog" where
  "wd_traced = \<lparr>workqueue = None, reg_base = 0, use_workqueue = False, props = [0, 0, 0, 0], misc_registered = False,
     timer_running = False, wd_state = WD_STATE_UNKNOWN, timer_pending = False, work_pending = False, live_wqs = [],
     io_maps = 0, misc_live = False, wq_fault = False,
     ga = \<lparr>addr_info = no_info, ga_lock_mode = GA_LM_SPINLOCK, ga_spinlock = False, ga_mutex = False, io = (\<lambda>_. 0, [])\<rparr>\<rparr>"


section \<open>The line that probe logs\<close>

text \<open>
  The loop of \<^verbatim>\<open>probe\<close> that collects the configured properties in \<^verbatim>\<open>str[256]\<close>: the length so far and the text, which is
  \<open>None\<close> while the array is uninitialised.
\<close>

definition wd_prop_text :: "string \<Rightarrow> u32 \<Rightarrow> string" where
  "wd_prop_text name v = '' '' @ name @ ''=0x'' @ radix 16 (unat v)"

fun wd_registered :: "((bool \<times> string) \<times> u32) list \<Rightarrow> nat \<times> string option \<Rightarrow> nat \<times> string option" where
  "wd_registered [] (len, str) = (len, str)"
| "wd_registered (((mandatory, name), v) # ps) (len, str) =
    (if v \<noteq> WD_PROP_NONE then
       (let text = wd_prop_text name v; old = (case str of None \<Rightarrow> [] | Some t \<Rightarrow> take len t) in
        wd_registered ps (len + length text, Some (old @ snprintf_str (256 - len - 1) text)))
     else wd_registered ps (len, str))"

definition wd_probe_log :: "'io dev_watchdog \<Rightarrow> string option" where
  "wd_probe_log s = snd (wd_registered (zip watchdog_props (props s)) (0, None))"

lemma prop_text_length: "length (wd_prop_text name v) \<le> length name + 12"
proof -
  have "unat v < 2 ^ 32" using unsigned_less [of v, where ?'a = nat] by simp
  then have "length (radix 16 (unat v)) \<le> 8" by (intro length_radix) simp_all
  then show ?thesis by (simp add: wd_prop_text_def)
qed

text \<open>While it fits, the text is the concatenation; it stays uninitialised if no property is given.\<close>

lemma registered_fits:
  assumes "length t + sum_list (map (\<lambda>p. length (snd (fst p)) + 12) ps) < 254"
    and "str = None \<and> t = [] \<or> str = Some t"
  shows "snd (wd_registered ps (length t, str)) =
    (let qs = filter (\<lambda>p. snd p \<noteq> WD_PROP_NONE) ps in
     if qs = [] then str else Some (t @ concat (map (\<lambda>p. wd_prop_text (snd (fst p)) (snd p)) qs)))"
  using assms
proof (induction ps arbitrary: t str)
  case (Cons p ps)
  obtain b name v where p: "p = ((b, name), v)" by (metis surj_pair)
  show ?case
  proof (cases "v = WD_PROP_NONE")
    case True
    with Cons p show ?thesis by simp
  next
    case False
    let ?x = "wd_prop_text name v"
    have l: "length ?x \<le> length name + 12" by (rule prop_text_length)
    have old: "(case str of None \<Rightarrow> [] | Some u \<Rightarrow> take (length t) u) = t" using Cons.prems(2) by auto
    have fit: "take (255 - length t - 1) ?x = ?x" using l Cons.prems(1) p by simp
    have "length (t @ ?x) + sum_list (map (\<lambda>p. length (snd (fst p)) + 12) ps) < 254"
      using l Cons.prems(1) p by simp
    from Cons.IH [OF this, of "Some (t @ ?x)"] False old fit p show ?thesis
      by (simp add: snprintf_str_def Let_def)
  qed
qed auto

text \<open>
  The array is large enough for every configuration; but when each property is present with the value
  \<^verbatim>\<open>0xffffffff\<close>, which the driver takes for an absent one, the uninitialised array is logged.
\<close>

theorem wd_probe_log_text:
  assumes "length (props s) = WD_PROP_COUNT"
  shows "wd_probe_log s =
    (let qs = filter (\<lambda>p. snd p \<noteq> WD_PROP_NONE) (zip watchdog_props (props s)) in
     if qs = [] then None else Some (concat (map (\<lambda>p. wd_prop_text (snd (fst p)) (snd p)) qs)))"
proof -
  obtain a b c d where "props s = [a, b, c, d]" using assms by (auto simp: numeral_eq_Suc length_Suc_conv)
  then have "sum_list (map (\<lambda>p. length (snd (fst p)) + 12) (zip watchdog_props (props s))) < 254"
    by (simp add: watchdog_props_def)
  with registered_fits [of "[]" "zip watchdog_props (props s)" None] show ?thesis
    by (simp add: wd_probe_log_def Let_def)
qed

end
