(* ===== verification/Firmware.thy ===== *)
theory Firmware
  imports Ldd_Prelude
begin

text \<open>
  Firmware loading, \<^verbatim>\<open>src/memloader/firmware.c\<close>: the context with its state machine, the load
  procedure with the driver's callbacks and the loop over the blocks, cancellation from another
  task, the sysfs attributes, and the initialisation from the device tree. The callbacks, the
  answer of \<^verbatim>\<open>request_firmware\<close>, the number parser \<^verbatim>\<open>simple_strtol\<close> and the device tree are
  parameters.
\<close>

section \<open>The context\<close>

datatype fw_state = FW_EMPTY | FW_LOADING | FW_LOADED | FW_FAILED | FW_DELETED

text \<open>\<^verbatim>\<open>struct firmware\<close>: the size, the mapped data if any, and the pages if any.\<close>

record firmware =
  fw_size :: nat
  fw_data :: "u8 list option"
  fw_pages :: "u8 list list option"

text \<open>
  \<^verbatim>\<open>struct fw_context\<close>, with the data \<open>'d\<close> of the driver that embeds it. Counters are C integers.
\<close>

record 'd fw_context =
  drv :: 'd
  ctx_fw :: "firmware option"
  ctx_data :: "u8 list option"
  total_count :: int
  current_count :: int
  devicemask :: int
  blockread :: int
  blocksize :: int
  blockdelay :: int
  has_dev :: bool
  filename :: string
  fstate :: fw_state
  kobj_init :: bool
  kobj_added :: bool

text \<open>The callbacks see the context read-only and change the driver's data.\<close>

record 'd fw_callbacks =
  cb_start :: "('d fw_context \<Rightarrow> int \<times> 'd) option"
  cb_write :: "('d fw_context \<Rightarrow> int \<times> 'd) option"
  cb_read :: "('d fw_context \<Rightarrow> int \<times> 'd) option"
  cb_end :: "('d fw_context \<Rightarrow> bool \<Rightarrow> int \<times> 'd) option"

text \<open>A C \<^verbatim>\<open>int\<close> from a wider integer: the low 32 bits, signed.\<close>

definition to_int32 :: "int \<Rightarrow> int" where
  "to_int32 x = signed_take_bit 31 x"

section \<open>Loading\<close>

text \<open>
  Another task may change the state at any time, to cancel: \<open>env i\<close> is what happened before the
  \<open>i\<close>-th test of the loop condition.
\<close>

definition interfere :: "fw_state option \<Rightarrow> 'd fw_context \<Rightarrow> 'd fw_context" where
  "interfere e ctx = (case e of None \<Rightarrow> ctx | Some st \<Rightarrow> ctx\<lparr>fstate := st\<rparr>)"

text \<open>
  The loop: \<open>pr\<close> is \<^verbatim>\<open>prev_read_count\<close> and \<open>cc\<close> is \<^verbatim>\<open>curr_count\<close>. The pauses between blocks
  (\<^verbatim>\<open>usleep_range\<close> and \<^verbatim>\<open>prev_delay_count\<close>) change nothing and are left out. Each round writes at
  least one byte, so the loop ends.
\<close>

function fw_loop :: "('d fw_context \<Rightarrow> int \<times> 'd) \<Rightarrow> ('d fw_context \<Rightarrow> int \<times> 'd) option \<Rightarrow>
    (nat \<Rightarrow> fw_state option) \<Rightarrow> nat \<Rightarrow> int \<Rightarrow> int \<Rightarrow> int \<Rightarrow> 'd fw_context \<Rightarrow> int \<times> 'd fw_context" where
  "fw_loop write read env i pr cc ret ctx =
    (let ctx = interfere (env i) ctx
     in if \<not> (current_count ctx < total_count ctx \<and> fstate ctx = FW_LOADING) then (ret, ctx)
        else
          let (ret, d) = write ctx; ctx = ctx\<lparr>drv := d\<rparr>
          in if ret \<le> 0 then (ret, ctx)
             else
               let ctx = ctx\<lparr>current_count := current_count ctx + ret\<rparr>; cc = cc + ret
               in (case read of
                     None \<Rightarrow> fw_loop write read env (Suc i) pr cc ret ctx
                   | Some rd \<Rightarrow>
                       if 0 < blockread ctx \<and> blockread ctx \<le> cc - pr then
                         (let (ret, d) = rd ctx; ctx = ctx\<lparr>drv := d\<rparr>
                          in if ret < 0 then (ret, ctx)
                             else fw_loop write read env (Suc i) cc cc ret ctx)
                       else fw_loop write read env (Suc i) pr cc ret ctx))"
  by pat_completeness auto

lemma interfere_fields [simp]:
  "current_count (interfere e ctx) = current_count ctx" "total_count (interfere e ctx) = total_count ctx"
  "drv (interfere e ctx) = drv ctx" "blockread (interfere e ctx) = blockread ctx"
  "blocksize (interfere e ctx) = blocksize ctx" "ctx_data (interfere e ctx) = ctx_data ctx"
  "ctx_fw (interfere e ctx) = ctx_fw ctx"
  "interfere None ctx = ctx"
  by (auto simp: interfere_def split: option.splits)

termination fw_loop
  by (relation "measure (\<lambda>(write, read, env, i, pr, cc, ret, ctx). nat (total_count ctx - current_count ctx))")
    auto

declare fw_loop.simps [simp del]

text \<open>The start callback, and the loop, which runs when the start did not fail.\<close>

definition fw_run_start :: "'d fw_callbacks \<Rightarrow> int \<Rightarrow> 'd fw_context \<Rightarrow> int \<times> 'd fw_context" where
  "fw_run_start cb ret ctx =
    (case cb_start cb of
       None \<Rightarrow> (ret, ctx)
     | Some start \<Rightarrow> (let (ret, d) = start ctx in (ret, ctx\<lparr>drv := d\<rparr>)))"

definition fw_run_write ::
    "'d fw_callbacks \<Rightarrow> (nat \<Rightarrow> fw_state option) \<Rightarrow> int \<Rightarrow> 'd fw_context \<Rightarrow> int \<times> 'd fw_context" where
  "fw_run_write cb env ret ctx =
    (case cb_write cb of
       None \<Rightarrow> (ret, ctx)
     | Some write \<Rightarrow>
         if 0 \<le> ret then fw_loop write (cb_read cb) env 0 0 0 ret (ctx\<lparr>current_count := 0\<rparr>)
         else (ret, ctx))"

text \<open>
  The rest: a failure is recorded, the end callback is told whether to expect a complete load and
  its result replaces the previous one, and the state decides what is returned.
\<close>

definition fw_run_end :: "'d fw_callbacks \<Rightarrow> int \<Rightarrow> 'd fw_context \<Rightarrow> int \<times> 'd fw_context" where
  "fw_run_end cb ret ctx =
    (let ctx = (if ret < 0 then ctx\<lparr>fstate := FW_FAILED\<rparr> else ctx)
     in case cb_end cb of
          None \<Rightarrow> (ret, ctx)
        | Some endf \<Rightarrow>
            (let (ret, d) = endf ctx (fstate ctx \<noteq> FW_LOADING); ctx = ctx\<lparr>drv := d\<rparr>
             in (ret, if ret < 0 then ctx\<lparr>fstate := FW_FAILED\<rparr> else ctx)))"

fun fw_conclude :: "int \<times> 'd fw_context \<Rightarrow> int \<times> 'd fw_context" where
  "fw_conclude (ret, ctx) =
    (case fstate ctx of
       FW_LOADING \<Rightarrow> (0, ctx\<lparr>fstate := FW_LOADED\<rparr>)
     | FW_EMPTY \<Rightarrow> (- EIO, ctx)
     | FW_DELETED \<Rightarrow> (- EIO, ctx)
     | FW_FAILED \<Rightarrow> (ret, ctx)
     | FW_LOADED \<Rightarrow> (ret, ctx\<lparr>fstate := FW_EMPTY\<rparr>))"

text \<open>
  The load procedure. \<open>lock\<close> is \<^verbatim>\<open>serial_lock\<close>; waiting for it gives \<open>None\<close>. \<open>req\<close> is the answer of
  \<^verbatim>\<open>request_firmware\<close>, \<open>env\<close> the interference during the loop and \<open>env_end\<close> the one after it. The
  result is the return value, the lock and the context. A cancellation between the end callback and
  the final \<^verbatim>\<open>switch\<close> is not modelled.
\<close>

definition fw_load_device_firmware ::
    "'d fw_callbacks \<Rightarrow> int \<times> firmware \<Rightarrow> (nat \<Rightarrow> fw_state option) \<Rightarrow> fw_state option \<Rightarrow> bool \<Rightarrow>
     bool \<Rightarrow> 'd fw_context \<Rightarrow> (int \<times> bool \<times> 'd fw_context) option" where
  "fw_load_device_firmware cb req env env_end load lock ctx =
    (if \<not> load then Some (0, lock, ctx\<lparr>fstate := FW_EMPTY\<rparr>)
     else if lock then None
     else if fstate ctx \<in> {FW_LOADING, FW_LOADED, FW_DELETED} then Some (- EINVAL, False, ctx)
     else
       let ctx = ctx\<lparr>fstate := FW_LOADING, current_count := 0, total_count := 0\<rparr>;
           (ret, fw) = req
       in if ret \<noteq> 0 then Some (ret, False, ctx\<lparr>fstate := FW_FAILED\<rparr>)
          else
            let ctx = ctx\<lparr>ctx_fw := Some fw, ctx_data := fw_data fw,
                          total_count := to_int32 (int (fw_size fw))\<rparr>;
                (ret, ctx) = fw_run_start cb ret ctx;
                (ret, ctx) = fw_run_write cb env ret ctx;
                (ret, ctx) = fw_conclude (fw_run_end cb ret (interfere env_end ctx))
            in Some (ret, False, ctx))"

section \<open>Attributes\<close>

text \<open>The number parser \<open>strtol base str\<close> is the kernel's \<^verbatim>\<open>simple_strtol\<close>, of type \<^verbatim>\<open>long\<close> (32 bits).\<close>

type_synonym strtol = "nat \<Rightarrow> string \<Rightarrow> int"

definition fw_load_firmware ::
    "strtol \<Rightarrow> 'd fw_callbacks \<Rightarrow> int \<times> firmware \<Rightarrow> (nat \<Rightarrow> fw_state option) \<Rightarrow> fw_state option \<Rightarrow>
     string \<Rightarrow> bool \<Rightarrow> 'd fw_context \<Rightarrow> (int \<times> bool \<times> 'd fw_context) option" where
  "fw_load_firmware strtol cb req env env_end buf lock ctx =
     fw_load_device_firmware cb req env env_end (to_int32 (strtol 10 buf) \<noteq> 0) lock ctx"

definition fw_space :: "char \<Rightarrow> bool" where
  "fw_space c \<longleftrightarrow> c = CHR 0x0D \<or> c = CHR 0x0A \<or> c = CHR 0x09 \<or> c = CHR '' ''"

text \<open>The loop of \<^verbatim>\<open>fw_set_filename\<close> from the last character down: the length that is kept.\<close>

fun strip_len :: "string \<Rightarrow> nat \<Rightarrow> nat" where
  "strip_len buf 0 = 0"
| "strip_len buf (Suc n) = (if fw_space (buf ! n) then strip_len buf n else Suc n)"

abbreviation FILENAME_SIZE :: nat where "FILENAME_SIZE \<equiv> 32"

definition fw_set_filename :: "string \<Rightarrow> 'd fw_context \<Rightarrow> int \<times> 'd fw_context" where
  "fw_set_filename buf ctx =
    (let n = strip_len buf (length buf)
     in if n = 0 then (- EINVAL, ctx)
        else if FILENAME_SIZE \<le> n then (- EINVAL, ctx)
        else (0, ctx\<lparr>filename := take n buf\<rparr>))"

definition fw_set_blockread :: "strtol \<Rightarrow> string \<Rightarrow> 'd fw_context \<Rightarrow> int \<times> 'd fw_context" where
  "fw_set_blockread strtol buf ctx = (0, ctx\<lparr>blockread := to_int32 (strtol 10 buf)\<rparr>)"

definition fw_set_blocksize :: "strtol \<Rightarrow> string \<Rightarrow> 'd fw_context \<Rightarrow> int \<times> 'd fw_context" where
  "fw_set_blocksize strtol buf ctx = (0, ctx\<lparr>blocksize := to_int32 (strtol 10 buf)\<rparr>)"

definition fw_set_delay :: "strtol \<Rightarrow> string \<Rightarrow> 'd fw_context \<Rightarrow> int \<times> 'd fw_context" where
  "fw_set_delay strtol buf ctx = (0, ctx\<lparr>blockdelay := to_int32 (strtol 10 buf)\<rparr>)"

definition fw_set_devicemask :: "strtol \<Rightarrow> string \<Rightarrow> 'd fw_context \<Rightarrow> int \<times> 'd fw_context" where
  "fw_set_devicemask strtol buf ctx = (0, ctx\<lparr>devicemask := to_int32 (strtol 10 buf)\<rparr>)"

text \<open>
  \<^verbatim>\<open>fw_show\<close>, as the number or text it prints. The percentage is a 32-bit computation: the product
  wraps and the quotient rounds towards zero.
\<close>

datatype shown = Number int | Text string | Show_error int

definition c_div :: "int \<Rightarrow> int \<Rightarrow> int" where
  "c_div a b = sgn a * sgn b * (\<bar>a\<bar> div \<bar>b\<bar>)"

definition fw_progress_pct :: "int \<Rightarrow> int \<Rightarrow> int" where
  "fw_progress_pct cur tot = (if tot \<noteq> 0 then c_div (to_int32 (100 * cur)) tot else 0)"

fun fw_state_num :: "fw_state \<Rightarrow> int" where
  "fw_state_num FW_EMPTY = 0"
| "fw_state_num FW_LOADING = 1"
| "fw_state_num FW_LOADED = 2"
| "fw_state_num FW_FAILED = 3"
| "fw_state_num FW_DELETED = 4"

definition fw_show :: "string \<Rightarrow> 'd fw_context \<Rightarrow> shown" where
  "fw_show attr ctx =
    (if attr = ''state'' then Number (fw_state_num (fstate ctx))
     else if attr = ''filename'' then Text (filename ctx)
     else if attr = ''blockread'' then Number (blockread ctx)
     else if attr = ''blocksize'' then Number (blocksize ctx)
     else if attr = ''blockdelay'' then Number (blockdelay ctx)
     else if attr = ''devicemask'' then Number (devicemask ctx)
     else if attr = ''progress_pct'' then Number (fw_progress_pct (current_count ctx) (total_count ctx))
     else if attr = ''progress_size'' then Number (current_count ctx)
     else if attr = ''total_size'' then Number (total_count ctx)
     else Show_error (- EIO))"

text \<open>\<^verbatim>\<open>fw_store\<close> on a lock and a context.\<close>

definition fw_store ::
    "strtol \<Rightarrow> 'd fw_callbacks \<Rightarrow> int \<times> firmware \<Rightarrow> (nat \<Rightarrow> fw_state option) \<Rightarrow> fw_state option \<Rightarrow>
     string \<Rightarrow> string \<Rightarrow> bool \<Rightarrow> 'd fw_context \<Rightarrow> (int \<times> bool \<times> 'd fw_context) option" where
  "fw_store strtol cb req env env_end attr buf lock ctx =
    map_option (\<lambda>(ret, l, c). (if ret < 0 then ret else int (length buf), l, c))
      (if attr = ''state'' then fw_load_firmware strtol cb req env env_end buf lock ctx
       else let (ret, c) =
              (if attr = ''filename'' then fw_set_filename buf ctx
               else if attr = ''blockread'' then fw_set_blockread strtol buf ctx
               else if attr = ''blocksize'' then fw_set_blocksize strtol buf ctx
               else if attr = ''blockdelay'' then fw_set_delay strtol buf ctx
               else if attr = ''devicemask'' then fw_set_devicemask strtol buf ctx
               else (- EIO, ctx))
            in Some (ret, lock, c))"

section \<open>Initialisation\<close>

text \<open>The device-tree properties that are read, the target lookups, and the result of \<^verbatim>\<open>kobject_add\<close>.\<close>

record fw_tree =
  of_load :: bool
  of_target :: bool
  target_node :: bool
  target_device :: bool
  of_blockread :: "int option"
  of_blocksize :: "int option"
  of_blockdelay :: "int option"
  of_filename :: "string option"
  kobject_add_ret :: int

definition or_keep :: "int option \<Rightarrow> int \<Rightarrow> int" where
  "or_keep v x = (case v of None \<Rightarrow> x | Some y \<Rightarrow> to_int32 y)"

definition fw_get_parameters :: "fw_tree \<Rightarrow> 'd fw_context \<Rightarrow> int \<times> 'd fw_context" where
  "fw_get_parameters t ctx =
    (if \<not> of_load t then (0, ctx)
     else if of_target t \<and> (\<not> target_node t \<or> \<not> target_device t) then (- ENODEV, ctx)
     else
       let ctx = (if of_target t then ctx\<lparr>has_dev := True\<rparr> else ctx);
           ctx = ctx\<lparr>blockread := or_keep (of_blockread t) (blockread ctx),
                     blocksize := or_keep (of_blocksize t) (blocksize ctx),
                     blockdelay := or_keep (of_blockdelay t) (blockdelay ctx)\<rparr>
       in (case of_filename t of
             None \<Rightarrow> (1, ctx)
           | Some f \<Rightarrow>
               (let (ret, ctx) = fw_set_filename f ctx in if ret < 0 then (ret, ctx) else (1, ctx))))"

text \<open>The first initialisation of a context also initialises \<^verbatim>\<open>serial_lock\<close>, which all contexts share.\<close>

definition fw_initialize :: "fw_tree \<Rightarrow> bool \<Rightarrow> bool \<Rightarrow> 'd fw_context \<Rightarrow> int \<times> bool \<times> 'd fw_context" where
  "fw_initialize t dev_target lock ctx =
    (let ctx = ctx\<lparr>filename := ''fpga.bit'', blockread := 640, blocksize := 20, blockdelay := 10,
                   devicemask := 255, has_dev := dev_target, fstate := FW_EMPTY\<rparr>;
         (ret, ctx) = fw_get_parameters t ctx
     in if ret \<le> 0 then (ret, lock, ctx)
        else if \<not> has_dev ctx then (- ENODEV, lock, ctx)
        else
          let (lock, ctx) = (if \<not> kobj_init ctx then (False, ctx\<lparr>kobj_init := True\<rparr>) else (lock, ctx))
          in if \<not> kobj_added ctx then
               (if kobject_add_ret t \<noteq> 0 then (kobject_add_ret t, lock, ctx)
                else (0, lock, ctx\<lparr>kobj_added := True\<rparr>))
             else (0, lock, ctx))"

definition fw_cleanup :: "'d fw_context \<Rightarrow> 'd fw_context" where
  "fw_cleanup ctx = (if kobj_added ctx then ctx\<lparr>fstate := FW_DELETED, kobj_added := False\<rparr> else ctx)"

section \<open>Reasoning about the loop\<close>

text \<open>
  An invariant rule: what interference, a write of the device and a read of the device keep, the
  loop keeps.
\<close>

definition loop_cond :: "'d fw_context \<Rightarrow> bool" where
  "loop_cond ctx \<longleftrightarrow> current_count ctx < total_count ctx \<and> fstate ctx = FW_LOADING"

definition advance :: "int \<Rightarrow> 'd \<Rightarrow> 'd fw_context \<Rightarrow> 'd fw_context" where
  "advance r d ctx = ctx\<lparr>drv := d, current_count := current_count ctx + max r 0\<rparr>"

text \<open>One round: the loop ends, or the device is written; then it ends with an error, or goes on, perhaps after a read.\<close>

lemma fw_loop_round:
  assumes "fw_loop wr rdo env i pr cc ret ctx = (r, ctx')" and "c = interfere (env i) ctx"
  obtains (ends) "\<not> loop_cond c" "ctx' = c"
    | (failed) n d where "loop_cond c" "wr c = (n, d)" "ctx' = advance n d c"
    | (written) n d pr' cc' ret' where "loop_cond c" "wr c = (n, d)" "0 < n"
        "fw_loop wr rdo env (Suc i) pr' cc' ret' (advance n d c) = (r, ctx')"
    | (read_failed) n d f m d' where "loop_cond c" "wr c = (n, d)" "rdo = Some f" "f (advance n d c) = (m, d')"
        "ctx' = (advance n d c)\<lparr>drv := d'\<rparr>"
    | (read) n d f m d' pr' cc' ret' where "loop_cond c" "wr c = (n, d)" "0 < n" "rdo = Some f" "f (advance n d c) = (m, d')"
        "fw_loop wr rdo env (Suc i) pr' cc' ret' ((advance n d c)\<lparr>drv := d'\<rparr>) = (r, ctx')"
proof (cases "loop_cond c")
  case False
  with assms show ?thesis by (intro ends) (auto simp: fw_loop.simps [of wr] loop_cond_def Let_def)
next
  case True
  obtain n d where w: "wr c = (n, d)" by (metis surj_pair)
  show ?thesis
  proof (cases "n \<le> 0")
    case True
    with assms \<open>loop_cond c\<close> w show ?thesis
      by (intro failed [OF \<open>loop_cond c\<close> w]) (auto simp: fw_loop.simps [of wr] loop_cond_def Let_def advance_def max_def)
  next
    case False
    then have a: "advance n d c = c\<lparr>drv := d, current_count := current_count ctx + n\<rparr>" by (simp add: advance_def assms(2))
    have n: "0 < n" using False by simp
    note unf = fw_loop.simps [of wr _ _ i] loop_cond_def Let_def
    show ?thesis
    proof (cases rdo)
      case None
      with assms True False w a show ?thesis by (intro written [OF True w n]) (auto simp: unf)
    next
      case (Some f)
      obtain m d' where f: "f (advance n d c) = (m, d')" by (metis surj_pair)
      show ?thesis
        using written [OF True w n] read_failed [OF True w Some f] read [OF True w n Some f] assms True False w a f Some
        by (auto simp: unf split: if_splits)
    qed
  qed
qed

lemma fw_loop_invariant:
  assumes env: "\<And>i ctx. I ctx \<Longrightarrow> I (interfere (env i) ctx)"
    and wr: "\<And>ctx r d. I ctx \<Longrightarrow> loop_cond ctx \<Longrightarrow> wr ctx = (r, d) \<Longrightarrow> I (advance r d ctx)"
    and rd: "\<And>f ctx r d. rdo = Some f \<Longrightarrow> I ctx \<Longrightarrow> f ctx = (r, d) \<Longrightarrow> I (ctx\<lparr>drv := d\<rparr>)"
    and run: "fw_loop wr rdo env i pr cc ret ctx = (r, ctx')" and init: "I ctx"
  shows "I ctx'"
  using run init
proof (induction "nat (total_count ctx - current_count ctx)" arbitrary: i pr cc ret ctx
    rule: less_induct)
  case less
  let ?c = "interfere (env i) ctx"
  have I: "I ?c" using env less.prems(2) by blast
  have smaller: "nat (total_count (advance n d ?c) - current_count (advance n d ?c)) < nat (total_count ctx - current_count ctx)"
    "nat (total_count ((advance n d ?c)\<lparr>drv := d'\<rparr>) - current_count ((advance n d ?c)\<lparr>drv := d'\<rparr>)) <
      nat (total_count ctx - current_count ctx)"
    if "loop_cond ?c" "0 < n" for n d d'
    using that by (auto simp: advance_def loop_cond_def)
  from less.prems(1) refl show ?case
  proof (cases rule: fw_loop_round)
    case (written n d pr' cc' ret')
    from less.hyps [OF smaller(1) [OF written(1,3)] written(4) wr [OF I written(1,2)]] show ?thesis .
  next
    case (read n d f m d' pr' cc' ret')
    from less.hyps [OF smaller(2) [OF read(1,3)] read(6) rd [OF read(4) wr [OF I read(1,2)] read(5)]] show ?thesis .
  qed (use I wr rd in blast)+
qed

section \<open>The outcome of a load\<close>

definition cancels :: "fw_state option \<Rightarrow> bool" where
  "cancels e \<longleftrightarrow> e \<in> {None, Some FW_EMPTY, Some FW_DELETED}"

definition in_flight :: "'d fw_context \<Rightarrow> bool" where
  "in_flight ctx \<longleftrightarrow> fstate ctx \<in> {FW_LOADING, FW_EMPTY, FW_DELETED}"

lemma interfere_in_flight: "cancels e \<Longrightarrow> in_flight ctx \<Longrightarrow> in_flight (interfere e ctx)"
  by (auto simp: cancels_def interfere_def in_flight_def)

lemma fw_loop_in_flight:
  assumes "\<forall>i. cancels (env i)" and "in_flight ctx"
    and "fw_loop wr rdo env i pr cc ret ctx = (r, ctx')"
  shows "in_flight ctx'"
proof (rule fw_loop_invariant [where I = in_flight, OF _ _ _ assms(3,2)])
  show "in_flight (interfere (env i) c)" if "in_flight c" for i and c :: "'a fw_context"
    using interfere_in_flight assms(1) that by blast
qed (auto simp: in_flight_def advance_def)

text \<open>The part of a load after \<^verbatim>\<open>request_firmware\<close> has succeeded.\<close>

definition fw_accept :: "firmware \<Rightarrow> 'd fw_context \<Rightarrow> 'd fw_context" where
  "fw_accept fw ctx = ctx\<lparr>fstate := FW_LOADING, current_count := 0, ctx_fw := Some fw,
     ctx_data := fw_data fw, total_count := to_int32 (int (fw_size fw))\<rparr>"

lemma fw_load_accepted:
  assumes "fstate ctx \<in> {FW_EMPTY, FW_FAILED}"
    and "fw_run_start cb 0 (fw_accept fw ctx) = (r1, c1)" and "fw_run_write cb env r1 c1 = (r2, c2)"
  shows "fw_load_device_firmware cb (0, fw) env env_end True False ctx =
    (case fw_conclude (fw_run_end cb r2 (interfere env_end c2)) of (r, c) \<Rightarrow> Some (r, False, c))"
proof -
  have "ctx\<lparr>fstate := FW_LOADING, current_count := 0, total_count := 0, ctx_fw := Some fw,
      ctx_data := fw_data fw, total_count := to_int32 (int (fw_size fw))\<rparr> = fw_accept fw ctx"
    by (simp add: fw_accept_def)
  then show ?thesis
    using assms by (auto simp: fw_load_device_firmware_def Let_def split: prod.splits)
qed

lemma fw_run_in_flight:
  assumes "\<forall>i. cancels (env i)" and "fw_run_start cb r0 c0 = (r1, c1)"
    and "fw_run_write cb env r1 c1 = (r2, c2)" and "in_flight c0"
  shows "in_flight c2"
proof -
  have "in_flight (c1\<lparr>current_count := 0\<rparr>)" "in_flight c1"
    using assms(2,4) by (auto simp: fw_run_start_def in_flight_def split: option.splits prod.splits)
  then show ?thesis
    using assms(3)
    by (auto simp: fw_run_write_def split: option.splits if_splits
        intro: fw_loop_in_flight [OF assms(1)])
qed

lemma fw_end_outcome:
  assumes "in_flight c" and "fw_conclude (fw_run_end cb r c) = (r', c')"
  shows "fstate c' \<noteq> FW_LOADING \<and> (fstate c' = FW_LOADED \<longrightarrow> r' = 0 \<and> 0 \<le> r) \<and>
    (fstate c' = FW_EMPTY \<or> fstate c' = FW_DELETED \<longrightarrow> r' = - EIO) \<and>
    (fstate c' = FW_FAILED \<and> 0 \<le> r' \<longrightarrow> r < 0 \<and> cb_end cb \<noteq> None)"
  using assms
  by (auto simp: fw_run_end_def in_flight_def Let_def
      split: option.splits prod.splits if_splits fw_state.splits)

text \<open>
  C15. How a load ends. Whatever the callbacks do and whenever another task cancels: the lock is
  released, the state is final (never \<^verbatim>\<open>FW_LOADING\<close>), a loaded firmware comes with result 0, a
  cancelled load (\<^verbatim>\<open>FW_EMPTY\<close> or \<^verbatim>\<open>FW_DELETED\<close>) with \<^verbatim>\<open>-EIO\<close>; and a failed load with a result that
  is not an error is possible in one way only: an end callback that reports no error.
\<close>

theorem fw_load_outcome:
  assumes "\<forall>i. cancels (env i)" and "cancels env_end" and "fst req \<le> 0"
    and "fstate ctx \<in> {FW_EMPTY, FW_FAILED}"
    and "fw_load_device_firmware cb req env env_end True False ctx = Some (r, lock', ctx')"
  shows "\<not> lock' \<and> fstate ctx' \<noteq> FW_LOADING \<and> (fstate ctx' = FW_LOADED \<longrightarrow> r = 0) \<and>
    (fstate ctx' = FW_EMPTY \<or> fstate ctx' = FW_DELETED \<longrightarrow> r = - EIO) \<and>
    (fstate ctx' = FW_FAILED \<and> 0 \<le> r \<longrightarrow> cb_end cb \<noteq> None)"
proof (cases "fst req = 0")
  case False
  then show ?thesis
    using assms(3-5) by (auto simp: fw_load_device_firmware_def Let_def split: prod.splits)
next
  case True
  then obtain fw where req: "req = (0, fw)" by (metis prod.collapse)
  obtain r1 c1 where s: "fw_run_start cb 0 (fw_accept fw ctx) = (r1, c1)" by (metis surj_pair)
  obtain r2 c2 where w: "fw_run_write cb env r1 c1 = (r2, c2)" by (metis surj_pair)
  have "in_flight (interfere env_end c2)"
    by (intro interfere_in_flight assms(2) fw_run_in_flight [OF assms(1) s w])
      (simp add: in_flight_def fw_accept_def)
  note out = fw_end_outcome [OF this]
  obtain r' c' where e: "fw_conclude (fw_run_end cb r2 (interfere env_end c2)) = (r', c')"
    by (metis surj_pair)
  with fw_load_accepted [OF assms(4) s w, of env_end] assms(5) req have "r = r'" "ctx' = c'" "\<not> lock'"
    by auto
  with out [OF e] show ?thesis by auto
qed

definition fw_ctx0 :: "'d \<Rightarrow> 'd fw_context" where
  "fw_ctx0 d = \<lparr>drv = d, ctx_fw = None, ctx_data = None, total_count = 0, current_count = 0,
     devicemask = 255, blockread = 640, blocksize = 20, blockdelay = 10, has_dev = True,
     filename = ''fpga.bit'', fstate = FW_EMPTY, kobj_init = True, kobj_added = True\<rparr>"

text \<open>The witness: a device that accepts one byte per call, cancelled before the third.\<close>

definition count_cb :: "nat fw_callbacks" where
  "count_cb = \<lparr>cb_start = None, cb_write = Some (\<lambda>c. (1, drv c + 1)), cb_read = None, cb_end = None\<rparr>"

definition fw_img :: "u8 list \<Rightarrow> firmware" where
  "fw_img bs = \<lparr>fw_size = length bs, fw_data = Some bs, fw_pages = None\<rparr>"

theorem fw_load_outcome_witness:
  "\<exists>ctx'. fw_load_device_firmware count_cb (0, fw_img [1, 2, 3, 4]) (\<lambda>i. if i = 2 then Some FW_EMPTY else None)
      None True False (fw_ctx0 0) = Some (- EIO, False, ctx') \<and> fstate ctx' = FW_EMPTY \<and> drv ctx' = 2"
proof -
  let ?env = "\<lambda>i. if i = (2 :: nat) then Some FW_EMPTY else None"
  let ?l = "fw_load_device_firmware count_cb (0, fw_img [1, 2, 3, 4]) ?env None True False (fw_ctx0 0)"
  have "case ?l of None \<Rightarrow> False | Some (r, l, c) \<Rightarrow> fstate c = FW_EMPTY \<and> drv c = 2"
    by code_simp
  then obtain r l c where l: "?l = Some (r, l, c)" "fstate c = FW_EMPTY" "drv c = 2"
    by (auto split: option.splits)
  have "\<forall>i. cancels (?env i)" "cancels None" "fstate (fw_ctx0 0 :: nat fw_context) \<in> {FW_EMPTY, FW_FAILED}"
    by (auto simp: cancels_def fw_ctx0_def)
  with fw_load_outcome [OF _ _ _ _ l(1)] l show ?thesis by auto
qed

section \<open>The interface of a loadable device\<close>

text \<open>
  What the loop relies on: while bytes are missing, the write callback stores at least one and no
  more than are missing, and keeps \<open>good\<close>, which says that the device holds the first
  \<^verbatim>\<open>current_count\<close> bytes. A cancellation does not matter to it.
\<close>

locale fw_writer =
  fixes wr :: "'d fw_context \<Rightarrow> int \<times> 'd"
    and good :: "'d fw_context \<Rightarrow> bool"
  assumes good_count: "good ctx \<Longrightarrow> 0 \<le> current_count ctx \<and> current_count ctx \<le> total_count ctx"
    and write_good: "good ctx \<Longrightarrow> loop_cond ctx \<Longrightarrow>
      \<exists>n d. wr ctx = (n, d) \<and> 0 < n \<and> good (advance n d ctx)"
    and good_state: "good (ctx\<lparr>fstate := st\<rparr>) = good ctx"
begin

lemma good_interfere [simp]: "good (interfere e ctx) = good ctx"
  by (simp add: interfere_def good_state split: option.splits)

text \<open>However often it is cancelled, the loop stops with a good context and no error.\<close>

lemma loop_good:
  assumes "good ctx" and "0 \<le> ret" and "fw_loop wr None env i pr cc ret ctx = (r, ctx')"
  shows "good ctx' \<and> \<not> loop_cond ctx' \<and> 0 \<le> r"
  using assms
proof (induction "nat (total_count ctx - current_count ctx)" arbitrary: i pr cc ret ctx rule: less_induct)
  case less
  let ?c = "interfere (env i) ctx"
  show ?case
  proof (cases "loop_cond ?c")
    case False
    then show ?thesis
      using less.prems by (auto simp: fw_loop.simps [of wr] loop_cond_def Let_def)
  next
    case True
    obtain n d where w: "wr ?c = (n, d)" "0 < n" "good (advance n d ?c)"
      using write_good [OF _ True] less.prems(1) by auto
    have "fw_loop wr None env (Suc i) pr (cc + n) n (advance n d ?c) = (r, ctx')"
      using less.prems(3) True w
      by (simp add: fw_loop.simps [of wr _ _ i] loop_cond_def Let_def advance_def)
    then show ?thesis
      using less.hyps [OF _ w(3), of n "Suc i" pr "cc + n"] True w(2)
      by (auto simp: advance_def loop_cond_def)
  qed
qed

lemma loop_keeps:
  assumes "fw_loop wr None env i pr cc ret ctx = (r, ctx')"
  shows "total_count ctx' = total_count ctx \<and> ctx_data ctx' = ctx_data ctx"
  by (rule fw_loop_invariant [where I = "\<lambda>c. total_count c = total_count ctx \<and> ctx_data c = ctx_data ctx",
      OF _ _ _ assms]) (auto simp: advance_def)

text \<open>Without cancellation everything is written.\<close>

lemma loop_complete:
  assumes "good ctx" and "0 \<le> ret" and "fstate ctx = FW_LOADING"
    and "fw_loop wr None (\<lambda>_. None) i pr cc ret ctx = (r, ctx')"
  shows "good ctx' \<and> current_count ctx' = total_count ctx' \<and> fstate ctx' = FW_LOADING \<and> 0 \<le> r"
proof -
  have "fstate ctx' = FW_LOADING"
    by (rule fw_loop_invariant [where I = "\<lambda>c. fstate c = FW_LOADING", OF _ _ _ assms(4,3)])
      (auto simp: advance_def)
  then show ?thesis
    using loop_good [OF assms(1,2,4)] good_count by (fastforce simp: loop_cond_def)
qed

end

section \<open>Attributes\<close>

lemma strip_len_bound: "strip_len buf n \<le> n"
  by (induction n) auto

lemma strip_len_last: "0 < strip_len buf n \<Longrightarrow> \<not> fw_space (buf ! (strip_len buf n - 1))"
  by (induction n) auto

lemma strip_len_rest: "strip_len buf n \<le> i \<Longrightarrow> i < n \<Longrightarrow> fw_space (buf ! i)"
  by (induction n) (auto simp: less_Suc_eq split: if_splits)

text \<open>
  The file name. A name is accepted exactly when, after its trailing white space is removed, it
  has between 1 and 31 characters; it then fits the array with its terminator, does not end in white
  space, and only white space was dropped. Otherwise the old name stays.
\<close>

theorem fw_filename_ok:
  assumes "fw_set_filename buf ctx = (r, ctx')"
  shows "r = 0 \<and> 0 < length (filename ctx') \<and> length (filename ctx') < FILENAME_SIZE \<and>
      \<not> fw_space (last (filename ctx')) \<and>
      (\<exists>ws. buf = filename ctx' @ ws \<and> list_all fw_space ws) \<or>
    r = - EINVAL \<and> ctx' = ctx \<and>
      (list_all fw_space buf \<or> (\<exists>n. FILENAME_SIZE \<le> n \<and> n \<le> length buf \<and> \<not> fw_space (buf ! (n - 1))))"
proof -
  let ?n = "strip_len buf (length buf)"
  have n: "?n \<le> length buf" by (rule strip_len_bound)
  have ws: "list_all fw_space (drop ?n buf)"
    using strip_len_rest [of buf "length buf"] by (auto simp: list_all_length)
  consider "?n = 0" | "FILENAME_SIZE \<le> ?n" | "0 < ?n" "?n < FILENAME_SIZE" by linarith
  then show ?thesis
  proof cases
    case 1
    then show ?thesis using assms ws by (auto simp: fw_set_filename_def)
  next
    case 2
    then have "\<not> fw_space (buf ! (?n - 1))" using strip_len_last [of buf "length buf"] by simp
    then show ?thesis
      using assms 2 n by (intro disjI2) (auto simp: fw_set_filename_def)
  next
    case 3
    then have "last (take ?n buf) = buf ! (?n - 1)"
      using n by (subst last_conv_nth) auto
    moreover have "\<exists>ws. buf = take ?n buf @ ws \<and> list_all fw_space ws"
      using ws by (intro exI [of _ "drop ?n buf"]) simp
    ultimately show ?thesis
      using assms 3 n strip_len_last [of buf "length buf"]
      by (intro disjI1) (auto simp: fw_set_filename_def Let_def)
  qed
qed

theorem fw_filename_ok_witness:
  "filename (snd (fw_set_filename ''a.bit  '' (fw_ctx0 ()))) = ''a.bit'' \<and>
   fst (fw_set_filename ''a.bit  '' (fw_ctx0 ())) = 0"
proof -
  obtain r c where f: "fw_set_filename ''a.bit  '' (fw_ctx0 ()) = (r, c)" by (metis surj_pair)
  have "fst (fw_set_filename ''a.bit  '' (fw_ctx0 ())) = 0" "filename (snd (fw_set_filename ''a.bit  '' (fw_ctx0 ()))) = ''a.bit''"
    by code_simp+
  then show ?thesis using fw_filename_ok [OF f] by simp
qed

lemma to_int32_small: "- (2 ^ 31) \<le> x \<Longrightarrow> x < 2 ^ 31 \<Longrightarrow> to_int32 x = x"
  by (simp add: to_int32_def signed_take_bit_int_eq_self)

text \<open>
  The progress in percent. Up to 21474836 bytes the attribute is the exact percentage rounded
  down, between 0 and 100; beyond, the product overflows: after 30000000 of 30000000 bytes it
  reports -43.
\<close>

theorem fw_progress_correct:
  assumes "0 \<le> cur" and "cur \<le> tot" and "tot \<le> 21474836"
  shows "fw_progress_pct cur tot = (if tot = 0 then 0 else 100 * cur div tot) \<and>
    0 \<le> fw_progress_pct cur tot \<and> fw_progress_pct cur tot \<le> 100 \<and>
    fw_progress_pct 30000000 30000000 = - 43"
proof -
  have t: "to_int32 (100 * cur) = 100 * cur"
    using assms by (intro to_int32_small) auto
  have d: "c_div (100 * cur) tot = 100 * cur div tot" if "tot \<noteq> 0"
    using assms that by (auto simp: c_div_def sgn_if)
  have "100 * cur div tot \<le> 100" if "tot \<noteq> 0"
    using assms that zdiv_mono1 [of "100 * cur" "100 * tot" tot] by simp
  moreover have "0 \<le> 100 * cur div tot" if "tot \<noteq> 0"
    using assms that by (simp add: pos_imp_zdiv_nonneg_iff)
  moreover have "fw_progress_pct 30000000 30000000 = - 43" by code_simp
  ultimately show ?thesis
    using t d by (auto simp: fw_progress_pct_def)
qed

theorem fw_progress_correct_witness:
  "fw_progress_pct 7 20 = 35 \<and> fw_progress_pct 30000000 30000000 = - 43"
  using fw_progress_correct [of 7 20] by simp

end
