(* ===== verification/Memloader.thy ===== *)
theory Memloader
  imports Firmware
begin

text \<open>
  The memory loader, \<^verbatim>\<open>src/memloader/memloader_core.c\<close>: the callbacks that copy a firmware image
  to physical memory, for mapped images and for images that are only held in pages, the sysfs
  attribute of the load address, and \<^verbatim>\<open>probe\<close> and \<^verbatim>\<open>remove\<close>. It is the client of \<^verbatim>\<open>Firmware\<close>.
\<close>

section \<open>State\<close>

text \<open>
  \<^verbatim>\<open>struct memloader_info\<close> without the embedded context, the physical memory, the answers of
  \<^verbatim>\<open>ioremap\<close>, and whether a page outside the image's page array was used. The load address has 64
  bits, physical addresses (\<^verbatim>\<open>phys_addr_t\<close>) have 32.
\<close>

record memloader_info =
  load_base_address :: u64
  info_count :: int
  memory :: "u32 \<Rightarrow> u8"
  ioremap_ok :: "u32 \<Rightarrow> int \<Rightarrow> bool"
  wild_page :: bool

abbreviation PAGE_SIZE :: int where "PAGE_SIZE \<equiv> 4096"

section \<open>Callbacks\<close>

text \<open>\<open>store_bytes\<close> is the \<^verbatim>\<open>memcpy\<close> to the mapped region.\<close>

definition store_bytes :: "u32 \<Rightarrow> u8 list \<Rightarrow> (u32 \<Rightarrow> u8) \<Rightarrow> u32 \<Rightarrow> u8" where
  "store_bytes addr bs m = (\<lambda>a. if unat (a - addr) < length bs then bs ! unat (a - addr) else m a)"

definition memloader_load :: "u64 \<Rightarrow> u8 list option \<Rightarrow> int \<Rightarrow> memloader_info \<Rightarrow> int \<times> memloader_info" where
  "memloader_load phy_address data count info =
    (case data of
       None \<Rightarrow> (- EINVAL, info)
     | Some bs \<Rightarrow>
         if count \<le> 0 then (- EINVAL, info)
         else if \<not> ioremap_ok info (ucast phy_address) count then (- EBUSY, info)
         else (count, info\<lparr>memory := store_bytes (ucast phy_address) (take (nat count) bs) (memory info)\<rparr>))"

definition memloader_start :: "memloader_info fw_context \<Rightarrow> int \<times> memloader_info" where
  "memloader_start ctx = (0, (drv ctx)\<lparr>info_count := 0\<rparr>)"

text \<open>The number of bytes of one call.\<close>

definition memloader_block :: "memloader_info fw_context \<Rightarrow> int" where
  "memloader_block ctx =
    (let remaint = total_count ctx - current_count ctx;
         count = remaint;
         count = (if blocksize ctx \<noteq> 0 then blocksize ctx else count)
     in if count > remaint then remaint else count)"

text \<open>
  The loop over the pages. The copy starts at the beginning of the page, whatever the offset in the
  image. \<^verbatim>\<open>min_t(size_t, ...)\<close> compares as unsigned numbers. Outside the page array the model
  stops and records it.
\<close>

definition page_chunk :: "int \<Rightarrow> int" where
  "page_chunk count = (if count < 0 then PAGE_SIZE else min PAGE_SIZE count)"

function memloader_pages :: "u8 list list \<Rightarrow> int \<Rightarrow> int \<Rightarrow> memloader_info \<Rightarrow> int \<times> memloader_info" where
  "memloader_pages pages count total_copy info =
    (if count = 0 then (total_copy, info)
     else
       let page_nr = info_count info div PAGE_SIZE
       in if page_nr < 0 \<or> int (length pages) \<le> page_nr then (- EFAULT, info\<lparr>wild_page := True\<rparr>)
          else
            let (ret, info) = memloader_load (load_base_address info + of_int (info_count info))
                    (Some (pages ! nat page_nr)) (page_chunk count) info
            in if 0 < ret then
                 memloader_pages pages (count - ret) (total_copy + ret)
                   (info\<lparr>info_count := info_count info + ret\<rparr>)
               else (- ENOMEM, info))"
  by pat_completeness auto

lemma memloader_load_count [simp]:
  "info_count (snd (memloader_load a d n i)) = info_count i"
  "load_base_address (snd (memloader_load a d n i)) = load_base_address i"
  "ioremap_ok (snd (memloader_load a d n i)) = ioremap_ok i"
  by (auto simp: memloader_load_def split: option.splits)

termination memloader_pages
proof (relation "measure (\<lambda>(pages, count, total, info). nat (PAGE_SIZE * int (length pages) - info_count info))", goal_cases)
  case (2 pages count total info page_nr x ret info')
  have "info_count info' = info_count info"
    using memloader_load_count(1) [of "load_base_address info + of_int (info_count info)"
        "Some (pages ! nat page_nr)" "page_chunk count" info] 2(4,5) by (metis snd_conv)
  moreover have "info_count info < PAGE_SIZE * int (length pages)"
    using 2(2,3) by (auto simp: not_le)
  ultimately show ?case using 2(6) by auto
qed simp

declare memloader_pages.simps [simp del]

definition memloader_write :: "memloader_info fw_context \<Rightarrow> int \<times> memloader_info" where
  "memloader_write ctx =
    (let info = drv ctx; count = memloader_block ctx
     in case ctx_data ctx of
          Some data \<Rightarrow>
            (let (ret, info) = memloader_load (load_base_address info + of_int (current_count ctx))
                   (Some (drop (nat (current_count ctx)) data)) count info
             in (ret, if 0 < ret then info\<lparr>info_count := info_count info + ret\<rparr> else info))
        | None \<Rightarrow>
            (case ctx_fw ctx of
               None \<Rightarrow> (- EINVAL, info)
             | Some fw \<Rightarrow>
                 (case fw_pages fw of
                    None \<Rightarrow> (- EINVAL, info)
                  | Some pages \<Rightarrow> memloader_pages pages count 0 info)))"

definition memloader_end :: "memloader_info fw_context \<Rightarrow> bool \<Rightarrow> int \<times> memloader_info" where
  "memloader_end ctx error = (if info_count (drv ctx) \<noteq> current_count ctx then - EIO else 0, drv ctx)"

definition memloader_cb :: "memloader_info fw_callbacks" where
  "memloader_cb = \<lparr>cb_start = Some memloader_start, cb_write = Some memloader_write,
     cb_read = None, cb_end = Some memloader_end\<rparr>"

section \<open>Attributes, probe and remove\<close>

definition memloader_set_load_address :: "strtol \<Rightarrow> string \<Rightarrow> memloader_info \<Rightarrow> int \<times> memloader_info" where
  "memloader_set_load_address strtol buf info =
     (0, info\<lparr>load_base_address := of_int (to_int32 (strtol 16 buf))\<rparr>)"

datatype ml_shown = Hex u64 | Hex32 int | Ml_error int

definition memloader_show :: "string \<Rightarrow> memloader_info \<Rightarrow> ml_shown" where
  "memloader_show attr info =
    (if attr = ''load-address'' then Hex (load_base_address info)
     else if attr = ''load-size'' then Hex32 (info_count info)
     else Ml_error (- EIO))"

definition memloader_store :: "strtol \<Rightarrow> string \<Rightarrow> string \<Rightarrow> memloader_info \<Rightarrow> int \<times> memloader_info" where
  "memloader_store strtol attr buf info =
    (let (ret, info) = (if attr = ''load-address'' then memloader_set_load_address strtol buf info
                        else (- EINVAL, info))
     in (if ret < 0 then - EINVAL else int (length buf), info))"

text \<open>
  The module's resources: the allocated structure (with the embedded context and the driver data),
  and the \<^verbatim>\<open>memloader\<close> kobject.
\<close>

record memloader_pdev =
  drvdata_ctx :: "memloader_info fw_context option"
  ml_alloc :: nat
  ml_kobj :: bool

record memloader_kernel =
  devm_ok :: bool
  of_load_address :: "u64 option"
  ml_tree :: fw_tree
  kobj_ret :: int

definition memloader_probe ::
    "memloader_kernel \<Rightarrow> memloader_info fw_context \<Rightarrow> bool \<Rightarrow> memloader_pdev \<Rightarrow> int \<times> bool \<times> memloader_pdev" where
  "memloader_probe k zeroed lock p =
    (if \<not> devm_ok k then (- ENOMEM, lock, p)
     else
       let p = p\<lparr>ml_alloc := Suc (ml_alloc p)\<rparr>
       in case of_load_address k of
            None \<Rightarrow> (- EINVAL, lock, p\<lparr>ml_alloc := ml_alloc p - 1\<rparr>)
          | Some addr \<Rightarrow>
              let ctx = zeroed\<lparr>drv := (drv zeroed)\<lparr>load_base_address := addr\<rparr>\<rparr>;
                  (ret, lock, ctx) = fw_initialize (ml_tree k) True lock ctx;
                  p = p\<lparr>drvdata_ctx := Some ctx\<rparr>
              in if ret < 0 then (ret, lock, p\<lparr>ml_alloc := ml_alloc p - 1\<rparr>)
                 else if kobj_ret k \<noteq> 0 then
                   (kobj_ret k, lock, p\<lparr>drvdata_ctx := Some (fw_cleanup ctx), ml_alloc := ml_alloc p - 1\<rparr>)
                 else (0, lock, p\<lparr>ml_kobj := True\<rparr>))"

definition memloader_remove :: "memloader_pdev \<Rightarrow> (int \<times> memloader_pdev) option" where
  "memloader_remove p =
    (case drvdata_ctx p of
       None \<Rightarrow> None
     | Some ctx \<Rightarrow> Some (0, p\<lparr>ml_kobj := False, drvdata_ctx := Some (fw_cleanup ctx),
                                ml_alloc := ml_alloc p - 1\<rparr>))"

section \<open>Mapped images\<close>

lemma store_bytes_Nil [simp]: "store_bytes a [] m = m"
  by (simp add: store_bytes_def)

text \<open>Two stores of consecutive parts are one store.\<close>

lemma unat_shift32:
  assumes "n < 2 ^ 32"
  shows "unat ((a :: u32) - (b + of_nat n)) =
    (if n \<le> unat (a - b) then unat (a - b) - n else 2 ^ 32 + unat (a - b) - n)"
proof -
  have "unat (x - of_nat n) = (if n \<le> unat x then unat x - n else 2 ^ 32 + unat x - n)" for x :: u32
    using assms by (auto simp: unat_sub_if' unat_of_nat32)
  then show ?thesis by (simp only: diff_diff_eq [symmetric])
qed

lemma store_bytes_append:
  assumes "length xs + length ys < 2 ^ 32"
  shows "store_bytes (a + of_nat (length xs)) ys (store_bytes a xs m) = store_bytes a (xs @ ys) m"
proof
  fix b
  have u: "unat (b - a) < 2 ^ 32" using unsigned_less [of "b - a", where ?'a = nat] by simp
  have n: "length xs < 2 ^ 32" using assms by simp
  show "store_bytes (a + of_nat (length xs)) ys (store_bytes a xs m) b = store_bytes a (xs @ ys) m b"
    using assms u unat_shift32 [OF n, of b a] by (auto simp: store_bytes_def nth_append)
qed

lemma ucast_add_of_int: "(ucast (a + of_int n :: u64) :: u32) = ucast a + of_int n"
proof -
  have m: "(x + n) mod 4294967296 = (x mod 18446744073709551616 + n) mod 4294967296" for x n :: int
  proof -
    have "x mod 18446744073709551616 mod 4294967296 = x mod 4294967296"
      by (rule mod_mod_cancel) simp
    then show ?thesis by (rule mod_add_cong [OF _ refl, symmetric])
  qed
  show ?thesis by (transfer, simp add: take_bit_eq_mod mod_simps mod_mod_cancel, rule m)
qed

text \<open>The image \<open>bs\<close> goes to \<open>base\<close>; \<open>m0\<close> is the memory before. The device holds a prefix.\<close>

definition ml_good :: "u8 list \<Rightarrow> u64 \<Rightarrow> (u32 \<Rightarrow> u8) \<Rightarrow> memloader_info fw_context \<Rightarrow> bool" where
  "ml_good bs base m0 ctx \<longleftrightarrow>
     0 \<le> current_count ctx \<and> current_count ctx \<le> total_count ctx \<and> total_count ctx = int (length bs) \<and>
     length bs < 2 ^ 31 \<and> 0 \<le> blocksize ctx \<and> ctx_data ctx = Some bs \<and>
     load_base_address (drv ctx) = base \<and> info_count (drv ctx) = current_count ctx \<and>
     (\<forall>a n. ioremap_ok (drv ctx) a n) \<and>
     memory (drv ctx) = store_bytes (ucast base) (take (nat (current_count ctx)) bs) m0"

lemma memloader_block_range:
  assumes "0 \<le> blocksize ctx" and "current_count ctx < total_count ctx"
  shows "0 < memloader_block ctx \<and> memloader_block ctx \<le> total_count ctx - current_count ctx"
  using assms by (auto simp: memloader_block_def Let_def)

lemma memloader_write_good:
  assumes "ml_good bs base m0 ctx" and "loop_cond ctx"
  shows "\<exists>n d. memloader_write ctx = (n, d) \<and> 0 < n \<and> ml_good bs base m0 (advance n d ctx)"
proof -
  let ?n = "memloader_block ctx" and ?c = "nat (current_count ctx)"
  have g: "0 \<le> current_count ctx" "total_count ctx = int (length bs)" "length bs < 2 ^ 31"
    "0 \<le> blocksize ctx" "ctx_data ctx = Some bs" "load_base_address (drv ctx) = base"
    "info_count (drv ctx) = current_count ctx" "\<forall>a n. ioremap_ok (drv ctx) a n"
    "memory (drv ctx) = store_bytes (ucast base) (take ?c bs) m0"
    using assms(1) by (auto simp: ml_good_def)
  have n: "0 < ?n" "?n \<le> total_count ctx - current_count ctx"
    using memloader_block_range [OF g(4)] assms(2) by (auto simp: loop_cond_def)
  have len: "length (take ?c bs) = ?c" "length (take (nat ?n) (drop ?c bs)) = nat ?n"
    using n g by auto
  have "take ?c bs @ take (nat ?n) (drop ?c bs) = take (nat (current_count ctx + ?n)) bs"
    using n g by (simp add: take_add [symmetric] nat_add_distrib)
  moreover have "(ucast (base + of_int (current_count ctx)) :: u32) = ucast base + of_nat (length (take ?c bs))"
    using g len(1) by (simp add: ucast_add_of_int)
  ultimately have m: "store_bytes (ucast (base + of_int (current_count ctx))) (take (nat ?n) (drop ?c bs)) (memory (drv ctx))
      = store_bytes (ucast base) (take (nat (current_count ctx + ?n)) bs) m0"
    using store_bytes_append [of "take ?c bs" "take (nat ?n) (drop ?c bs)" "ucast base" m0] len g(9) g(3) n g(2)
    by simp
  show ?thesis
    using g n m by (auto simp: memloader_write_def memloader_load_def Let_def ml_good_def advance_def)
qed

interpretation ml: fw_writer memloader_write "ml_good bs base m0" for bs base m0
proof (unfold_locales, goal_cases)
  case (2 ctx)
  then show ?case by (rule memloader_write_good)
qed (auto simp: ml_good_def)

lemma memloader_start_run:
  "fw_run_start memloader_cb r ctx = (0, ctx\<lparr>drv := (drv ctx)\<lparr>info_count := 0\<rparr>\<rparr>)"
  by (simp add: fw_run_start_def memloader_cb_def memloader_start_def)

lemma memloader_write_run:
  "fw_run_write memloader_cb env 0 ctx = fw_loop memloader_write None env 0 0 0 0 (ctx\<lparr>current_count := 0\<rparr>)"
  by (simp add: fw_run_write_def memloader_cb_def)

text \<open>The load up to the end callback, for a good image.\<close>

lemma memloader_until_end:
  assumes "fw_data fw = Some bs" and "fw_size fw = length bs" and "length bs < 2 ^ 31"
    and "0 \<le> blocksize ctx" and "\<forall>a n. ioremap_ok (drv ctx) a n" and "\<forall>i. cancels (env i)"
  obtains r1 c1 r2 c2 where "fw_run_start memloader_cb 0 (fw_accept fw ctx) = (r1, c1)"
    "fw_run_write memloader_cb env r1 c1 = (r2, c2)"
    "ml_good bs (load_base_address (drv ctx)) (memory (drv ctx)) c2" "\<not> loop_cond c2" "0 \<le> r2"
    "in_flight c2" "(\<forall>i. env i = None) \<longrightarrow> fstate c2 = FW_LOADING"
proof -
  let ?good = "ml_good bs (load_base_address (drv ctx)) (memory (drv ctx))"
  let ?c1 = "(fw_accept fw ctx)\<lparr>drv := (drv ctx)\<lparr>info_count := 0\<rparr>\<rparr>"
  have c1: "fw_run_start memloader_cb 0 (fw_accept fw ctx) = (0, ?c1)"
    by (simp add: memloader_start_run fw_accept_def)
  have t: "to_int32 (int (fw_size fw)) = int (length bs)"
    using assms(2,3) by (subst to_int32_small) auto
  have g1: "?good (?c1\<lparr>current_count := 0\<rparr>)"
    using assms t by (auto simp: ml_good_def fw_accept_def)
  obtain r2 c2 where w: "fw_run_write memloader_cb env 0 ?c1 = (r2, c2)" by (metis surj_pair)
  then have l: "fw_loop memloader_write None env 0 0 0 0 (?c1\<lparr>current_count := 0\<rparr>) = (r2, c2)"
    by (simp add: memloader_write_run)
  have "fstate c2 = FW_LOADING" if "\<forall>i. env i = None"
  proof -
    have "env = (\<lambda>_. None)" using that by auto
    then show ?thesis
      using ml.loop_complete [OF g1 _ _ l [unfolded \<open>env = (\<lambda>_. None)\<close>]] by (simp add: fw_accept_def)
  qed
  moreover have "in_flight c2"
    using fw_run_in_flight [OF assms(6) c1 w] by (simp add: in_flight_def fw_accept_def)
  ultimately show ?thesis
    using that [OF c1 w] ml.loop_good [OF g1 _ l] by auto
qed

text \<open>
  C14. Loading a mapped image. For an image below 2 GiB that can be mapped piece by piece, any block
  size, and cancellation at any time: the load returns, the memory from the load address on holds
  exactly the first \<^verbatim>\<open>current_count\<close> bytes of the image and is unchanged elsewhere; a loaded firmware
  is the whole image, and without cancellation the load succeeds.
\<close>

theorem memloader_loads_image:
  assumes "fw_data fw = Some bs" and "fw_size fw = length bs" and "length bs < 2 ^ 31"
    and "0 \<le> blocksize ctx" and "\<forall>a n. ioremap_ok (drv ctx) a n" and "\<forall>i. cancels (env i)"
    and "cancels env_end" and "fstate ctx \<in> {FW_EMPTY, FW_FAILED}"
  shows "\<exists>r ctx'. fw_load_device_firmware memloader_cb (0, fw) env env_end True False ctx = Some (r, False, ctx') \<and>
    0 \<le> current_count ctx' \<and> current_count ctx' \<le> int (length bs) \<and>
    memory (drv ctx') = store_bytes (ucast (load_base_address (drv ctx))) (take (nat (current_count ctx')) bs) (memory (drv ctx)) \<and>
    (fstate ctx' = FW_LOADED \<longrightarrow> current_count ctx' = int (length bs)) \<and>
    ((\<forall>i. env i = None) \<and> env_end = None \<longrightarrow> r = 0 \<and> fstate ctx' = FW_LOADED)"
proof -
  obtain r1 c1 r2 c2 where s: "fw_run_start memloader_cb 0 (fw_accept fw ctx) = (r1, c1)"
    and w: "fw_run_write memloader_cb env r1 c1 = (r2, c2)"
    and g: "ml_good bs (load_base_address (drv ctx)) (memory (drv ctx)) c2" "\<not> loop_cond c2" "0 \<le> r2"
    and f: "in_flight c2" "(\<forall>i. env i = None) \<longrightarrow> fstate c2 = FW_LOADING"
    by (rule memloader_until_end [OF assms(1-6)])
  let ?c3 = "interfere env_end c2"
  have g3: "ml_good bs (load_base_address (drv ctx)) (memory (drv ctx)) ?c3" using g(1) by simp
  have f3: "in_flight ?c3" by (rule interfere_in_flight [OF assms(7) f(1)])
  have e: "fw_run_end memloader_cb r2 ?c3 = (0, ?c3)"
    using g(3) g3 by (auto simp: fw_run_end_def memloader_cb_def memloader_end_def ml_good_def Let_def)
  obtain r c' where fin: "fw_conclude (0, ?c3) = (r, c')" by (metis surj_pair)
  have same: "current_count c' = current_count ?c3" "drv c' = drv ?c3"
    using fin f3 by (auto simp: in_flight_def split: fw_state.splits)
  have "fstate c' = FW_LOADED \<Longrightarrow> fstate c2 = FW_LOADING"
    using fin f(1) assms(7)
    by (auto simp: in_flight_def interfere_def cancels_def split: fw_state.splits)
  then have whole: "fstate c' = FW_LOADED \<Longrightarrow> current_count c' = int (length bs)"
    using g(1,2) same by (auto simp: loop_cond_def ml_good_def)
  have "fw_load_device_firmware memloader_cb (0, fw) env env_end True False ctx = Some (r, False, c')"
    using fw_load_accepted [OF assms(8) s w, of env_end] e fin by simp
  then show ?thesis
    using g3 same whole f(2) fin by (intro exI [of _ r] exI [of _ c']) (auto simp: ml_good_def)
qed

definition ml_info0 :: memloader_info where
  "ml_info0 = \<lparr>load_base_address = 0x40000000, info_count = 0, memory = (\<lambda>_. 0),
     ioremap_ok = (\<lambda>_ _. True), wild_page = False\<rparr>"

theorem memloader_loads_image_witness:
  "\<exists>r ctx'. fw_load_device_firmware memloader_cb (0, fw_img [1, 2, 3]) (\<lambda>_. None) None True False
       ((fw_ctx0 ml_info0)\<lparr>blocksize := 2\<rparr>) = Some (r, False, ctx') \<and>
     r = 0 \<and> fstate ctx' = FW_LOADED \<and> memory (drv ctx') = store_bytes 0x40000000 [1, 2, 3] (\<lambda>_. 0)"
proof -
  let ?c = "(fw_ctx0 ml_info0)\<lparr>blocksize := 2\<rparr>"
  have "\<exists>r ctx'. fw_load_device_firmware memloader_cb (0, fw_img [1, 2, 3]) (\<lambda>_. None) None True False ?c
      = Some (r, False, ctx') \<and> 0 \<le> current_count ctx' \<and> current_count ctx' \<le> int (length [1, 2, 3 :: u8]) \<and>
    memory (drv ctx') = store_bytes (ucast (load_base_address (drv ?c))) (take (nat (current_count ctx')) [1, 2, 3]) (memory (drv ?c)) \<and>
    (fstate ctx' = FW_LOADED \<longrightarrow> current_count ctx' = int (length [1, 2, 3 :: u8])) \<and>
    ((\<forall>i :: nat. (None :: fw_state option) = None) \<and> (None :: fw_state option) = None \<longrightarrow> r = 0 \<and> fstate ctx' = FW_LOADED)"
    by (rule memloader_loads_image) (simp_all add: fw_img_def fw_ctx0_def ml_info0_def cancels_def)
  then show ?thesis by (auto simp: fw_ctx0_def ml_info0_def)
qed

section \<open>Failures\<close>

text \<open>
  A failed load is reported as a success. When the memory cannot be mapped, the write callback
  fails with \<^verbatim>\<open>-EBUSY\<close> and the state becomes \<^verbatim>\<open>FW_FAILED\<close>; but the end callback finds the two
  counters equal and returns 0, which replaces the error: the load returns 0 and the write to the
  \<^verbatim>\<open>state\<close> attribute the full count.
\<close>

theorem memloader_failure_masked:
  assumes "fw_data fw = Some bs" and "fw_size fw = length bs" and "length bs < 2 ^ 31" and "bs \<noteq> []"
    and "0 \<le> blocksize ctx" and "\<forall>a n. \<not> ioremap_ok (drv ctx) a n" and "fstate ctx \<in> {FW_EMPTY, FW_FAILED}"
  shows "\<exists>ctx'. fw_load_device_firmware memloader_cb (0, fw) (\<lambda>_. None) None True False ctx = Some (0, False, ctx') \<and>
    fstate ctx' = FW_FAILED \<and> memory (drv ctx') = memory (drv ctx) \<and>
    (to_int32 (strtol 10 buf) \<noteq> 0 \<longrightarrow>
      fw_store strtol memloader_cb (0, fw) (\<lambda>_. None) None ''state'' buf False ctx = Some (int (length buf), False, ctx'))"
proof -
  let ?c1 = "(fw_accept fw ctx)\<lparr>drv := (drv ctx)\<lparr>info_count := 0\<rparr>\<rparr>"
  have s: "fw_run_start memloader_cb 0 (fw_accept fw ctx) = (0, ?c1)"
    by (simp add: memloader_start_run fw_accept_def)
  have t: "total_count ?c1 = int (length bs)"
    using assms(2,3) by (simp add: fw_accept_def to_int32_small)
  have c: "current_count ?c1 = 0" "fstate ?c1 = FW_LOADING" "blocksize ?c1 = blocksize ctx" "ctx_data ?c1 = Some bs"
    using assms(1) by (auto simp: fw_accept_def)
  have "0 < memloader_block ?c1"
    using memloader_block_range [of ?c1] c t assms(4,5) by simp
  then have "memloader_write ?c1 = (- EBUSY, drv ?c1)"
    using c assms(6) by (simp add: memloader_write_def memloader_load_def Let_def)
  then have "fw_loop memloader_write None (\<lambda>_. None) 0 0 0 0 ?c1 = (- EBUSY, ?c1)"
    using c t assms(4) by (simp add: fw_loop.simps [of _ _ _ 0] Let_def)
  moreover have "?c1\<lparr>current_count := 0\<rparr> = ?c1" by (simp add: fw_accept_def)
  ultimately have w: "fw_run_write memloader_cb (\<lambda>_. None) 0 ?c1 = (- EBUSY, ?c1)"
    by (simp add: memloader_write_run)
  have l: "fw_load_device_firmware memloader_cb (0, fw) (\<lambda>_. None) None True False ctx =
      Some (0, False, ?c1\<lparr>fstate := FW_FAILED\<rparr>)"
    using fw_load_accepted [OF assms(7) s w, of None] c
    by (simp add: fw_run_end_def memloader_cb_def memloader_end_def Let_def)
  moreover have "memory (drv (?c1\<lparr>fstate := FW_FAILED\<rparr>)) = memory (drv ctx)" by simp
  ultimately show ?thesis by (auto simp: fw_store_def fw_load_firmware_def)
qed

theorem memloader_failure_masked_witness:
  "\<exists>ctx'. fw_load_device_firmware memloader_cb (0, fw_img [1, 2, 3]) (\<lambda>_. None) None True False
       (fw_ctx0 (ml_info0\<lparr>ioremap_ok := (\<lambda>_ _. False)\<rparr>)) = Some (0, False, ctx') \<and> fstate ctx' = FW_FAILED"
  using memloader_failure_masked [of "fw_img [1, 2, 3]" "[1, 2, 3]" "fw_ctx0 (ml_info0\<lparr>ioremap_ok := (\<lambda>_ _. False)\<rparr>)"]
  by (auto simp: fw_img_def fw_ctx0_def ml_info0_def)

section \<open>Images in pages\<close>

lemma memloader_pages_block:
  assumes "0 < b" and "b \<le> PAGE_SIZE" and "0 \<le> info_count info" and "info_count info < PAGE_SIZE"
    and "\<forall>a n. ioremap_ok info a n"
  shows "memloader_pages (p # ps) b t info =
    (t + b, info\<lparr>info_count := info_count info + b,
       memory := store_bytes (ucast (load_base_address info) + of_int (info_count info)) (take (nat b) p) (memory info)\<rparr>)"
proof -
  have "info_count info div PAGE_SIZE = 0" using assms by simp
  moreover have "page_chunk b = b" using assms by (simp add: page_chunk_def)
  ultimately show ?thesis
    using assms by (simp add: memloader_pages.simps [of _ b] memloader_pages.simps [of _ 0] memloader_load_def ucast_add_of_int Let_def)
qed

text \<open>
  Images in pages are corrupted by small blocks. When the image is only held in pages, every
  block is copied from the start of its page: an image of two blocks within one page arrives as its
  first block twice, and the load reports success. With the default block size of 20 bytes
  this affects every image of more than 20 bytes.
\<close>

theorem memloader_pages_corrupt:
  assumes "fw_data fw = None" and "fw_pages fw = Some (p # ps)" and "length p = 4096"
    and "fw_size fw = 2 * b" and "0 < b" and "2 * b \<le> 4096" and "blocksize ctx = int b"
    and "\<forall>a n. ioremap_ok (drv ctx) a n" and "fstate ctx \<in> {FW_EMPTY, FW_FAILED}"
    and "base = ucast (load_base_address (drv ctx))"
  shows "\<exists>ctx'. fw_load_device_firmware memloader_cb (0, fw) (\<lambda>_. None) None True False ctx = Some (0, False, ctx') \<and>
    fstate ctx' = FW_LOADED \<and> current_count ctx' = int (2 * b) \<and>
    memory (drv ctx') = store_bytes (base + of_nat b) (take b p) (store_bytes base (take b p) (memory (drv ctx)))"
proof -
  let ?c1 = "(fw_accept fw ctx)\<lparr>drv := (drv ctx)\<lparr>info_count := 0\<rparr>\<rparr>"
  define at where "at n m = ?c1\<lparr>current_count := n, drv := (drv ctx)\<lparr>info_count := n, memory := m\<rparr>\<rparr>" for n m
  have s: "fw_run_start memloader_cb 0 (fw_accept fw ctx) = (0, ?c1)"
    by (simp add: memloader_start_run fw_accept_def)
  have f: "current_count (at n m) = n" "total_count (at n m) = 2 * int b" "fstate (at n m) = FW_LOADING"
    "drv (at n m) = (drv ctx)\<lparr>info_count := n, memory := m\<rparr>" for n m
    using assms(4,6) by (auto simp: at_def fw_accept_def to_int32_small)
  have w: "memloader_write (at n m) = (int b, (drv ctx)\<lparr>info_count := n + int b,
      memory := store_bytes (base + of_int n) (take b p) m\<rparr>)" if "n = 0 \<or> n = int b" for n m
  proof -
    have "memloader_block (at n m) = int b"
      using that assms(5-7) by (auto simp: memloader_block_def at_def fw_accept_def assms(4) to_int32_small)
    then show ?thesis
      using that assms memloader_pages_block [of "int b" "drv (at n m)" p ps 0]
      by (auto simp: memloader_write_def f Let_def) (auto simp: at_def fw_accept_def)
  qed
  have adv: "(at n m)\<lparr>drv := (drv ctx)\<lparr>info_count := k, memory := m'\<rparr>, current_count := k\<rparr> = at k m'" for n m k m'
    by (simp add: at_def)
  let ?m1 = "store_bytes base (take b p) (memory (drv ctx))"
  let ?m2 = "store_bytes (base + of_nat b) (take b p) ?m1"
  have "?c1\<lparr>current_count := 0\<rparr> = at 0 (memory (drv ctx))"
    by (simp add: at_def)
  moreover have "fw_loop memloader_write None (\<lambda>_. None) 0 0 0 0 (at 0 (memory (drv ctx))) =
      fw_loop memloader_write None (\<lambda>_. None) 1 0 (int b) (int b) (at (int b) ?m1)"
    using assms(5) by (subst fw_loop.simps) (simp add: f w Let_def adv)
  moreover have "\<dots> = fw_loop memloader_write None (\<lambda>_. None) 2 0 (2 * int b) (int b) (at (2 * int b) ?m2)"
    using assms(5) by (subst fw_loop.simps) (simp add: f w Let_def adv numeral_2_eq_2)
  moreover have "\<dots> = (int b, at (2 * int b) ?m2)"
    by (subst fw_loop.simps) (simp add: f)
  ultimately have r: "fw_run_write memloader_cb (\<lambda>_. None) 0 ?c1 = (int b, at (2 * int b) ?m2)"
    by (simp only: memloader_write_run)
  show ?thesis
    using fw_load_accepted [OF assms(9) s r, of None]
    by (auto simp: fw_run_end_def memloader_cb_def memloader_end_def f Let_def)
qed

theorem memloader_pages_corrupt_witness:
  "\<exists>ctx'. fw_load_device_firmware memloader_cb
        (0, \<lparr>fw_size = 4, fw_data = None, fw_pages = Some [[1, 2, 3, 4] @ replicate 4092 0]\<rparr>)
        (\<lambda>_. None) None True False ((fw_ctx0 ml_info0)\<lparr>blocksize := 2\<rparr>) = Some (0, False, ctx') \<and>
     memory (drv ctx') 0x40000002 = 1"
proof -
  define p where "p = [1, 2, 3, 4] @ replicate 4092 (0 :: u8)"
  have p: "length p = 4096" "take 2 p = [1, 2]" by (simp_all add: p_def)
  let ?fw = "\<lparr>fw_size = 4, fw_data = None, fw_pages = Some [p]\<rparr>" and ?c = "(fw_ctx0 ml_info0)\<lparr>blocksize := 2\<rparr>"
  obtain ctx' where l: "fw_load_device_firmware memloader_cb (0, ?fw) (\<lambda>_. None) None True False ?c = Some (0, False, ctx')"
    and m: "memory (drv ctx') = store_bytes (0x40000000 + of_nat 2) (take 2 p) (store_bytes 0x40000000 (take 2 p) (memory (drv ?c)))"
  proof -
    have "\<exists>ctx'. fw_load_device_firmware memloader_cb (0, ?fw) (\<lambda>_. None) None True False ?c = Some (0, False, ctx') \<and>
      fstate ctx' = FW_LOADED \<and> current_count ctx' = int (2 * 2) \<and>
      memory (drv ctx') = store_bytes (0x40000000 + of_nat 2) (take 2 p) (store_bytes 0x40000000 (take 2 p) (memory (drv ?c)))"
      by (rule memloader_pages_corrupt [where ps = "[]"]) (simp_all add: p(1) fw_ctx0_def ml_info0_def)
    then show ?thesis using that by blast
  qed
  have "memory (drv ctx') 0x40000002 = 1"
    unfolding m p(2) by (simp add: store_bytes_def)
  then show ?thesis
    using l unfolding p_def by blast
qed

section \<open>The load address\<close>

text \<open>
  The load address attribute. A number \<open>v\<close> of 32 bits that is written to \<^verbatim>\<open>load-address\<close> is the
  physical address that the loader uses. Below two to the 31 it is also shown again; from there on,
  \<^verbatim>\<open>simple_strtol\<close> returns a negative \<^verbatim>\<open>long\<close>, which is sign-extended to 64 bits: another
  address is shown, one whose upper half is all ones.
\<close>

theorem memloader_load_address:
  assumes "strtol 16 buf = signed_take_bit 31 v" and "0 \<le> v" and "v < 2 ^ 32"
    and "memloader_store strtol ''load-address'' buf info = (r, info')"
  shows "r = int (length buf) \<and> ucast (load_base_address info') = (of_int v :: u32) \<and>
    memloader_show ''load-address'' info' = Hex (of_int (if v < 2 ^ 31 then v else v - 2 ^ 32))"
proof -
  have u: "(ucast (of_int n :: u64) :: u32) = of_int n" for n
    using ucast_add_of_int [of 0 n] by simp
  have w: "(of_int (v - 2 ^ 32) :: u32) = of_int v"
    by (simp add: word_of_int_eq_iff take_bit_eq_mod)
  have "signed_take_bit 31 v = (if v < 2 ^ 31 then v else v - 2 ^ 32)"
  proof (cases "v < 2 ^ 31")
    case True
    then show ?thesis using assms(2) by (simp add: signed_take_bit_int_eq_self)
  next
    case False
    have "take_bit (Suc 31) v = take_bit (Suc 31) (v - 2 ^ 32)"
      by (simp add: take_bit_eq_mod mod_diff_right_eq [symmetric])
    then have "signed_take_bit 31 v = signed_take_bit 31 (v - 2 ^ 32)"
      by (simp only: signed_take_bit_eq_iff_take_bit_eq)
    also have "\<dots> = v - 2 ^ 32"
      using False assms(3) by (intro signed_take_bit_int_eq_self) auto
    finally show ?thesis using False by simp
  qed
  then have x: "to_int32 (strtol 16 buf) = (if v < 2 ^ 31 then v else v - 2 ^ 32)"
    using assms(1-3) by (simp add: to_int32_small)
  then have "(of_int (to_int32 (strtol 16 buf)) :: u32) = of_int v"
    using w by (cases "v < 2 ^ 31") simp_all
  then show ?thesis
    using assms(4) u by (simp only: x [symmetric])
      (auto simp: memloader_store_def memloader_set_load_address_def memloader_show_def)
qed

theorem memloader_load_address_witness:
  "memloader_show ''load-address'' (snd (memloader_store (\<lambda>_ _. signed_take_bit 31 0x80000000)
      ''load-address'' ''80000000'' ml_info0)) = Hex 0xffffffff80000000"
proof -
  let ?f = "\<lambda>_ _. signed_take_bit 31 0x80000000 :: int"
  obtain r i where s: "memloader_store ?f ''load-address'' ''80000000'' ml_info0 = (r, i)" by (metis surj_pair)
  have "(of_int (0x80000000 - 2 ^ 32) :: u64) = 0xffffffff80000000" by code_simp
  then show ?thesis
    using memloader_load_address [OF _ _ _ s, of "0x80000000"] s by simp
qed

section \<open>Probe and remove\<close>

lemma fw_get_parameters_kobj:
  assumes "fw_get_parameters t ctx = (r, ctx')"
  shows "kobj_init ctx' = kobj_init ctx" "kobj_added ctx' = kobj_added ctx"
    "has_dev ctx \<longrightarrow> has_dev ctx'"
  using assms
  by (auto simp: fw_get_parameters_def fw_set_filename_def Let_def split: if_splits option.splits)

text \<open>What initialisation leaves: the kobject is in sysfs only after a success.\<close>

lemma fw_initialize_kobj:
  assumes "fw_initialize t d lock ctx = (r, lock', ctx')" and "\<not> kobj_added ctx" and "kobject_add_ret t \<le> 0"
  shows "kobj_added ctx' \<longrightarrow> r = 0" "r \<le> 0"
proof -
  let ?c = "ctx\<lparr>filename := ''fpga.bit'', blockread := 640, blocksize := 20, blockdelay := 10,
                   devicemask := 255, has_dev := d, fstate := FW_EMPTY\<rparr>"
  obtain r1 c1 where p: "fw_get_parameters t ?c = (r1, c1)" by (metis surj_pair)
  have "\<not> kobj_added c1" using fw_get_parameters_kobj(2) [OF p] assms(2) by simp
  then show "kobj_added ctx' \<longrightarrow> r = 0" "r \<le> 0"
    using assms(1,3) p by (auto simp: fw_initialize_def Let_def split: if_splits)
qed

lemma fw_cleanup_kobj:
  "\<not> kobj_added (fw_cleanup c)"
  "kobj_added c \<Longrightarrow> fw_load_device_firmware cb req env env_end True False (fw_cleanup c) = Some (- EINVAL, False, fw_cleanup c)"
  by (simp_all add: fw_cleanup_def fw_load_device_firmware_def)

text \<open>
  Binding and unbinding a memory loader. A failed \<^verbatim>\<open>probe\<close> frees its structure and leaves no
  sysfs entry of the firmware context; after a successful one, \<^verbatim>\<open>remove\<close> frees the structure
  and both sysfs entries, and where firmware loading was configured a later load is refused.
\<close>

theorem memloader_lifecycle:
  assumes "memloader_probe k zeroed lock p = (r, lock', p')" and "\<not> kobj_added zeroed"
    and "kobject_add_ret (ml_tree k) \<le> 0"
  shows "(r \<noteq> 0 \<longrightarrow> ml_alloc p' = ml_alloc p \<and> ml_kobj p' = ml_kobj p \<and>
      (drvdata_ctx p' = drvdata_ctx p \<or> (\<exists>c. drvdata_ctx p' = Some c \<and> \<not> kobj_added c))) \<and>
    (r = 0 \<longrightarrow> (\<exists>c c' q. drvdata_ctx p' = Some c \<and> memloader_remove p' = Some (0, q) \<and>
      ml_alloc q = ml_alloc p \<and> \<not> ml_kobj q \<and> drvdata_ctx q = Some c' \<and> \<not> kobj_added c' \<and>
      (kobj_added c \<longrightarrow> fw_load_device_firmware memloader_cb req env env_end True False c' = Some (- EINVAL, False, c'))))"
proof (cases "devm_ok k \<and> of_load_address k \<noteq> None")
  case False
  then show ?thesis using assms(1) by (auto simp: memloader_probe_def Let_def split: if_splits)
next
  case True
  then obtain addr where k: "devm_ok k" "of_load_address k = Some addr" by auto
  obtain r1 l1 c where i: "fw_initialize (ml_tree k) True lock (zeroed\<lparr>drv := (drv zeroed)\<lparr>load_base_address := addr\<rparr>\<rparr>) = (r1, l1, c)"
    by (metis surj_pair)
  note c = fw_initialize_kobj [OF i _ assms(3)]
  show ?thesis
  proof (cases "r1 < 0 \<or> kobj_ret k \<noteq> 0")
    case True
    then show ?thesis
      using assms(1,2) k i c fw_cleanup_kobj(1) [of c] by (auto simp: memloader_probe_def Let_def split: if_splits)
  next
    case False
    then have "p' = p\<lparr>ml_alloc := Suc (ml_alloc p), drvdata_ctx := Some c, ml_kobj := True\<rparr>" "r = 0"
      using assms(1) k i by (auto simp: memloader_probe_def Let_def)
    then show ?thesis
      using fw_cleanup_kobj(1) [of c] fw_cleanup_kobj(2) [of c memloader_cb req env env_end] by (auto simp: memloader_remove_def)
  qed
qed

text \<open>
  The lock that serialises loads does not. It is initialised again for every device: probing a
  second memory loader while the first one is loading, and holds \<^verbatim>\<open>serial_lock\<close>, releases the
  lock, and a load of the second device, which had to wait before, runs at once.
\<close>

theorem memloader_probe_unlocks:
  assumes "devm_ok k" and "of_load_address k = Some addr" and "of_load (ml_tree k)" and "\<not> of_target (ml_tree k)"
    and "of_filename (ml_tree k) = None" and "kobject_add_ret (ml_tree k) = 0" and "kobj_ret k = 0"
    and "\<not> kobj_init zeroed" and "\<not> kobj_added zeroed"
  shows "\<exists>p' c. memloader_probe k zeroed True p = (0, False, p') \<and> drvdata_ctx p' = Some c \<and>
    fw_load_device_firmware memloader_cb req env env_end True True c = None \<and>
    fw_load_device_firmware memloader_cb req env env_end True False c \<noteq> None"
  using assms
  by (auto simp: memloader_probe_def fw_initialize_def fw_get_parameters_def fw_load_device_firmware_def
      Let_def split: prod.splits)

definition ml_kernel_ok :: memloader_kernel where
  "ml_kernel_ok = \<lparr>devm_ok = True, of_load_address = Some 0x40000000,
     ml_tree = \<lparr>of_load = True, of_target = False, target_node = False, target_device = False,
       of_blockread = None, of_blocksize = None, of_blockdelay = None, of_filename = None, kobject_add_ret = 0\<rparr>,
     kobj_ret = 0\<rparr>"

definition ml_zeroed :: "memloader_info fw_context" where
  "ml_zeroed = (fw_ctx0 ml_info0)\<lparr>kobj_init := False, kobj_added := False\<rparr>"

definition ml_pdev0 :: memloader_pdev where
  "ml_pdev0 = \<lparr>drvdata_ctx = None, ml_alloc = 0, ml_kobj = False\<rparr>"

theorem memloader_lifecycle_witness:
  "\<exists>p' c c' q. memloader_probe ml_kernel_ok ml_zeroed False ml_pdev0 = (0, False, p') \<and>
     drvdata_ctx p' = Some c \<and> kobj_added c \<and> memloader_remove p' = Some (0, q) \<and> ml_alloc q = 0 \<and>
     drvdata_ctx q = Some c' \<and>
     fw_load_device_firmware memloader_cb (0, fw_img []) (\<lambda>_. None) None True False c' = Some (- EINVAL, False, c')"
proof -
  obtain p' c where p: "memloader_probe ml_kernel_ok ml_zeroed False ml_pdev0 = (0, False, p')"
    and c: "drvdata_ctx p' = Some c" "kobj_added c"
    by (simp add: memloader_probe_def fw_initialize_def fw_get_parameters_def ml_kernel_ok_def ml_zeroed_def)
  have z: "\<not> kobj_added ml_zeroed" "kobject_add_ret (ml_tree ml_kernel_ok) \<le> 0" "ml_alloc ml_pdev0 = 0"
    by (simp_all add: ml_zeroed_def ml_kernel_ok_def ml_pdev0_def)
  show ?thesis
    using memloader_lifecycle [OF p z(1,2), of "(0, fw_img [])" "\<lambda>_. None" None] p c z(3) by auto
qed

theorem memloader_probe_unlocks_witness:
  "\<exists>p'. memloader_probe ml_kernel_ok ml_zeroed True ml_pdev0 = (0, False, p')"
  using memloader_probe_unlocks [of ml_kernel_ok "0x40000000" ml_zeroed ml_pdev0]
  by (simp add: ml_kernel_ok_def ml_zeroed_def) blast

end
