(* ===== verification/Led.thy ===== *)
theory Led
  imports Generic_Access
begin

text \<open>
  The LED driver, \<^verbatim>\<open>src/led/led_support.c\<close> (brightness of one LED, the work queue, registration) and
  \<^verbatim>\<open>src/led/led_dev.c\<close> (the LEDs of a device-tree node: activation and deactivation). It is a client of
  the locked register access. The device tree and the answers of the kernel are parameters; a
  register access that blocks, and the use of a null pointer, give \<open>None\<close>.
\<close>

section \<open>State\<close>

text \<open>
  \<^verbatim>\<open>struct dev_led\<close>. The one-bit signed fields \<^verbatim>\<open>active_low\<close> and \<^verbatim>\<open>disabled\<close> are booleans;
  \<open>set_hook\<close> says that \<^verbatim>\<open>led_brightness_set\<close> points to \<^verbatim>\<open>dev_leds_brightness_set\<close> instead of being null.
\<close>

record dev_led =
  led_name :: string
  brightness :: int
  led_base :: u32
  reg_offset :: u8
  reg_mask :: u8
  enb_reg_offset :: u8
  enb_reg_mask :: u8
  enb_reg_value :: u8
  enb_ctrl :: u8
  active_low :: bool
  disabled :: bool
  set_hook :: bool

text \<open>\<^verbatim>\<open>struct led_dev_priv\<close>. The array \<^verbatim>\<open>leds\<close> has as many elements as were allocated.\<close>

record led_dev_priv =
  priv_workqueue :: "nat option"
  priv_use_workqueue :: bool
  priv_reg_base :: u32
  num_leds :: nat
  leds :: "dev_led list"

text \<open>
  The device and the kernel around it: the driver data, the registered class devices by index, whether
  a class device was unregistered that is not registered, the numbers of mappings and allocations, the
  live work queues, the queued requests, and the registers.
\<close>

record 'io led_sys =
  led_drvdata :: "led_dev_priv option"
  classdevs :: "nat list"
  bad_unregister :: bool
  led_iomaps :: nat
  led_allocs :: nat
  led_wqs :: "nat list"
  led_works :: "(nat \<times> int) list"
  led_ga :: "'io ga_state"

abbreviation LED_OFF :: int where "LED_OFF \<equiv> 0"
abbreviation LED_FULL :: int where "LED_FULL \<equiv> 255"
abbreviation LED_NAME_SIZE :: nat where "LED_NAME_SIZE \<equiv> 32"

section \<open>One LED\<close>

definition led_addr :: "dev_led \<Rightarrow> u32" where
  "led_addr led = led_base led + ucast (reg_offset led)"

definition led_brightness_get :: "'io iobus \<Rightarrow> dev_led \<Rightarrow> 'io ga_state \<Rightarrow> (int \<times> 'io ga_state) option" where
  "led_brightness_get bus led g =
     map_option
       (\<lambda>(reg, g). (if reg \<noteq> 0 \<and> active_low led \<or> reg = 0 \<and> \<not> active_low led then LED_OFF else LED_FULL, g))
       (if \<not> disabled led then map_option (\<lambda>(v, g). (v AND reg_mask led, g)) (dev_read bus (led_addr led) g)
        else Some (0, g))"

definition led_brightness_set :: "'io iobus \<Rightarrow> dev_led \<Rightarrow> int \<Rightarrow> 'io ga_state \<Rightarrow> 'io ga_state option" where
  "led_brightness_set bus led led_value g =
    (if \<not> disabled led then
       map_option snd
         (if led_value \<noteq> 0 \<and> active_low led \<or> led_value = 0 \<and> \<not> active_low led
          then dev_read_modify_write bus (led_addr led) (reg_mask led) 0 g
          else dev_read_modify_write bus (led_addr led) (reg_mask led) (reg_mask led) g)
     else Some g)"

definition dev_leds_enb_reg_set :: "'io iobus \<Rightarrow> dev_led \<Rightarrow> 'io ga_state \<Rightarrow> 'io ga_state option" where
  "dev_leds_enb_reg_set bus led g =
    (if \<not> disabled led \<and> enb_ctrl led \<noteq> 0 then
       map_option snd (dev_read_modify_write bus (led_base led + ucast (enb_reg_offset led))
         (enb_reg_mask led) (enb_reg_value led) g)
     else Some g)"

section \<open>Requests and the work queue\<close>

text \<open>
  The LED core's request to set LED \<open>i\<close>: queued, or executed at once. Without memory for the work
  item the request is dropped.
\<close>

definition dev_leds_brightness_set ::
    "'io iobus \<Rightarrow> bool \<Rightarrow> nat \<Rightarrow> int \<Rightarrow> 'io led_sys \<Rightarrow> 'io led_sys option" where
  "dev_leds_brightness_set bus alloc_ok i led_value s =
    (case led_drvdata s of
       None \<Rightarrow> None
     | Some priv \<Rightarrow>
         if priv_use_workqueue priv then
           (if alloc_ok then Some (s\<lparr>led_works := led_works s @ [(i, led_value)]\<rparr>) else Some s)
         else map_option (\<lambda>g. s\<lparr>led_ga := g\<rparr>) (led_brightness_set bus (leds priv ! i) led_value (led_ga s)))"

definition dev_led_set_work :: "'io iobus \<Rightarrow> dev_led list \<Rightarrow> nat \<times> int \<Rightarrow> 'io ga_state \<Rightarrow> 'io ga_state option" where
  "dev_led_set_work bus ls work g = led_brightness_set bus (ls ! fst work) (snd work) g"

text \<open>The single worker thread runs the items in the order in which they were queued.\<close>

fun led_run_works :: "'io iobus \<Rightarrow> dev_led list \<Rightarrow> (nat \<times> int) list \<Rightarrow> 'io ga_state \<Rightarrow> 'io ga_state option" where
  "led_run_works bus ls [] g = Some g"
| "led_run_works bus ls (w # ws) g =
    (case dev_led_set_work bus ls w g of None \<Rightarrow> None | Some g \<Rightarrow> led_run_works bus ls ws g)"

section \<open>Registration\<close>

text \<open>The kernel's answers.\<close>

record led_kernel =
  parent_ok :: bool
  led_kzalloc_ok :: bool
  led_iomap :: u32
  led_of_use_wq :: bool
  led_new_wq :: "nat option"
  register_ret :: "nat \<Rightarrow> int"
  work_alloc_ok :: "nat \<Rightarrow> bool"

definition led_classdev_unregister :: "nat \<Rightarrow> 'io led_sys \<Rightarrow> 'io led_sys" where
  "led_classdev_unregister i s =
    (if i \<in> set (classdevs s) then s\<lparr>classdevs := remove1 i (classdevs s)\<rparr> else s\<lparr>bad_unregister := True\<rparr>)"

definition dev_leds_cleanup :: "nat \<Rightarrow> 'io led_sys \<Rightarrow> 'io led_sys" where
  "dev_leds_cleanup num s = fold led_classdev_unregister [0..<num] s"

definition led_update :: "nat \<Rightarrow> (dev_led \<Rightarrow> dev_led) \<Rightarrow> 'io led_sys \<Rightarrow> 'io led_sys" where
  "led_update i f s =
    (case led_drvdata s of
       None \<Rightarrow> s
     | Some p \<Rightarrow> s\<lparr>led_drvdata := Some (p\<lparr>leds := (leds p)[i := f (leds p ! i)]\<rparr>)\<rparr>)"

definition led_at :: "nat \<Rightarrow> 'io led_sys \<Rightarrow> dev_led" where
  "led_at i s = leds (the (led_drvdata s)) ! i"

text \<open>
  The loop of \<^verbatim>\<open>dev_leds_init\<close> from index \<open>i\<close> on, with \<open>n\<close> LEDs left. The brightness is set through
  the \<^verbatim>\<open>cdev.brightness_set\<close> chosen before; the registered brightness is the one from before the
  registration.
\<close>

fun dev_leds_init :: "'io iobus \<Rightarrow> led_kernel \<Rightarrow> u32 \<Rightarrow> nat \<Rightarrow> nat \<Rightarrow> int \<Rightarrow> 'io led_sys \<Rightarrow> (int \<times> 'io led_sys) option" where
  "dev_leds_init bus k dev_base i 0 ret s = Some (ret, s)"
| "dev_leds_init bus k dev_base i (Suc n) ret s =
    (let s = led_update i (\<lambda>l. l\<lparr>led_base := dev_base\<rparr>) s; ret = register_ret k i
     in if ret < 0 then Some (ret, dev_leds_cleanup i s)
        else
          let s = s\<lparr>classdevs := i # classdevs s\<rparr>; led = led_at i s
          in case (if set_hook led then dev_leds_brightness_set bus (work_alloc_ok k i) i (brightness led) s
                   else map_option (\<lambda>g. s\<lparr>led_ga := g\<rparr>) (led_brightness_set bus led (brightness led) (led_ga s))) of
               None \<Rightarrow> None
             | Some s \<Rightarrow>
                 (case dev_leds_enb_reg_set bus (led_at i s) (led_ga s) of
                    None \<Rightarrow> None
                  | Some g \<Rightarrow> dev_leds_init bus k dev_base (Suc i) n ret (s\<lparr>led_ga := g\<rparr>)))"

definition dev_leds_enable :: "dev_led list \<Rightarrow> nat \<Rightarrow> dev_led list" where
  "dev_leds_enable ls num = map (\<lambda>l. l\<lparr>disabled := False\<rparr>) (take num ls) @ drop num ls"

definition dev_leds_disable :: "dev_led list \<Rightarrow> nat \<Rightarrow> dev_led list" where
  "dev_leds_disable ls num = map (\<lambda>l. l\<lparr>disabled := True\<rparr>) (take num ls) @ drop num ls"

definition led_dev_enable :: "'io led_sys \<Rightarrow> 'io led_sys" where
  "led_dev_enable s = (case led_drvdata s of None \<Rightarrow> s
     | Some p \<Rightarrow> s\<lparr>led_drvdata := Some (p\<lparr>leds := dev_leds_enable (leds p) (num_leds p)\<rparr>)\<rparr>)"

definition led_dev_disable :: "'io led_sys \<Rightarrow> 'io led_sys" where
  "led_dev_disable s = (case led_drvdata s of None \<Rightarrow> s
     | Some p \<Rightarrow> s\<lparr>led_drvdata := Some (p\<lparr>leds := dev_leds_disable (leds p) (num_leds p)\<rparr>)\<rparr>)"

section \<open>The device tree\<close>

text \<open>A child node: its name property, and its numeric properties with their lengths in bytes.\<close>

record led_node =
  node_name :: "string option"
  node_prop :: "string \<Rightarrow> (u32 \<times> nat) option"

definition node_u32 :: "led_node \<Rightarrow> string \<Rightarrow> u32 option" where
  "node_u32 nd p = (case node_prop nd p of Some (v, len) \<Rightarrow> if len = 4 then Some v else None | None \<Rightarrow> None)"

text \<open>An optional property: absent gives the default, a wrong length is an error.\<close>

definition node_opt :: "led_node \<Rightarrow> string \<Rightarrow> u32 \<Rightarrow> u32 option" where
  "node_opt nd p d = (case node_prop nd p of None \<Rightarrow> Some d | Some (v, len) \<Rightarrow> if len = 4 then Some v else None)"

definition led_enable_props :: "led_node \<Rightarrow> dev_led \<Rightarrow> dev_led" where
  "led_enable_props nd led =
    (let led = led\<lparr>enb_ctrl := (case node_u32 nd ''enable-ctrl'' of None \<Rightarrow> 0 | Some v \<Rightarrow> ucast v),
                   enb_reg_offset := 0, enb_reg_mask := 0, enb_reg_value := 0\<rparr>
     in if enb_ctrl led = 1 then
          let led = (case node_u32 nd ''enable-reg-offset'' of None \<Rightarrow> led\<lparr>enb_ctrl := 0\<rparr>
                     | Some v \<Rightarrow> led\<lparr>enb_reg_offset := ucast v\<rparr>);
              led = (case node_u32 nd ''enable-bit-index'' of None \<Rightarrow> led\<lparr>enb_ctrl := 0\<rparr>
                     | Some v \<Rightarrow> led\<lparr>enb_reg_mask := push_bit (unat v) 1\<rparr>)
          in (case node_u32 nd ''enable-bit-value'' of None \<Rightarrow> led\<lparr>enb_ctrl := 0\<rparr>
              | Some v \<Rightarrow> led\<lparr>enb_reg_value := ucast v\<rparr>)
        else led)"

text \<open>
  The body of the loop over the children; \<open>None\<close> is the error \<^verbatim>\<open>-EFAULT\<close>. The masks are bytes: a bit index from
  8 on gives an empty mask; for an index from 32 on the shift is undefined in C, and the model keeps the
  empty mask.
\<close>

definition led_parse_child :: "bool \<Rightarrow> led_node \<Rightarrow> dev_led \<Rightarrow> dev_led option" where
  "led_parse_child use_wq nd led =
    (let led = (if use_wq then led\<lparr>set_hook := True\<rparr> else led)
     in case node_name nd of
          None \<Rightarrow> None
        | Some nm \<Rightarrow>
            let led = led\<lparr>led_name := take (LED_NAME_SIZE - 1) nm\<rparr>
            in case node_u32 nd ''reg-offset'' of
                 None \<Rightarrow> None
               | Some off \<Rightarrow>
                   let led = led\<lparr>reg_offset := ucast off\<rparr>;
                       idx = (if node_prop nd ''bit-index'' = None then ''reg-index'' else ''bit-index'')
                   in case node_u32 nd idx of
                        None \<Rightarrow> None
                      | Some ix \<Rightarrow>
                          let led = led_enable_props nd (led\<lparr>reg_mask := push_bit (unat ix) 1\<rparr>)
                          in case node_opt nd ''initial-brightness'' 0 of
                               None \<Rightarrow> None
                             | Some b \<Rightarrow>
                                 (case node_opt nd ''active_low'' 0 of
                                    None \<Rightarrow> None
                                  | Some al \<Rightarrow> Some (led\<lparr>brightness := sint b, active_low := bit al 0\<rparr>)))"

fun led_parse :: "led_node list \<Rightarrow> led_dev_priv \<Rightarrow> bool \<times> led_dev_priv" where
  "led_parse [] p = (True, p)"
| "led_parse (nd # nds) p =
    (case led_parse_child (priv_use_workqueue p) nd (leds p ! num_leds p) of
       None \<Rightarrow> (False, p)
     | Some led \<Rightarrow> led_parse nds (p\<lparr>leds := (leds p)[num_leds p := led], num_leds := Suc (num_leds p)\<rparr>))"

section \<open>Activation and deactivation\<close>

definition led_zero :: dev_led where
  "led_zero = \<lparr>led_name = [], brightness = 0, led_base = 0, reg_offset = 0, reg_mask = 0, enb_reg_offset = 0,
     enb_reg_mask = 0, enb_reg_value = 0, enb_ctrl = 0, active_low = False, disabled = False, set_hook = False\<rparr>"

text \<open>
  Destroying the work queue first runs the queued items; then the driver data is cleared, the LEDs are
  unregistered, the registers unmapped and the structure freed.
\<close>

definition led_dev_deactivate :: "'io iobus \<Rightarrow> 'io led_sys \<Rightarrow> (int \<times> 'io led_sys) option" where
  "led_dev_deactivate bus s =
    (case led_drvdata s of
       None \<Rightarrow> Some (- ENODEV, s)
     | Some p \<Rightarrow>
         (case (case priv_workqueue p of
                  None \<Rightarrow> Some s
                | Some w \<Rightarrow> map_option (\<lambda>g. s\<lparr>led_ga := g, led_works := [], led_wqs := remove1 w (led_wqs s)\<rparr>)
                    (led_run_works bus (leds p) (led_works s) (led_ga s))) of
            None \<Rightarrow> None
          | Some s \<Rightarrow>
              let s = dev_leds_cleanup (num_leds p) (s\<lparr>led_drvdata := None\<rparr>);
                  s = (if priv_reg_base p \<noteq> 0 then s\<lparr>led_iomaps := led_iomaps s - 1\<rparr> else s)
              in Some (0, s\<lparr>led_allocs := led_allocs s - 1\<rparr>)))"

definition led_fail :: "'io iobus \<Rightarrow> int \<Rightarrow> 'io led_sys \<Rightarrow> (int \<times> 'io led_sys) option" where
  "led_fail bus ret s = map_option (\<lambda>(_, s). (ret, s)) (led_dev_deactivate bus s)"

definition led_dev_activate ::
    "'io iobus \<Rightarrow> led_kernel \<Rightarrow> led_node list \<Rightarrow> 'io led_sys \<Rightarrow> (int \<times> 'io led_sys) option" where
  "led_dev_activate bus k nodes s =
    (if nodes = [] then Some (0, s)
     else if \<not> parent_ok k then led_fail bus (- ENODEV) s
     else if \<not> led_kzalloc_ok k then led_fail bus (- ENOMEM) s
     else
       let p = \<lparr>priv_workqueue = None, priv_use_workqueue = False, priv_reg_base = led_iomap k, num_leds = 0,
                leds = replicate (length nodes) led_zero\<rparr>;
           s = s\<lparr>led_allocs := Suc (led_allocs s), led_drvdata := Some p,
                 led_iomaps := led_iomaps s + (if led_iomap k \<noteq> 0 then 1 else 0)\<rparr>
       in if led_iomap k = 0 then led_fail bus (- EIO) s
          else
            let (ok, p) = led_parse nodes (p\<lparr>priv_use_workqueue := led_of_use_wq k\<rparr>);
                s = s\<lparr>led_drvdata := Some p\<rparr>
            in if \<not> ok then led_fail bus (- EFAULT) s
               else
                 case led_new_wq k of
                   None \<Rightarrow> led_fail bus (- ENODEV) s
                 | Some w \<Rightarrow>
                     let s = s\<lparr>led_wqs := w # led_wqs s, led_drvdata := Some (p\<lparr>priv_workqueue := Some w\<rparr>)\<rparr>
                     in (case dev_leds_init bus k (led_iomap k) 0 (num_leds p) 0 s of
                           None \<Rightarrow> None
                         | Some (ret, s) \<Rightarrow> if ret < 0 then led_fail bus ret s else Some (0, s)))"

text \<open>Binding and unbinding the platform device.\<close>

definition led_dev_probe ::
    "'io iobus \<Rightarrow> led_kernel \<Rightarrow> led_node list \<Rightarrow> 'io led_sys \<Rightarrow> (int \<times> 'io led_sys) option" where
  "led_dev_probe bus k nodes s = led_dev_activate bus k nodes s"

definition led_dev_remove :: "'io iobus \<Rightarrow> 'io led_sys \<Rightarrow> (int \<times> 'io led_sys) option" where
  "led_dev_remove bus s = led_dev_deactivate bus s"

section \<open>Setting and reading the brightness\<close>

lemma mask_merge_bits:
  "merge_bits (old :: u8) m v AND m = v AND m" "merge_bits old m v AND NOT m = old AND NOT m"
  unfolding merge_bits_def by (rule bit_word_eqI; auto simp: bit_simps)+

text \<open>
  Setting an LED and reading it back. On registers that behave as memory, an enabled LED with a
  register bit reports, after a request, full brightness exactly when the requested brightness is not
  zero, for active-high and active-low LEDs alike; the other bits of the register are kept.
\<close>

theorem led_set_get:
  assumes "io_memory bus" and "lock_free g" and "unhooked g" and "\<not> disabled led" and "reg_mask led \<noteq> 0"
    and "old = fst (raw_readb bus (led_addr led) (io g))"
  shows "\<exists>g' new. led_brightness_set bus led v g = Some g' \<and>
    led_brightness_get bus led g' = Some (if v \<noteq> 0 then LED_FULL else LED_OFF, g') \<and>
    dev_read bus (led_addr led) g' = Some (new, g') \<and>
    new AND NOT (reg_mask led) = old AND NOT (reg_mask led) \<and>
    new AND reg_mask led = (if (v \<noteq> 0) = active_low led then 0 else reg_mask led)"
proof -
  let ?w = "if (v \<noteq> 0) = active_low led then 0 else reg_mask led"
  obtain r g' where w: "dev_read_modify_write bus (led_addr led) (reg_mask led) ?w g = Some (r, g')"
    "dev_read bus (led_addr led) g' = Some (merge_bits old (reg_mask led) ?w, g')"
    using io_memory.rmw_read [OF assms(1-3)] assms(6) by blast
  have "led_brightness_set bus led v g = Some g'"
    using w(1) assms(4) by (cases "active_low led") (auto simp: led_brightness_set_def split: if_splits)
  moreover have "led_brightness_get bus led g' = Some (if v \<noteq> 0 then LED_FULL else LED_OFF, g')"
    using w(2) assms(4,5) by (auto simp: led_brightness_get_def mask_merge_bits)
  ultimately show ?thesis
    using w(2) by (intro exI [of _ g'] exI [of _ "merge_bits old (reg_mask led) ?w"]) (auto simp: mask_merge_bits)
qed

definition led_example :: dev_led where
  "led_example = led_zero\<lparr>led_base := 0x1000, reg_offset := 2, reg_mask := 0x08, active_low := True\<rparr>"

theorem led_set_get_witness:
  "\<exists>g'. led_brightness_set ram_bus led_example 200 ga_state0 = Some g' \<and>
     led_brightness_get ram_bus led_example g' = Some (LED_FULL, g') \<and>
     dev_read ram_bus 0x1002 g' = Some (0x52, g')"
proof -
  have a: "led_addr led_example = 0x1002" "\<not> disabled led_example" "reg_mask led_example = 8" "active_low led_example"
    "fst (raw_readb ram_bus 0x1002 (io ga_state0)) = 0x5a"
    by code_simp+
  have bits: "new = 0x52" if "new AND NOT 8 = 0x5a AND NOT (8 :: u8)" "new AND 8 = 0" for new :: u8
  proof -
    have "new = (new AND NOT 8) OR (new AND 8)" by (rule bit_word_eqI) (auto simp: bit_simps)
    also have "\<dots> = (0x5a AND NOT 8) OR 0" by (simp only: that)
    finally show ?thesis by simp
  qed
  have "reg_mask led_example \<noteq> 0" "0x5a = fst (raw_readb ram_bus (led_addr led_example) (io ga_state0))"
    using a by simp_all
  then obtain g' new where g: "led_brightness_set ram_bus led_example 200 ga_state0 = Some g'"
    "led_brightness_get ram_bus led_example g' = Some (if 200 \<noteq> (0 :: int) then LED_FULL else LED_OFF, g')"
    "dev_read ram_bus (led_addr led_example) g' = Some (new, g')"
    "new AND NOT (reg_mask led_example) = 0x5a AND NOT (reg_mask led_example)"
    "new AND reg_mask led_example = (if (200 \<noteq> (0 :: int)) = active_low led_example then 0 else reg_mask led_example)"
    using led_set_get [OF ram.io_memory_axioms ga_state0_ok a(2), of "0x5a" 200] by blast
  have "new = 0x52" using g(4,5) by (intro bits) (simp_all only: a, simp)
  with g(1-3) a(1) show ?thesis by simp
qed

section \<open>Queued and direct requests\<close>

fun led_requests :: "'io iobus \<Rightarrow> (nat \<times> int) list \<Rightarrow> 'io led_sys \<Rightarrow> 'io led_sys option" where
  "led_requests bus [] s = Some s"
| "led_requests bus (w # ws) s =
    (case dev_leds_brightness_set bus True (fst w) (snd w) s of None \<Rightarrow> None | Some s \<Rightarrow> led_requests bus ws s)"

definition led_queueing :: "bool \<Rightarrow> 'io led_sys \<Rightarrow> 'io led_sys" where
  "led_queueing q s = s\<lparr>led_drvdata := map_option (\<lambda>p. p\<lparr>priv_use_workqueue := q\<rparr>) (led_drvdata s)\<rparr>"

lemma requests_queued:
  "led_drvdata s = Some p \<Longrightarrow> priv_use_workqueue p \<Longrightarrow>
    led_requests bus ws s = Some (s\<lparr>led_works := led_works s @ ws\<rparr>)"
  by (induction ws arbitrary: s) (auto simp: dev_leds_brightness_set_def)

lemma requests_direct:
  "led_drvdata s = Some p \<Longrightarrow> \<not> priv_use_workqueue p \<Longrightarrow>
    led_requests bus ws s = map_option (\<lambda>g. s\<lparr>led_ga := g\<rparr>) (led_run_works bus (leds p) ws (led_ga s))"
  by (induction ws arbitrary: s)
    (auto simp: dev_leds_brightness_set_def dev_led_set_work_def map_option_case split: option.splits)


definition led_sys0 :: "(u32 \<Rightarrow> u8) led_sys" where
  "led_sys0 = \<lparr>led_drvdata = None, classdevs = [], bad_unregister = False, led_iomaps = 0, led_allocs = 0,
     led_wqs = [], led_works = [], led_ga = ga_state0\<rparr>"

definition led_priv0 :: led_dev_priv where
  "led_priv0 = \<lparr>priv_workqueue = Some 1, priv_use_workqueue = True, priv_reg_base = 0x1000, num_leds = 1,
     leds = [led_example]\<rparr>"


section \<open>The register bit\<close>

text \<open>
  A bit index above 7 gives an empty mask: the LED then has no register bit, a request changes nothing.
\<close>

lemma led_mask_bit:
  assumes "led_parse_child q nd led = Some led'"
    and "node_u32 nd (if node_prop nd ''bit-index'' = None then ''reg-index'' else ''bit-index'') = Some ix"
  shows "reg_mask led' = (if unat ix < 8 then push_bit (unat ix) 1 else 0)"
proof -
  have "push_bit n 1 = (0 :: u8)" if "\<not> n < 8" for n
    using that by (intro bit_word_eqI) (auto simp: bit_simps)
  moreover have "reg_mask (led_enable_props nd l) = reg_mask l" for l
    by (auto simp: led_enable_props_def Let_def split: option.splits)
  ultimately show ?thesis
    using assms by (auto simp: led_parse_child_def Let_def split: option.splits if_splits)
qed

section \<open>Activation and deactivation\<close>

text \<open>What unregistering a list of LEDs does.\<close>

lemma unregister_frame [simp]:
  "led_drvdata (led_classdev_unregister i s) = led_drvdata s" "led_iomaps (led_classdev_unregister i s) = led_iomaps s"
  "led_allocs (led_classdev_unregister i s) = led_allocs s" "led_wqs (led_classdev_unregister i s) = led_wqs s"
  "led_works (led_classdev_unregister i s) = led_works s"
  by (simp_all add: led_classdev_unregister_def)

lemma cleanup_frame [simp]:
  "led_drvdata (dev_leds_cleanup n s) = led_drvdata s" "led_iomaps (dev_leds_cleanup n s) = led_iomaps s"
  "led_allocs (dev_leds_cleanup n s) = led_allocs s" "led_wqs (dev_leds_cleanup n s) = led_wqs s"
  "led_works (dev_leds_cleanup n s) = led_works s"
  unfolding dev_leds_cleanup_def by (induction n) simp_all

lemma fold_unregister:
  assumes "distinct (classdevs s)" and "distinct xs"
  shows "classdevs (fold led_classdev_unregister xs s) = filter (\<lambda>i. i \<notin> set xs) (classdevs s)"
    and "bad_unregister (fold led_classdev_unregister xs s) \<longleftrightarrow> bad_unregister s \<or> \<not> set xs \<subseteq> set (classdevs s)"
  using assms
  by (induction xs arbitrary: s)
    (auto simp: led_classdev_unregister_def distinct_remove1_removeAll removeAll_filter_not_eq
      conj_commute intro: filter_cong)

lemma cleanup_registered:
  assumes "classdevs s = rev [0..<m]" and "n \<le> m"
  shows "classdevs (dev_leds_cleanup n s) = rev [n..<m]" and "bad_unregister (dev_leds_cleanup n s) = bad_unregister s"
proof -
  have "[0..<m] = [0..<n] @ [n..<m]" using assms(2) by (metis upt_add_eq_append zero_le le_add_diff_inverse)
  then have "filter (\<lambda>i. i \<notin> set [0..<n]) (rev [0..<m]) = rev [n..<m]"
    by (simp add: filter_empty_conv rev_filter [symmetric] filter_id_conv)
  then show "classdevs (dev_leds_cleanup n s) = rev [n..<m]"
    "bad_unregister (dev_leds_cleanup n s) = bad_unregister s"
    using assms by (auto simp: dev_leds_cleanup_def fold_unregister)
qed

lemma cleanup_none:
  assumes "classdevs s = []"
  shows "classdevs (dev_leds_cleanup n s) = []" and "bad_unregister (dev_leds_cleanup n s) \<longleftrightarrow> bad_unregister s \<or> 0 < n"
  using assms by (auto simp: dev_leds_cleanup_def fold_unregister)

text \<open>What the initialisation keeps of the device, and which LEDs are registered after it.\<close>

definition same_priv :: "led_dev_priv \<Rightarrow> led_dev_priv \<Rightarrow> bool" where
  "same_priv p q \<longleftrightarrow> num_leds q = num_leds p \<and> priv_workqueue q = priv_workqueue p \<and> priv_reg_base q = priv_reg_base p"

definition same_res :: "'io led_sys \<Rightarrow> 'io led_sys \<Rightarrow> bool" where
  "same_res s t \<longleftrightarrow> led_iomaps t = led_iomaps s \<and> led_allocs t = led_allocs s \<and> led_wqs t = led_wqs s"

lemma init_frame:
  assumes "dev_leds_init bus k b i n ret s = Some (r, s')" and "led_drvdata s = Some p"
    and "classdevs s = rev [0..<i]" and "0 \<le> ret"
  shows "\<exists>p'. led_drvdata s' = Some p' \<and> same_priv p p' \<and> same_res s s' \<and> bad_unregister s' = bad_unregister s \<and>
    classdevs s' = (if r < 0 then [] else rev [0..<i + n])"
  using assms
proof (induction n arbitrary: i ret s p)
  case 0
  then show ?case by (auto simp: same_priv_def same_res_def)
next
  case (Suc n)
  define s1 where "s1 = led_update i (\<lambda>l. l\<lparr>led_base := b\<rparr>) s"
  obtain p1 where p1: "led_drvdata s1 = Some p1" "same_priv p p1"
    using Suc.prems(2) by (auto simp: s1_def led_update_def same_priv_def)
  have s1: "classdevs s1 = rev [0..<i]" "same_res s s1" "bad_unregister s1 = bad_unregister s"
    using Suc.prems(2,3) by (auto simp: s1_def led_update_def same_res_def)
  show ?case
  proof (cases "register_ret k i < 0")
    case True
    then have "s' = dev_leds_cleanup i s1" "r = register_ret k i"
      using Suc.prems(1) by (auto simp: s1_def Let_def)
    then show ?thesis
      using p1 s1 True cleanup_registered [of s1 i i] by (auto simp: same_res_def)
  next
    case False
    define s2 where "s2 = s1\<lparr>classdevs := i # classdevs s1\<rparr>"
    obtain s3 where s3: "(if set_hook (led_at i s2) then dev_leds_brightness_set bus (work_alloc_ok k i) i (brightness (led_at i s2)) s2
        else map_option (\<lambda>g. s2\<lparr>led_ga := g\<rparr>) (led_brightness_set bus (led_at i s2) (brightness (led_at i s2)) (led_ga s2))) = Some s3"
      and rest: "\<exists>g. dev_leds_init bus k b (Suc i) n (register_ret k i) (s3\<lparr>led_ga := g\<rparr>) = Some (r, s')"
      using Suc.prems(1) False by (auto simp: s1_def [symmetric] s2_def Let_def split: option.splits if_splits)
    have f3: "led_drvdata s3 = Some p1" "classdevs s3 = rev [0..<Suc i]" "same_res s s3" "bad_unregister s3 = bad_unregister s"
      using s3 p1 s1 by (auto simp: s2_def dev_leds_brightness_set_def same_res_def split: if_splits option.splits)
    obtain g where "dev_leds_init bus k b (Suc i) n (register_ret k i) (s3\<lparr>led_ga := g\<rparr>) = Some (r, s')"
      using rest by blast
    from Suc.IH [OF this, of p1] f3 False p1(2) show ?thesis
      by (auto simp: same_priv_def same_res_def)
  qed
qed

lemma parse_priv:
  "led_parse nds p = (ok, p') \<Longrightarrow> priv_workqueue p' = priv_workqueue p \<and> priv_reg_base p' = priv_reg_base p \<and>
    num_leds p \<le> num_leds p' \<and> (ok \<longrightarrow> num_leds p' = num_leds p + length nds)"
  by (induction nds arbitrary: p) (fastforce split: option.splits)+

lemma parse_first:
  assumes "led_parse (nd # nds) p = (ok, p')"
  shows "num_leds p < num_leds p' \<longleftrightarrow> led_parse_child (priv_use_workqueue p) nd (leds p ! num_leds p) \<noteq> None"
  using assms by (auto split: option.splits dest!: parse_priv)

text \<open>Deactivation releases everything; it unregisters every LED of the device.\<close>

lemma deactivate_effect:
  assumes "led_dev_deactivate bus s = Some (r, s')" and "led_drvdata s = Some p"
  shows "r = 0 \<and> led_drvdata s' = None \<and> led_allocs s' = led_allocs s - 1 \<and>
    led_iomaps s' = led_iomaps s - (if priv_reg_base p \<noteq> 0 then 1 else 0) \<and>
    led_wqs s' = (case priv_workqueue p of None \<Rightarrow> led_wqs s | Some w \<Rightarrow> remove1 w (led_wqs s)) \<and>
    (classdevs s = rev [0..<num_leds p] \<longrightarrow> classdevs s' = [] \<and> bad_unregister s' = bad_unregister s) \<and>
    (classdevs s = [] \<longrightarrow> classdevs s' = [] \<and> (bad_unregister s' \<longleftrightarrow> bad_unregister s \<or> 0 < num_leds p))"
proof -
  obtain g ws where s': "s' = (let s = dev_leds_cleanup (num_leds p) (s\<lparr>led_ga := g, led_works := ws,
        led_wqs := (case priv_workqueue p of None \<Rightarrow> led_wqs s | Some w \<Rightarrow> remove1 w (led_wqs s)), led_drvdata := None\<rparr>);
      s = (if priv_reg_base p \<noteq> 0 then s\<lparr>led_iomaps := led_iomaps s - 1\<rparr> else s)
    in s\<lparr>led_allocs := led_allocs s - 1\<rparr>)" and r: "r = 0"
  proof (cases "priv_workqueue p")
    case None
    then show ?thesis
      using assms by (intro that [where g = "led_ga s" and ws = "led_works s"]) (auto simp: led_dev_deactivate_def Let_def)
  next
    case (Some w)
    with assms obtain g where "led_run_works bus (leds p) (led_works s) (led_ga s) = Some g"
      by (auto simp: led_dev_deactivate_def split: option.splits)
    with assms Some show ?thesis
      by (intro that [where g = g and ws = "[]"]) (auto simp: led_dev_deactivate_def Let_def)
  qed
  let ?t = "s\<lparr>led_ga := g, led_works := ws,
    led_wqs := (case priv_workqueue p of None \<Rightarrow> led_wqs s | Some w \<Rightarrow> remove1 w (led_wqs s)), led_drvdata := None\<rparr>"
  have t: "classdevs ?t = classdevs s" "bad_unregister ?t = bad_unregister s" by simp_all
  have "classdevs s = rev [0..<num_leds p] \<longrightarrow> classdevs (dev_leds_cleanup (num_leds p) ?t) = [] \<and>
      bad_unregister (dev_leds_cleanup (num_leds p) ?t) = bad_unregister s"
    using cleanup_registered [of ?t "num_leds p" "num_leds p"] unfolding t by simp
  moreover have "classdevs s = [] \<longrightarrow> classdevs (dev_leds_cleanup (num_leds p) ?t) = [] \<and>
      (bad_unregister (dev_leds_cleanup (num_leds p) ?t) \<longleftrightarrow> bad_unregister s \<or> 0 < num_leds p)"
    using cleanup_none [of ?t "num_leds p"] unfolding t by simp
  ultimately show ?thesis
    using s' r by (simp add: Let_def)
qed


text \<open>
  Activation in two parts. Without parent, memory or registers nothing is left. Otherwise the children are parsed into \<open>p\<close>, and
  the state \<open>s1\<close> has the memory, the mapping and the driver data.
\<close>

definition led_unparsed :: "led_kernel \<Rightarrow> nat \<Rightarrow> led_dev_priv" where
  "led_unparsed k n = \<lparr>priv_workqueue = None, priv_use_workqueue = led_of_use_wq k, priv_reg_base = led_iomap k,
     num_leds = 0, leds = replicate n led_zero\<rparr>"

definition led_mapped :: "led_dev_priv \<Rightarrow> 'io led_sys \<Rightarrow> 'io led_sys" where
  "led_mapped p s = s\<lparr>led_allocs := Suc (led_allocs s), led_iomaps := led_iomaps s + 1, led_drvdata := Some p\<rparr>"

lemma activate_nothing:
  assumes "led_drvdata s = None" and "classdevs s = []" and "\<not> bad_unregister s"
    and "led_dev_activate bus k (nd # nds) s = Some (r, s')" and "\<not> (parent_ok k \<and> led_kzalloc_ok k \<and> led_iomap k \<noteq> 0)"
  shows "r \<noteq> 0 \<and> led_drvdata s' = None \<and> classdevs s' = [] \<and> same_res s s' \<and> \<not> bad_unregister s'"
proof (cases "parent_ok k \<and> led_kzalloc_ok k")
  case False
  then have "r \<noteq> 0 \<and> s' = s"
    using assms(1,4) by (cases "parent_ok k") (auto simp: led_dev_activate_def led_fail_def led_dev_deactivate_def)
  then show ?thesis using assms(1-3) by (auto simp: same_res_def)
next
  case True
  then show ?thesis
    using assms by (auto simp: led_dev_activate_def led_fail_def led_dev_deactivate_def same_res_def dev_leds_cleanup_def)
qed

lemma activate_mapped:
  assumes "parent_ok k" and "led_kzalloc_ok k" and "led_iomap k \<noteq> 0" and "led_parse (nd # nds) (led_unparsed k (length (nd # nds))) = (ok, p)"
  shows "led_dev_activate bus k (nd # nds) s =
    (if \<not> ok then led_fail bus (- EFAULT) (led_mapped p s)
     else case led_new_wq k of
        None \<Rightarrow> led_fail bus (- ENODEV) (led_mapped p s)
      | Some w \<Rightarrow>
          (case dev_leds_init bus k (led_iomap k) 0 (num_leds p) 0
              ((led_mapped p s)\<lparr>led_wqs := w # led_wqs s, led_drvdata := Some (p\<lparr>priv_workqueue := Some w\<rparr>)\<rparr>) of
             None \<Rightarrow> None
           | Some (ret, s) \<Rightarrow> if ret < 0 then led_fail bus ret s else Some (0, s)))"
  using assms by (cases ok; cases "led_new_wq k")
    (simp_all add: led_dev_activate_def led_unparsed_def led_mapped_def Let_def del: led_parse.simps)

text \<open>What the failure path releases, before and after the registration of the LEDs.\<close>

lemma fail_mapped:
  assumes "led_fail bus e (led_mapped p s) = Some (r, s')" and "priv_workqueue p = None" and "priv_reg_base p \<noteq> 0"
    and "classdevs s = []" and "\<not> bad_unregister s"
  shows "r = e \<and> led_drvdata s' = None \<and> classdevs s' = [] \<and> same_res s s' \<and> (bad_unregister s' \<longleftrightarrow> 0 < num_leds p)"
proof -
  from assms(1) obtain r' where "led_dev_deactivate bus (led_mapped p s) = Some (r', s')" "r = e" by (auto simp: led_fail_def)
  with deactivate_effect [OF this(1), of p] assms(2-5) show ?thesis by (auto simp: led_mapped_def same_res_def)
qed

lemma init_deactivate:
  assumes "dev_leds_init bus k b 0 (num_leds p) 0
      ((led_mapped p s)\<lparr>led_wqs := w # led_wqs s, led_drvdata := Some (p\<lparr>priv_workqueue := Some w\<rparr>)\<rparr>) = Some (ret, s3)"
    and "priv_reg_base p \<noteq> 0" and "classdevs s = []" and "\<not> bad_unregister s"
  shows "classdevs s3 = (if ret < 0 then [] else rev [0..<num_leds p]) \<and>
    (\<forall>r s'. led_dev_deactivate bus s3 = Some (r, s') \<longrightarrow> r = 0 \<and> led_drvdata s' = None \<and> classdevs s' = [] \<and>
       same_res s s' \<and> (bad_unregister s' \<longleftrightarrow> ret < 0 \<and> 0 < num_leds p))"
proof -
  let ?s2 = "(led_mapped p s)\<lparr>led_wqs := w # led_wqs s, led_drvdata := Some (p\<lparr>priv_workqueue := Some w\<rparr>)\<rparr>"
  obtain p3 where p3: "led_drvdata s3 = Some p3" "same_priv (p\<lparr>priv_workqueue := Some w\<rparr>) p3" "same_res ?s2 s3"
    "bad_unregister s3 = bad_unregister s" "classdevs s3 = (if ret < 0 then [] else rev [0..<num_leds p])"
    using init_frame [OF assms(1)] assms(3) by (auto simp: led_mapped_def)
  have "r = 0 \<and> led_drvdata s' = None \<and> classdevs s' = [] \<and> same_res s s' \<and> (bad_unregister s' \<longleftrightarrow> ret < 0 \<and> 0 < num_leds p)"
    if "led_dev_deactivate bus s3 = Some (r, s')" for r s'
    using deactivate_effect [OF that p3(1)] p3 assms(2-4)
    by (cases "ret < 0") (auto simp: led_mapped_def same_res_def same_priv_def)
  with p3(5) show ?thesis by blast
qed

text \<open>
  C37. Activating and deactivating the LEDs. From an inactive device, after a successful activation
  every LED is registered, and deactivation unregisters exactly those and releases all resources. A
  failed activation releases its resources too; but when at least the first child node was well
  formed, the clean-up unregisters LEDs that are not registered, whatever failed afterwards: a later
  node, the work queue, or a registration.
\<close>

theorem led_lifecycle:
  assumes "led_drvdata s = None" and "classdevs s = []" and "\<not> bad_unregister s"
    and "led_dev_activate bus k (nd # nds) s = Some (r, s')"
  shows "if r = 0 then
      classdevs s' = rev [0..<Suc (length nds)] \<and>
      (\<forall>r2 s2. led_dev_deactivate bus s' = Some (r2, s2) \<longrightarrow> r2 = 0 \<and> led_drvdata s2 = None \<and>
         classdevs s2 = [] \<and> \<not> bad_unregister s2 \<and> same_res s s2)
    else
      led_drvdata s' = None \<and> classdevs s' = [] \<and> same_res s s' \<and>
      (bad_unregister s' \<longleftrightarrow> parent_ok k \<and> led_kzalloc_ok k \<and> led_iomap k \<noteq> 0 \<and>
         led_parse_child (led_of_use_wq k) nd led_zero \<noteq> None)"
proof (cases "parent_ok k \<and> led_kzalloc_ok k \<and> led_iomap k \<noteq> 0")
  case False
  with activate_nothing [OF assms(1-4) False] show ?thesis by auto
next
  case True
  obtain ok p where p: "led_parse (nd # nds) (led_unparsed k (length (nd # nds))) = (ok, p)" by (metis surj_pair)
  have pp: "priv_workqueue p = None" "priv_reg_base p \<noteq> 0" "ok \<longrightarrow> num_leds p = Suc (length nds)"
    using parse_priv [OF p] True by (auto simp: led_unparsed_def)
  have first: "0 < num_leds p \<longleftrightarrow> led_parse_child (led_of_use_wq k) nd led_zero \<noteq> None"
    using parse_first [OF p] by (simp add: led_unparsed_def)
  note act = activate_mapped [where s = s and bus = bus, OF _ _ _ p]
  show ?thesis
  proof (cases "ok \<and> led_new_wq k \<noteq> None")
    case False
    then have "led_fail bus (if ok then - ENODEV else - EFAULT) (led_mapped p s) = Some (r, s')"
      using act assms(4) True by auto
    from fail_mapped [OF this pp(1,2) assms(2,3)] True first show ?thesis by (auto split: if_splits)
  next
    case ok: True
    then obtain w where w: "led_new_wq k = Some w" by auto
    obtain ret s3 where i: "dev_leds_init bus k (led_iomap k) 0 (num_leds p) 0
        ((led_mapped p s)\<lparr>led_wqs := w # led_wqs s, led_drvdata := Some (p\<lparr>priv_workqueue := Some w\<rparr>)\<rparr>) = Some (ret, s3)"
      using act assms(4) True ok w by (auto split: option.splits)
    note d = init_deactivate [OF i pp(2) assms(2,3)]
    have "if ret < 0 then led_fail bus ret s3 = Some (r, s') else r = 0 \<and> s' = s3"
      using act assms(4) i w ok True by auto
    then show ?thesis using d first pp(3) ok True by (cases "ret < 0") (auto simp: led_fail_def)
  qed
qed

definition led_kernel_ok :: led_kernel where
  "led_kernel_ok = \<lparr>parent_ok = True, led_kzalloc_ok = True, led_iomap = 0x1000, led_of_use_wq = False,
     led_new_wq = Some 1, register_ret = (\<lambda>_. 0), work_alloc_ok = (\<lambda>_. True)\<rparr>"

definition led_node_ok :: led_node where
  "led_node_ok = \<lparr>node_name = Some ''led'', node_prop =
     (\<lambda>p. if p = ''reg-offset'' \<or> p = ''bit-index'' then Some (3, 4) else None)\<rparr>"

text \<open>The witness: two LEDs, of which the second cannot be registered.\<close>

theorem led_lifecycle_witness:
  "\<exists>s'. led_dev_activate ram_bus (led_kernel_ok\<lparr>register_ret := (\<lambda>i. if i = 1 then - 12 else 0)\<rparr>)
       [led_node_ok, led_node_ok] led_sys0 = Some (- 12, s') \<and> classdevs s' = [] \<and> bad_unregister s'"
proof -
  let ?k = "led_kernel_ok\<lparr>register_ret := (\<lambda>i. if i = 1 then - 12 else 0)\<rparr>"
  have "case led_dev_activate ram_bus ?k [led_node_ok, led_node_ok] led_sys0 of None \<Rightarrow> False | Some (r, _) \<Rightarrow> r = - 12"
    by code_simp
  then obtain s' where a: "led_dev_activate ram_bus ?k [led_node_ok, led_node_ok] led_sys0 = Some (- 12, s')"
    by (auto split: option.splits)
  have "parent_ok ?k" "led_kzalloc_ok ?k" "led_iomap ?k \<noteq> 0" "led_parse_child (led_of_use_wq ?k) led_node_ok led_zero \<noteq> None"
    "led_drvdata led_sys0 = None" "classdevs led_sys0 = []" "\<not> bad_unregister led_sys0"
    by code_simp+
  with led_lifecycle [OF this(5-7) a] a show ?thesis by auto
qed

end
