(* ===== verification/Logbuffer.thy ===== *)
theory Logbuffer
  imports Ldd_Prelude
begin

text \<open>
  The log buffer reader, \<^verbatim>\<open>src/logbuffer/logbuffer.c\<close>: \<^verbatim>\<open>/proc/logbuffer\<close> prints the lines of a log
  that the boot loader left in memory. The module parameter, the number parser and the answers of the
  kernel are parameters. An access outside an array gives \<open>None\<close>.
\<close>

section \<open>Lines\<close>

abbreviation CR :: u8 where "CR \<equiv> 0x0d"
abbreviation LF :: u8 where "LF \<equiv> 0x0a"
abbreviation LOGBUFF_MAGIC :: u32 where "LOGBUFF_MAGIC \<equiv> 0xc0de4ced"
abbreviation LOGBUFF_LEN :: nat where "LOGBUFF_LEN \<equiv> 0x8000"
abbreviation LOGBUFF_SIZE :: nat where "LOGBUFF_SIZE \<equiv> 2048"

text \<open>Storing in an array, with its bound.\<close>

definition put :: "'a list \<Rightarrow> nat \<Rightarrow> 'a \<Rightarrow> 'a list option" where
  "put xs i x = (if i < length xs then Some (xs[i := x]) else None)"

text \<open>What \<^verbatim>\<open>%s\<close> prints of a character array.\<close>

definition c_string :: "u8 list \<Rightarrow> u8 list" where
  "c_string xs = takeWhile (\<lambda>c. c \<noteq> 0) xs"

text \<open>
  The loop of \<^verbatim>\<open>process_logbuffer\<close> over the indices of \<open>buf\<close>; \<open>local\<close> is the line buffer and \<open>out\<close>
  what was printed. \<^verbatim>\<open>log_idx & LOGBUFF_MASK\<close> is the index modulo the buffer length.
\<close>

function process_loop :: "u8 list \<Rightarrow> nat \<Rightarrow> nat \<Rightarrow> u8 list \<Rightarrow> nat \<Rightarrow> u8 list list \<Rightarrow> u8 list list option" where
  "process_loop buf sz log_idx local local_idx out =
    (if \<not> log_idx < sz then Some out
     else if \<not> log_idx mod LOGBUFF_LEN < length buf then None
     else
       let c = buf ! (log_idx mod LOGBUFF_LEN)
       in if c = CR then process_loop buf sz (Suc log_idx) local local_idx out
          else case put local local_idx c of
            None \<Rightarrow> None
          | Some local \<Rightarrow>
              (case (if c = LF then
                       map_option (\<lambda>l. (l, 0, out @ [c_string l])) (put local (Suc local_idx) 0)
                     else Some (local, Suc local_idx, out)) of
                 None \<Rightarrow> None
               | Some (local, local_idx, out) \<Rightarrow>
                   process_loop buf sz (Suc log_idx) local
                     (if LOGBUFF_SIZE - 1 \<le> local_idx then local_idx - 1 else local_idx) out))"
  by pat_completeness auto

termination process_loop
  by (relation "measure (\<lambda>(buf, sz, log_idx, _). sz - log_idx)") auto

declare process_loop.simps [simp del]

text \<open>\<open>junk\<close> is the memory that \<^verbatim>\<open>kmalloc\<close> returns, if any.\<close>

definition process_logbuffer :: "u8 list option \<Rightarrow> u8 list \<Rightarrow> nat \<Rightarrow> u8 list list option" where
  "process_logbuffer junk buf sz =
    (case junk of None \<Rightarrow> Some [] | Some l \<Rightarrow> process_loop buf sz 0 l 0 [])"

section \<open>The module parameter\<close>

text \<open>\<^verbatim>\<open>get_mytoken\<close>: the text up to the next comma, copied to an array of \<open>cap\<close> bytes, and the rest.\<close>

definition get_mytoken :: "nat \<Rightarrow> string \<Rightarrow> (string \<times> string) option" where
  "get_mytoken cap inp =
    (let tok = takeWhile (\<lambda>c. c \<noteq> CHR '','') inp
     in if cap \<le> length tok then None else Some (tok, drop (Suc (length tok)) inp))"

section \<open>Showing the log\<close>

text \<open>\<^verbatim>\<open>logbuff_t\<close>; the flexible array \<open>lbuf\<close> is the rest of the mapped region. The header has 40 bytes.\<close>

record logbuff =
  tag :: u32
  lstart :: u64
  lcon :: u64
  lend :: u64
  lchars :: u64
  lbuf :: "u8 list"

abbreviation HDR :: nat where "HDR \<equiv> 40"

datatype log_result =
    Invalid_input | Region_busy | Map_failed | Bad_magic | Bad_range | Shown string "u8 list list"

text \<open>The kernel's answers, and its resources: requested regions and mappings.\<close>

record log_kernel =
  request_ok :: bool
  log_map :: "logbuff option"
  log_kmalloc :: "u8 list option"

record log_res =
  regions :: nat
  mappings :: nat

text \<open>
  The loop over the chunks. The sums are 64-bit sums; an offset that wraps around is beyond every
  mapped region and gives \<open>None\<close>.
\<close>

lemma unat_u64_bound: "unat (x :: u64) < 18446744073709551616"
  using unsigned_less [of x, where ?'a = nat] by simp

function show_loop :: "u8 list option \<Rightarrow> u8 list \<Rightarrow> u32 \<Rightarrow> u64 \<Rightarrow> u64 \<Rightarrow> u8 list list \<Rightarrow> u8 list list option" where
  "show_loop junk buf mem_size offset end out =
    (if offset < end \<and> of_nat HDR + offset < ucast mem_size then
       let sz = (if offset + of_nat LOGBUFF_LEN > end then end - offset else of_nat LOGBUFF_LEN)
       in if sz = 0 \<or> offset + sz \<le> offset then None
          else case process_logbuffer junk (drop (unat offset) buf) (unat sz) of
            None \<Rightarrow> None
          | Some ls \<Rightarrow> show_loop junk buf mem_size (offset + sz) end (out @ ls)
     else Some out)"
  by pat_completeness auto

termination show_loop
  by (relation "measure (\<lambda>(_, _, _, offset, _). 2 ^ 64 - unat offset)")
    (auto simp: word_less_nat_alt not_le unat_u64_bound intro!: diff_less_mono2)

declare show_loop.simps [simp del]


text \<open>
  \<^verbatim>\<open>logbuffer_show\<close>: the result and the resources afterwards. \<^verbatim>\<open>simple_strtol\<close> returns a 32-bit
  \<^verbatim>\<open>long\<close>, which is converted to \<^verbatim>\<open>unsigned long\<close>.
\<close>

definition logbuffer_show ::
    "(string \<Rightarrow> int) \<Rightarrow> log_kernel \<Rightarrow> string \<Rightarrow> log_res \<Rightarrow> (log_result \<times> log_res) option" where
  "logbuffer_show strtol k buffer_info res =
    (if 512 \<le> length buffer_info then None
     else case get_mytoken 128 buffer_info of None \<Rightarrow> None
     | Some (buffer_name, cur) \<Rightarrow>
    (case get_mytoken 128 cur of None \<Rightarrow> None
     | Some (len, cur) \<Rightarrow>
    (case get_mytoken 128 cur of None \<Rightarrow> None
     | Some (addr, cur) \<Rightarrow>
         let mem_address = (of_int (strtol addr) :: u32); mem_size = (of_int (strtol len) :: u32)
         in if \<not> (mem_address \<noteq> 0 \<and> of_nat HDR < mem_size) then Some (Invalid_input, res)
            else if \<not> request_ok k then Some (Region_busy, res)
            else
              let res = res\<lparr>regions := Suc (regions res)\<rparr>
              in case log_map k of
                   None \<Rightarrow> Some (Map_failed, res\<lparr>regions := regions res - 1\<rparr>)
                 | Some log \<Rightarrow>
                     let res = res\<lparr>mappings := Suc (mappings res)\<rparr>;
                         finish = (\<lambda>r. (r, res\<lparr>mappings := mappings res - 1, regions := regions res - 1\<rparr>))
                     in if tag log \<noteq> LOGBUFF_MAGIC then Some (finish Bad_magic)
                        else if lstart log > lend log \<or> lend log + of_nat HDR > ucast mem_size
                        then Some (finish Bad_range)
                        else map_option (\<lambda>ls. finish (Shown buffer_name ls))
                          (show_loop (log_kmalloc k) (lbuf log) mem_size (lstart log) (lend log) []))))"

text \<open>
  Loading and unloading: the entry in \<^verbatim>\<open>/proc\<close>. Loading succeeds also when the entry could not be
  made; \<^verbatim>\<open>remove_proc_entry\<close> ignores an entry that is not there.
\<close>

definition logbuffer_init :: "bool \<Rightarrow> string list \<Rightarrow> int \<times> string list" where
  "logbuffer_init proc_create_ok procs = (0, if proc_create_ok then ''logbuffer'' # procs else procs)"

definition logbuffer_exit :: "string list \<Rightarrow> string list" where
  "logbuffer_exit procs = removeAll ''logbuffer'' procs"

section \<open>The lines are the lines of the log\<close>

text \<open>
  The reference: the complete lines of a text (those that a newline ends), and what is printed of a
  line: at most 2046 characters and the newline, up to the first zero byte.
\<close>

fun complete_lines :: "u8 list \<Rightarrow> u8 list \<Rightarrow> u8 list list" where
  "complete_lines cur [] = []"
| "complete_lines cur (c # cs) = (if c = LF then cur # complete_lines [] cs else complete_lines (cur @ [c]) cs)"

definition shown_line :: "u8 list \<Rightarrow> u8 list" where
  "shown_line l = c_string (take (LOGBUFF_SIZE - 2) l @ [LF])"

text \<open>The line buffer holds what was read of the current line \<open>cur\<close>.\<close>

definition line_inv :: "u8 list \<Rightarrow> u8 list \<Rightarrow> nat \<Rightarrow> bool" where
  "line_inv cur local idx \<longleftrightarrow> length local = LOGBUFF_SIZE \<and> idx = min (length cur) (LOGBUFF_SIZE - 2) \<and>
     take idx local = take (LOGBUFF_SIZE - 2) cur"

lemma line_inv_add:
  assumes "line_inv cur local idx"
  shows "line_inv (cur @ [c]) (local[idx := c]) (if LOGBUFF_SIZE - 1 \<le> Suc idx then Suc idx - 1 else Suc idx)"
proof (cases "length cur < LOGBUFF_SIZE - 2")
  case True
  then show ?thesis
    using assms by (auto simp: line_inv_def take_Suc_conv_app_nth take_update_swap min_def)
next
  case False
  then show ?thesis using assms by (auto simp: line_inv_def min_def)
qed

lemma line_inv_newline:
  assumes "line_inv cur local idx"
  shows "c_string (local[idx := LF, Suc idx := 0]) = shown_line cur"
proof -
  have i: "Suc idx < length local" "take idx local = take (LOGBUFF_SIZE - 2) cur"
    using assms by (auto simp: line_inv_def)
  have "local[idx := LF, Suc idx := 0] = take idx local @ [LF] @ 0 # drop (Suc (Suc idx)) local"
    using i(1) by (simp add: upd_conv_take_nth_drop take_Suc_conv_app_nth take_update_swap)
  then show ?thesis
    by (auto simp: c_string_def shown_line_def i(2) takeWhile_append)
qed

lemma process_loop_lines:
  assumes "line_inv cur local idx" and "sz \<le> LOGBUFF_LEN" and "sz \<le> length buf" and "i \<le> sz"
  shows "process_loop buf sz i local idx out =
    Some (out @ map shown_line (complete_lines cur (filter (\<lambda>c. c \<noteq> CR) (drop i (take sz buf)))))"
  using assms
proof (induction "sz - i" arbitrary: i cur local idx out)
  case 0
  then show ?case by (subst process_loop.simps) simp
next
  case (Suc n)
  then have i: "i < sz" by simp
  define c where "c = buf ! i"
  have d: "drop i (take sz buf) = c # drop (Suc i) (take sz buf)"
    using i Suc.prems(3) by (simp add: c_def Cons_nth_drop_Suc [symmetric])
  have s: "process_loop buf sz i local idx out =
      (if c = CR then process_loop buf sz (Suc i) local idx out
       else if c = LF then process_loop buf sz (Suc i) (local[idx := LF, Suc idx := 0]) 0
              (out @ [c_string (local[idx := LF, Suc idx := 0])])
       else process_loop buf sz (Suc i) (local[idx := c]) (if LOGBUFF_SIZE - 1 \<le> Suc idx then Suc idx - 1 else Suc idx) out)"
    using i Suc.prems(1-3)
    by (subst process_loop.simps) (auto simp: c_def put_def line_inv_def Let_def)
  have IH: "process_loop buf sz (Suc i) l x ls =
      Some (ls @ map shown_line (complete_lines cu (filter (\<lambda>c. c \<noteq> CR) (drop (Suc i) (take sz buf)))))"
    if "line_inv cu l x" for cu l x ls
    using Suc.hyps(1) [of "Suc i", OF _ that] Suc.hyps(2) Suc.prems(2,3) i by simp
  have nl: "line_inv [] (local[idx := LF, Suc idx := 0]) 0"
    using Suc.prems(1) by (simp add: line_inv_def)
  show ?case
    unfolding s d using IH [OF Suc.prems(1)] IH [OF nl] IH [OF line_inv_add [OF Suc.prems(1)]]
      line_inv_newline [OF Suc.prems(1)] by simp
qed

text \<open>
  C25. The printed lines. For a chunk of at most 32768 bytes inside the buffer, the processing ends
  without leaving the line buffer, whatever the bytes are, and prints exactly the complete lines of
  the chunk without carriage returns, each cut to 2046 characters.
\<close>

theorem logbuffer_lines:
  assumes "length junk = LOGBUFF_SIZE" and "sz \<le> LOGBUFF_LEN" and "sz \<le> length buf"
  shows "process_logbuffer (Some junk) buf sz =
    Some (map shown_line (complete_lines [] (filter (\<lambda>c. c \<noteq> CR) (take sz buf))))"
  using process_loop_lines [of "[]" junk 0 sz buf 0 "[]"] assms
  by (simp add: process_logbuffer_def line_inv_def)

theorem logbuffer_lines_witness:
  "process_logbuffer (Some (replicate LOGBUFF_SIZE 7)) [0x61, CR, LF, LF, 0x62, 0x63, LF, 0x64] 8 =
     Some [[0x61, LF], [LF], [0x62, 0x63, LF]]"
proof -
  have "map shown_line (complete_lines [] (filter (\<lambda>c. c \<noteq> CR) [0x61, CR, LF, LF, 0x62, 0x63, LF, 0x64])) =
      [[0x61, LF], [LF], [0x62, 0x63, LF]]"
    by (simp add: shown_line_def c_string_def)
  then show ?thesis
    using logbuffer_lines [of "replicate LOGBUFF_SIZE 7" 8 "[0x61, CR, LF, LF, 0x62, 0x63, LF, 0x64]"] by simp
qed

section \<open>The whole log\<close>

text \<open>The text in chunks of 32768 bytes.\<close>

function log_chunks :: "u8 list \<Rightarrow> u8 list list" where
  "log_chunks xs = (if xs = [] then [] else take LOGBUFF_LEN xs # log_chunks (drop LOGBUFF_LEN xs))"
  by pat_completeness auto

termination log_chunks
  by (relation "measure length") auto

declare log_chunks.simps [simp del]

definition chunk_lines :: "u8 list \<Rightarrow> u8 list list" where
  "chunk_lines xs = map shown_line (complete_lines [] (filter (\<lambda>c. c \<noteq> CR) xs))"

lemma show_loop_lines:
  assumes "length junk = LOGBUFF_SIZE" and "offset \<le> end" and "unat end + HDR \<le> unat mem_size"
    and "unat end \<le> length buf"
  shows "show_loop (Some junk) buf mem_size offset end out =
    Some (out @ concat (map chunk_lines (log_chunks (subarr buf (unat offset) (unat end - unat offset)))))"
  using assms(2)
proof (induction "unat end - unat offset" arbitrary: offset out rule: less_induct)
  case less
  have m: "unat mem_size < 4294967296" by (rule unat_u32_bound)
  have e: "unat end < 4294967296" using m assms(3) by linarith
  have o: "unat offset \<le> unat end" using less.prems by (simp add: word_le_nat_alt)
  have plus: "unat (offset + of_nat n) = unat offset + n" "unat (of_nat HDR + offset) = HDR + unat offset"
    if "n \<le> LOGBUFF_LEN" for n
    using that e o by (simp_all add: unat_plus64 unat_of_nat64)
  show ?case
  proof (cases "offset < end")
    case False
    then have "unat offset = unat end" using o by (simp add: word_less_nat_alt)
    then show ?thesis
      using False by (simp add: show_loop.simps [of _ _ _ offset] subarr_def log_chunks.simps)
  next
    case True
    define n where "n = min LOGBUFF_LEN (unat end - unat offset)"
    have n: "0 < n" "n \<le> LOGBUFF_LEN" "unat offset + n \<le> unat end" using True by (auto simp: n_def word_less_nat_alt)
    define sz where "sz = (if offset + of_nat LOGBUFF_LEN > end then end - offset else of_nat LOGBUFF_LEN)"
    have sz: "unat sz = n"
      using plus(1) [of LOGBUFF_LEN] less.prems o unat_of_nat64 [of LOGBUFF_LEN]
      by (auto simp: sz_def n_def word_less_nat_alt unat_sub_if' min_def)
    then have o': "unat (offset + sz) = unat offset + n" using e o n by (simp add: unat_plus64)
    have "process_logbuffer (Some junk) (drop (unat offset) buf) n = Some (chunk_lines (subarr buf (unat offset) n))"
      using logbuffer_lines [OF assms(1) n(2), of "drop (unat offset) buf"] n assms(4)
      by (simp add: chunk_lines_def subarr_def)
    moreover have "of_nat HDR + offset < ucast mem_size"
      using plus(2) [of 0] True assms(3) by (simp add: word_less_nat_alt unat_ucast_up)
    ultimately have s: "show_loop (Some junk) buf mem_size offset end out =
        show_loop (Some junk) buf mem_size (offset + sz) end (out @ chunk_lines (subarr buf (unat offset) n))"
      using True sz o' n by (subst show_loop.simps, fold sz_def) (auto simp: word_le_nat_alt)
    have "log_chunks (subarr buf (unat offset) (unat end - unat offset)) =
        subarr buf (unat offset) n # log_chunks (subarr buf (unat offset + n) (unat end - (unat offset + n)))"
      using n assms(4) o
      by (subst log_chunks.simps) (auto simp: subarr_def n_def min_def drop_take add.commute)
    then show ?thesis
      unfolding s using less.hyps [of "offset + sz"] o' n by (simp add: word_le_nat_alt)
  qed
qed

lemma get_mytoken_comma:
  "CHR '','' \<notin> set tok \<Longrightarrow> length tok < cap \<Longrightarrow> get_mytoken cap (tok @ CHR '','' # rest) = Some (tok, rest)"
  by (simp add: get_mytoken_def takeWhile_append)

lemma get_mytoken_last:
  assumes "CHR '','' \<notin> set tok" and "length tok < cap"
  shows "get_mytoken cap tok = Some (tok, [])"
proof -
  have t: "takeWhile (\<lambda>c. c \<noteq> CHR '','') tok = tok"
    using assms(1) by (auto simp: takeWhile_eq_all_conv)
  show ?thesis unfolding get_mytoken_def t using assms(2) by simp
qed

text \<open>
  C38. Showing the log. For a parameter of three tokens below 128 characters and a header whose end
  does not wrap around, showing never leaves an array, returns the kernel's resources on every path, and
  for a valid header prints the complete lines of the text between start and end, chunk by chunk; it
  refuses every header whose range does not lie in the region.
\<close>

theorem logbuffer_show_correct:
  assumes "buffer_info = name @ CHR '','' # len @ CHR '','' # addr"
    and "CHR '','' \<notin> set name" and "CHR '','' \<notin> set len" and "CHR '','' \<notin> set addr"
    and "length name < 128" and "length len < 128" and "length addr < 128"
    and "mem_size = of_int (strtol len)" and "mem_address = (of_int (strtol addr) :: u32)"
    and "log_map k = Some log" and "length (lbuf log) + HDR = unat (mem_size :: u32)"
    and "log_kmalloc k = Some junk" and "length junk = LOGBUFF_SIZE" and "unat (lend log) + HDR < 2 ^ 64"
  shows "logbuffer_show strtol k buffer_info res = Some
    (if mem_address = 0 \<or> unat mem_size \<le> HDR then Invalid_input
     else if \<not> request_ok k then Region_busy
     else if tag log \<noteq> LOGBUFF_MAGIC then Bad_magic
     else if unat (lend log) < unat (lstart log) \<or> unat mem_size < unat (lend log) + HDR then Bad_range
     else Shown name (concat (map chunk_lines
            (log_chunks (subarr (lbuf log) (unat (lstart log)) (unat (lend log) - unat (lstart log)))))), res)"
proof -
  have l: "length buffer_info < 512" using assms(1,5-7) by simp
  have t: "get_mytoken 128 buffer_info = Some (name, len @ CHR '','' # addr)"
    "get_mytoken 128 (len @ CHR '','' # addr) = Some (len, addr)" "get_mytoken 128 addr = Some (addr, [])"
    using assms(1-7) by (simp_all add: get_mytoken_comma get_mytoken_last)
  have e: "unat (lend log + of_nat HDR) = unat (lend log) + HDR" "unat (of_nat HDR :: u32) = HDR"
    using assms(14) by (simp_all add: unat_plus64 unat_of_nat64 unat_of_nat32)
  have range: "lend log + of_nat HDR > ucast mem_size \<longleftrightarrow> unat mem_size < unat (lend log) + HDR"
    by (simp only: word_less_nat_alt e unat_ucast_up)
  have hdr: "of_nat HDR < mem_size \<longleftrightarrow> HDR < unat mem_size" by (simp only: word_less_nat_alt e)
  have loop: "show_loop (Some junk) (lbuf log) mem_size (lstart log) (lend log) [] =
      Some (concat (map chunk_lines (log_chunks (subarr (lbuf log) (unat (lstart log)) (unat (lend log) - unat (lstart log))))))"
    if "unat (lstart log) \<le> unat (lend log)" "unat (lend log) + HDR \<le> unat mem_size"
    using show_loop_lines [OF assms(13) _ that(2), of "lstart log" "lbuf log" "[]"] that assms(11)
    by (simp add: word_le_nat_alt)
  have body: "logbuffer_show strtol k buffer_info res =
      (if \<not> (mem_address \<noteq> 0 \<and> HDR < unat mem_size) then Some (Invalid_input, res)
       else if \<not> request_ok k then Some (Region_busy, res)
       else if tag log \<noteq> LOGBUFF_MAGIC then Some (Bad_magic, res)
       else if unat (lend log) < unat (lstart log) \<or> unat mem_size < unat (lend log) + HDR then Some (Bad_range, res)
       else map_option (\<lambda>ls. (Shown name ls, res)) (show_loop (Some junk) (lbuf log) mem_size (lstart log) (lend log) []))"
    unfolding logbuffer_show_def Let_def assms(8) [symmetric] assms(9) [symmetric] t option.case prod.case hdr range
      word_less_nat_alt [of "lend log" "lstart log"] assms(10,12)
    using l by simp
  show ?thesis
    unfolding body using loop by (simp add: not_le not_less)
qed


definition log_example :: logbuff where
  "log_example = \<lparr>tag = LOGBUFF_MAGIC, lstart = 0, lcon = 0, lend = 4, lchars = 4, lbuf = [0x61, LF, 0x62, LF, 0x63, 0, 0, 0]\<rparr>"

theorem logbuffer_show_correct_witness:
  "logbuffer_show (\<lambda>s. if s = ''48'' then 48 else 4096)
     \<lparr>request_ok = True, log_map = Some log_example, log_kmalloc = Some (replicate LOGBUFF_SIZE 0)\<rparr>
     ''log,48,4096'' \<lparr>regions = 0, mappings = 0\<rparr> =
   Some (Shown ''log'' [[0x61, LF], [0x62, LF]], \<lparr>regions = 0, mappings = 0\<rparr>)"
proof -
  have c: "log_chunks [0x61, LF, 0x62, LF] = [[0x61, LF, 0x62, LF]]"
    by (simp add: log_chunks.simps)
  have "concat (map chunk_lines (log_chunks (subarr (lbuf log_example) 0 4))) = [[0x61, LF], [0x62, LF]]"
    by (simp add: log_example_def subarr_def c chunk_lines_def shown_line_def c_string_def)
  moreover have "''log,48,4096'' = ''log'' @ CHR '','' # ''48'' @ CHR '','' # ''4096''" by simp
  ultimately show ?thesis
    using logbuffer_show_correct [of "''log,48,4096''" "''log''" "''48''" "''4096''" 48 "\<lambda>s. if s = ''48'' then 48 else 4096"
        4096 "\<lparr>request_ok = True, log_map = Some log_example, log_kmalloc = Some (replicate LOGBUFF_SIZE 0)\<rparr>"
        log_example "replicate LOGBUFF_SIZE 0" "\<lparr>regions = 0, mappings = 0\<rparr>"]
    by (simp add: log_example_def)
qed

text \<open>
  The check of the range wraps around: an end just below two to the 64 passes it, and the
  processing reads behind the mapped region.
\<close>

lemma logbuffer_end_wraps:
  "\<not> ((0 :: u64) > 0xffffffffffffffd8 \<or> 0xffffffffffffffd8 + of_nat HDR > (ucast (48 :: u32) :: u64)) \<and>
   Option.is_none (show_loop (Some (replicate LOGBUFF_SIZE 0)) (replicate 8 CR) 48 0 0xffffffffffffffd8 [])"
proof -
  have p: "process_loop (replicate 8 CR) LOGBUFF_LEN i l idx out = None" if "i \<le> 8" for i l idx out
    using that
  proof (induction "8 - i" arbitrary: i)
    case 0
    then show ?case by (subst process_loop.simps) simp
  next
    case (Suc n)
    then show ?case by (subst process_loop.simps) simp
  qed
  have "show_loop (Some l) (replicate 8 CR) 48 0 0xffffffffffffffd8 [] = None" for l
    by (subst show_loop.simps) (simp add: process_logbuffer_def p)
  moreover have "\<not> ((0 :: u64) > 0xffffffffffffffd8 \<or> 0xffffffffffffffd8 + of_nat HDR > (ucast (48 :: u32) :: u64))" by code_simp
  ultimately show ?thesis by simp
qed

text \<open>A line that crosses the end of a chunk is not shown: neither part is a complete line with its text.\<close>

lemma logbuffer_chunk_cut:
  assumes "length xs = LOGBUFF_LEN" and "LF \<notin> set xs"
  shows "concat (map chunk_lines (log_chunks (xs @ [LF]))) = [[LF]]"
proof -
  have c: "complete_lines cur ys = []" if "LF \<notin> set ys" for cur ys
    using that by (induction ys arbitrary: cur) auto
  have "log_chunks (xs @ [LF]) = [xs, [LF]]"
    using assms(1) by (simp add: log_chunks.simps [of "xs @ [LF]"] log_chunks.simps [of "[LF]"] log_chunks.simps [of "[]"])
  then show ?thesis
    using assms(2) by (simp add: chunk_lines_def c shown_line_def c_string_def)
qed

end
