(* ===== verification/User_Io.thy ===== *)
theory User_Io
  imports Ldd_Prelude
begin

text \<open>
  Input and output of the user programs: the answers of \<^verbatim>\<open>read\<close> and \<^verbatim>\<open>write\<close>, and the loops that
  repeat these calls until everything is transferred, as \<^verbatim>\<open>src/test_suite/memutil/mem_ops.c\<close>,
  \<^verbatim>\<open>src/test_suite/calamares_bin.c\<close> and \<^verbatim>\<open>src/test_suite/netrelay/relay.c\<close> have them. The answers are
  a list, consumed from the front; when it is used up, the program is still waiting and the result is
  \<open>None\<close>. The contract of a writer is the locale \<open>byte_sink\<close>.
\<close>

section \<open>Writing everything\<close>

text \<open>
  An answer of \<^verbatim>\<open>write\<close>: a number of bytes (at most the number asked for) or an error number.
\<close>

datatype io_ret = Io_ok nat | Io_err int

text \<open>
  The write loop: \<open>retry\<close> says which errors are retried. The result is the error that ended it, if
  any, what was written, and the answers that are left. A \<^verbatim>\<open>write\<close> that takes no byte ends the loop.
\<close>

fun write_all ::
  "(int \<Rightarrow> bool) \<Rightarrow> io_ret list \<Rightarrow> u8 list \<Rightarrow> u8 list \<Rightarrow> (int option \<times> u8 list \<times> io_ret list) option" where
  "write_all retry ans buf out =
    (if buf = [] then Some (None, out, ans)
     else case ans of
       [] \<Rightarrow> None
     | Io_err e # ans \<Rightarrow> if retry e then write_all retry ans buf out else Some (Some e, out, ans)
     | Io_ok n # ans \<Rightarrow>
         if n = 0 then Some (None, out, ans) else write_all retry ans (drop n buf) (out @ take n buf))"

declare write_all.simps [simp del]

text \<open>\<^verbatim>\<open>safe_write\<close> of \<^verbatim>\<open>mem_ops.c\<close> and of \<^verbatim>\<open>calamares_bin.c\<close>: the return value and what was written.\<close>

definition safe_write :: "io_ret list \<Rightarrow> u8 list \<Rightarrow> (int \<times> u8 list \<times> io_ret list) option" where
  "safe_write ans buf =
     map_option (\<lambda>(e, out, ans). (if e \<noteq> None then - 1 else int (length out), out, ans))
       (write_all (\<lambda>e. e = EINTR) ans buf [])"

definition cal_safe_write :: "io_ret list \<Rightarrow> u8 list \<Rightarrow> (int \<times> u8 list \<times> io_ret list) option" where
  "cal_safe_write ans buf =
     map_option (\<lambda>(e, out, ans). (if e \<noteq> None then - 1 else int (length out), out, ans))
       (write_all (\<lambda>e. e = EINTR) ans buf [])"

section \<open>Reading\<close>

text \<open>An answer of \<^verbatim>\<open>read\<close>: the bytes (none at the end of the file) or an error number.\<close>

datatype read_ret = Rd_ok "u8 list" | Rd_err int

fun read_loop :: "read_ret list \<Rightarrow> nat \<Rightarrow> u8 list \<Rightarrow> (int option \<times> u8 list \<times> read_ret list) option" where
  "read_loop ans len out =
    (if len = 0 then Some (None, out, ans)
     else case ans of
       [] \<Rightarrow> None
     | Rd_err e # ans \<Rightarrow> if e = EINTR then read_loop ans len out else Some (Some e, out, ans)
     | Rd_ok bs # ans \<Rightarrow>
         if bs = [] then Some (None, out, ans)
         else read_loop ans (len - length (take len bs)) (out @ take len bs))"

declare read_loop.simps [simp del]

text \<open>\<^verbatim>\<open>safe_read\<close> of \<^verbatim>\<open>mem_ops.c\<close>, and \<^verbatim>\<open>safe_read_available\<close> of \<^verbatim>\<open>calamares_bin.c\<close>, which reads once.\<close>

definition safe_read :: "read_ret list \<Rightarrow> nat \<Rightarrow> (int \<times> u8 list \<times> read_ret list) option" where
  "safe_read ans count =
     map_option (\<lambda>(e, out, ans). (if e \<noteq> None then - 1 else int (length out), out, ans))
       (read_loop ans count [])"

fun safe_read_available :: "read_ret list \<Rightarrow> nat \<Rightarrow> (int \<times> u8 list \<times> read_ret list) option" where
  "safe_read_available [] count = None"
| "safe_read_available (Rd_err e # ans) count =
    (if e = EINTR then safe_read_available ans count else Some (- 1, [], ans))"
| "safe_read_available (Rd_ok bs # ans) count =
    Some (int (length (take count bs)), take count bs, ans)"

section \<open>What the write loop transfers\<close>

text \<open>
  The answers of a file that takes bytes: each accepts at least one byte or is an error that is
  retried; \<open>accepted\<close> is the number of bytes it takes altogether.
\<close>

definition willing :: "(int \<Rightarrow> bool) \<Rightarrow> io_ret list \<Rightarrow> bool" where
  "willing retry ans \<longleftrightarrow> list_all (\<lambda>a. case a of Io_ok n \<Rightarrow> 0 < n | Io_err e \<Rightarrow> retry e) ans"

definition accepted :: "io_ret list \<Rightarrow> nat" where
  "accepted ans = sum_list (map (\<lambda>a. case a of Io_ok n \<Rightarrow> n | Io_err e \<Rightarrow> 0) ans)"

lemma willing_Cons [simp]:
  "willing retry (Io_ok n # ans) \<longleftrightarrow> 0 < n \<and> willing retry ans"
  "willing retry (Io_err e # ans) \<longleftrightarrow> retry e \<and> willing retry ans"
  "willing retry []"
  by (simp_all add: willing_def)

lemma accepted_Cons [simp]:
  "accepted (Io_ok n # ans) = n + accepted ans"
  "accepted (Io_err e # ans) = accepted ans"
  "accepted [] = 0"
  by (simp_all add: accepted_def)

lemma write_all_step [simp]:
  "write_all retry ans [] out = Some (None, out, ans)"
  "buf \<noteq> [] \<Longrightarrow> write_all retry [] buf out = None"
  "buf \<noteq> [] \<Longrightarrow> write_all retry (Io_err e # ans) buf out =
    (if retry e then write_all retry ans buf out else Some (Some e, out, ans))"
  "buf \<noteq> [] \<Longrightarrow> write_all retry (Io_ok n # ans) buf out =
    (if n = 0 then Some (None, out, ans) else write_all retry ans (drop n buf) (out @ take n buf))"
  by (subst write_all.simps, simp)+

lemma read_loop_step [simp]:
  "read_loop ans 0 out = Some (None, out, ans)"
  "0 < len \<Longrightarrow> read_loop [] len out = None"
  "0 < len \<Longrightarrow> read_loop (Rd_err e # ans) len out =
    (if e = EINTR then read_loop ans len out else Some (Some e, out, ans))"
  "0 < len \<Longrightarrow> read_loop (Rd_ok bs # ans) len out =
    (if bs = [] then Some (None, out, ans)
     else read_loop ans (len - length (take len bs)) (out @ take len bs))"
  by (subst read_loop.simps, simp)+

text \<open>A prefix is written, in order and without repetition, whatever the answers are.\<close>

lemma write_all_prefix:
  "write_all retry ans buf out = Some (e, out', ans') \<Longrightarrow>
    \<exists>k. k \<le> length buf \<and> out' = out @ take k buf"
proof (induction ans arbitrary: buf out)
  case Nil
  then show ?case by (cases "buf = []") auto
next
  case (Cons a ans)
  show ?case
  proof (cases "buf = []")
    case True
    then show ?thesis using Cons.prems by auto
  next
    case False
    show ?thesis
    proof (cases a)
      case (Io_err x)
      then show ?thesis using Cons False by (auto split: if_splits)
    next
      case (Io_ok n)
      show ?thesis
      proof (cases "n = 0")
        case True
        then show ?thesis using Cons.prems Io_ok False by auto
      next
        case pos: False
        then have "\<exists>k \<le> length (drop n buf). out' = (out @ take n buf) @ take k (drop n buf)"
          using Cons.prems False Io_ok by (intro Cons.IH) simp
        then obtain k where "k \<le> length (drop n buf)" "out' = out @ take (n + k) buf"
          by (auto simp: take_add)
        then show ?thesis
          by (intro exI [of _ "min (n + k) (length buf)"]) (auto simp: min_def)
      qed
    qed
  qed
qed

text \<open>With willing answers for all bytes, everything is written.\<close>

lemma write_all_complete:
  "willing retry ans \<Longrightarrow> length buf \<le> accepted ans \<Longrightarrow>
    \<exists>ans'. write_all retry ans buf out = Some (None, out @ buf, ans')"
proof (induction ans arbitrary: buf out)
  case Nil
  then show ?case by simp
next
  case (Cons a ans)
  show ?case
  proof (cases "buf = []")
    case False
    then show ?thesis
      using Cons.IH [of "drop (case a of Io_ok n \<Rightarrow> n | Io_err e \<Rightarrow> 0) buf"
          "out @ take (case a of Io_ok n \<Rightarrow> n | Io_err e \<Rightarrow> 0) buf"] Cons.prems
      by (cases a) auto
  qed auto
qed

text \<open>
  A willing writer makes progress with each answer that takes bytes; \<open>oks\<close> counts them.
\<close>

definition oks :: "io_ret list \<Rightarrow> nat" where
  "oks ws = length (filter (\<lambda>a. case a of Io_ok n \<Rightarrow> True | Io_err e \<Rightarrow> False) ws)"

lemma oks_Cons [simp]:
  "oks (Io_ok n # ws) = Suc (oks ws)" "oks (Io_err e # ws) = oks ws" "oks [] = 0"
  by (simp_all add: oks_def)

lemma write_all_progress:
  "willing retry ws \<Longrightarrow> length bs \<le> oks ws \<Longrightarrow>
    \<exists>ws'. write_all retry ws bs out = Some (None, out @ bs, ws') \<and> willing retry ws' \<and>
      oks ws \<le> oks ws' + length bs"
proof (induction ws arbitrary: bs out)
  case Nil
  then show ?case by simp
next
  case (Cons w ws)
  show ?case
  proof (cases "bs = []")
    case True
    then show ?thesis using Cons.prems by auto
  next
    case False
    show ?thesis
    proof (cases w)
      case (Io_err e)
      then show ?thesis using Cons False by simp
    next
      case (Io_ok n)
      then have n: "0 < n" "willing retry ws" "length (drop n bs) \<le> oks ws" "length (drop n bs) < length bs"
        using Cons.prems False by auto
      from Cons.IH [OF n(2,3), of "out @ take n bs"]
      obtain ws' where "write_all retry ws (drop n bs) (out @ take n bs) = Some (None, out @ bs, ws')"
        "willing retry ws'" "oks ws \<le> oks ws' + length (drop n bs)"
        by auto
      moreover have "Suc (oks ws) \<le> oks ws' + length bs"
        using calculation(3) n(4) by linarith
      ultimately show ?thesis using Io_ok n(1) False by auto
    qed
  qed
qed

section \<open>The contract of a writer\<close>

text \<open>
  What the programs rely on: the return value is \<open>-1\<close> or the number of bytes that were written, which
  are a prefix of the buffer; and a file that takes bytes gets all of them.
\<close>

locale byte_sink =
  fixes wr :: "io_ret list \<Rightarrow> u8 list \<Rightarrow> (int \<times> u8 list \<times> io_ret list) option"
    and retry :: "int \<Rightarrow> bool"
  assumes wr_prefix: "wr ans buf = Some (r, out, ans') \<Longrightarrow>
      (\<exists>k. k \<le> length buf \<and> out = take k buf) \<and> (r = - 1 \<or> r = int (length out))"
    and wr_complete: "willing retry ans \<Longrightarrow> length buf \<le> accepted ans \<Longrightarrow>
      \<exists>ans'. wr ans buf = Some (int (length buf), buf, ans')"
begin

lemma wr_all_or_short:
  assumes "wr ans buf = Some (r, out, ans')" and "0 \<le> r"
  shows "out = take (nat r) buf" and "r \<le> int (length buf)"
proof -
  obtain k where k: "k \<le> length buf" "out = take k buf" and r: "r = int (length out)"
    using wr_prefix [OF assms(1)] assms(2) by auto
  from k r have "nat r = k" by simp
  with k r show "out = take (nat r) buf" "r \<le> int (length buf)" by auto
qed

lemma wr_full:
  assumes "wr ans buf = Some (int (length buf), out, ans')" shows "out = buf"
  using wr_all_or_short [OF assms] by simp

end

lemma write_loop_sink:
  assumes "\<And>ans buf. wr ans buf =
    map_option (\<lambda>(e, out, ans). (if e \<noteq> None then - 1 else int (length out), out, ans))
      (write_all retry ans buf [])"
  shows "byte_sink wr retry"
proof
  fix ans buf r out ans'
  assume "wr ans buf = Some (r, out, ans')"
  then obtain e where w: "write_all retry ans buf [] = Some (e, out, ans')"
    and r: "r = (if e \<noteq> None then - 1 else int (length out))"
    by (auto simp: assms)
  show "(\<exists>k. k \<le> length buf \<and> out = take k buf) \<and> (r = - 1 \<or> r = int (length out))"
    using write_all_prefix [OF w] r by simp
next
  fix ans and buf :: "u8 list"
  assume "willing retry ans" "length buf \<le> accepted ans"
  from write_all_complete [OF this, of "[]"]
  show "\<exists>ans'. wr ans buf = Some (int (length buf), buf, ans')"
    by (auto simp: assms)
qed

interpretation mem_sink: byte_sink safe_write "\<lambda>e. e = EINTR"
  by (rule write_loop_sink) (rule safe_write_def)

interpretation cal_sink: byte_sink cal_safe_write "\<lambda>e. e = EINTR"
  by (rule write_loop_sink) (rule cal_safe_write_def)

section \<open>What the read loop transfers\<close>

text \<open>A stream of bytes as answers of \<^verbatim>\<open>read\<close>: interrupted calls and non-empty pieces of it.\<close>

definition offers :: "read_ret list \<Rightarrow> bool" where
  "offers ans \<longleftrightarrow> list_all (\<lambda>a. case a of Rd_ok bs \<Rightarrow> bs \<noteq> [] | Rd_err e \<Rightarrow> e = EINTR) ans"

definition offered :: "read_ret list \<Rightarrow> u8 list" where
  "offered ans = concat (map (\<lambda>a. case a of Rd_ok bs \<Rightarrow> bs | Rd_err e \<Rightarrow> []) ans)"

lemma offers_Cons [simp]:
  "offers (Rd_ok bs # ans) \<longleftrightarrow> bs \<noteq> [] \<and> offers ans"
  "offers (Rd_err e # ans) \<longleftrightarrow> e = EINTR \<and> offers ans"
  "offers []"
  by (simp_all add: offers_def)

lemma offered_Cons [simp]:
  "offered (Rd_ok bs # ans) = bs @ offered ans"
  "offered (Rd_err e # ans) = offered ans"
  "offered [] = []"
  by (simp_all add: offered_def)

lemma read_loop_complete:
  "offers ans \<Longrightarrow> len \<le> length (offered ans) \<Longrightarrow>
    \<exists>ans'. read_loop ans len out = Some (None, out @ take len (offered ans), ans')"
proof (induction ans arbitrary: len out)
  case Nil
  then show ?case by simp
next
  case (Cons a ans)
  show ?case
  proof (cases "len = 0")
    case False
    show ?thesis
    proof (cases a)
      case (Rd_ok bs)
      then show ?thesis
        using Cons.IH [of "len - length (take len bs)" "out @ take len bs"] Cons.prems False
        by (auto simp: min_def split: if_splits)
    next
      case (Rd_err e)
      then show ?thesis using Cons False by auto
    qed
  qed auto
qed

lemma read_loop_at_most:
  "read_loop ans len out = Some (e, out', ans') \<Longrightarrow>
    \<exists>bs. out' = out @ bs \<and> length bs \<le> len"
proof (induction ans arbitrary: len out)
  case Nil
  then show ?case by (cases "len = 0") auto
next
  case (Cons a ans)
  show ?case
  proof (cases "len = 0")
    case True
    then show ?thesis using Cons.prems by auto
  next
    case pos: False
    show ?thesis
    proof (cases a)
      case (Rd_err x)
      then show ?thesis using Cons pos by (auto split: if_splits)
    next
      case (Rd_ok bs)
      show ?thesis
      proof (cases "bs = []")
        case True
        then show ?thesis using Cons.prems Rd_ok pos by auto
      next
        case False
        then have "\<exists>cs. out' = (out @ take len bs) @ cs \<and> length cs \<le> len - length (take len bs)"
          using Cons.prems False Rd_ok pos by (intro Cons.IH) simp
        then obtain cs where "out' = out @ take len bs @ cs" "length (take len bs @ cs) \<le> len"
          by auto
        then show ?thesis by blast
      qed
    qed
  qed
qed

lemma safe_read_complete:
  "offers ans \<Longrightarrow> len \<le> length (offered ans) \<Longrightarrow>
    \<exists>ans'. safe_read ans len = Some (int len, take len (offered ans), ans')"
  using read_loop_complete [of ans len "[]"] by (auto simp: safe_read_def)

lemma safe_read_bounded:
  "safe_read ans len = Some (r, out, ans') \<Longrightarrow>
    length out \<le> len \<and> (r = - 1 \<or> r = int (length out))"
  using read_loop_at_most [of ans len "[]"] by (auto simp: safe_read_def split: if_splits)

lemma safe_read_available_bounded:
  "safe_read_available ans count = Some (r, out, ans') \<Longrightarrow>
    length out \<le> count \<and> (r = - 1 \<and> out = [] \<or> r = int (length out))"
  by (induction ans count rule: safe_read_available.induct) (auto split: if_splits)

end
