(* ===== verification/Bpf.thy ===== *)
theory Bpf
  imports Ldd_Prelude
begin

unbundle bit_operations_syntax

text \<open>
  The packet filters of \<^verbatim>\<open>src/test_suite/netrelay\<close>. \<^verbatim>\<open>dhcp_filter.c\<close> and \<^verbatim>\<open>eoe_filter.c\<close> each hold a
  program of the classic packet filter language as an array of \<^verbatim>\<open>struct sock_filter\<close>, which
  \<^verbatim>\<open>attachItfFilter\<close> hands to the socket. The theory has the instructions these programs use, the
  machine that runs them on a packet, the two programs, and the predicates on packets they compute.
\<close>

section \<open>The filter machine\<close>

text \<open>One element of the array: the operation code, the two jump distances and the constant.\<close>

datatype sock_filter = Sf u16 u8 u8 u32

text \<open>
  The operations the programs use: loads of a byte or of two bytes in network order at a fixed
  place or relative to the index register, four times the low nibble of a byte into the index
  register, a bitwise and, the two conditional jumps, and the return of a verdict.
\<close>

datatype bpf_insn =
    Ldh_abs u32 | Ldb_abs u32 | Ldh_ind u32 | Ldx_msh u32
  | And_k u32 | Jeq u32 u8 u8 | Jset u32 u8 u8 | Ret_k u32

definition bpf_decode :: "sock_filter \<Rightarrow> bpf_insn option" where
  "bpf_decode i = (case i of Sf code jt jf k \<Rightarrow>
     if code = 0x28 then Some (Ldh_abs k)
     else if code = 0x30 then Some (Ldb_abs k)
     else if code = 0x48 then Some (Ldh_ind k)
     else if code = 0xb1 then Some (Ldx_msh k)
     else if code = 0x54 then Some (And_k k)
     else if code = 0x15 then Some (Jeq k jt jf)
     else if code = 0x45 then Some (Jset k jt jf)
     else if code = 0x06 then Some (Ret_k k)
     else None)"

definition ldb :: "u8 list \<Rightarrow> nat \<Rightarrow> u32 option" where
  "ldb pkt i = (if i < length pkt then Some (ucast (pkt ! i)) else None)"

definition be16 :: "u8 list \<Rightarrow> nat \<Rightarrow> u16" where
  "be16 pkt i = push_bit 8 (ucast (pkt ! i)) OR ucast (pkt ! (i + 1))"

definition ldh :: "u8 list \<Rightarrow> nat \<Rightarrow> u32 option" where
  "ldh pkt i = (if i + 1 < length pkt then Some (ucast (be16 pkt i)) else None)"

text \<open>
  The machine: the program counter, the accumulator and the index register. A load outside the
  packet ends the program with verdict 0. The result is \<open>None\<close> when the machine leaves the program
  or meets another operation code. Jumps only go forward, so that the machine always stops.
\<close>

function bpf_run :: "sock_filter list \<Rightarrow> u8 list \<Rightarrow> nat \<Rightarrow> u32 \<Rightarrow> u32 \<Rightarrow> u32 option" where
  "bpf_run prog pkt pc a x =
    (if pc < length prog then
       case bpf_decode (prog ! pc) of
         None \<Rightarrow> None
       | Some (Ldh_abs k) \<Rightarrow>
           (case ldh pkt (unat k) of None \<Rightarrow> Some 0 | Some v \<Rightarrow> bpf_run prog pkt (pc + 1) v x)
       | Some (Ldb_abs k) \<Rightarrow>
           (case ldb pkt (unat k) of None \<Rightarrow> Some 0 | Some v \<Rightarrow> bpf_run prog pkt (pc + 1) v x)
       | Some (Ldh_ind k) \<Rightarrow>
           (case ldh pkt (unat (x + k)) of None \<Rightarrow> Some 0 | Some v \<Rightarrow> bpf_run prog pkt (pc + 1) v x)
       | Some (Ldx_msh k) \<Rightarrow>
           (case ldb pkt (unat k) of None \<Rightarrow> Some 0
            | Some v \<Rightarrow> bpf_run prog pkt (pc + 1) a (push_bit 2 (v AND 0xf)))
       | Some (And_k k) \<Rightarrow> bpf_run prog pkt (pc + 1) (a AND k) x
       | Some (Jeq k jt jf) \<Rightarrow> bpf_run prog pkt (pc + 1 + unat (if a = k then jt else jf)) a x
       | Some (Jset k jt jf) \<Rightarrow> bpf_run prog pkt (pc + 1 + unat (if a AND k \<noteq> 0 then jt else jf)) a x
       | Some (Ret_k k) \<Rightarrow> Some k
     else None)"
  by pat_completeness auto
termination
  by (relation "measure (\<lambda>(prog, pkt, pc, a, x). length prog - pc)") auto

declare bpf_run.simps [simp del]

section \<open>The programs\<close>

definition dhcp_filter :: "sock_filter list" where
  "dhcp_filter =
    [Sf 0x28 0 0 0x0000000c,
     Sf 0x15 0 13 0x00008100,
     Sf 0x28 0 0 0x0000000e,
     Sf 0x54 0 0 0x00000fff,
     Sf 0x15 10 0 0x00000ffe,
     Sf 0x28 0 0 0x00000010,
     Sf 0x15 0 8 0x00000800,
     Sf 0x30 0 0 0x0000001b,
     Sf 0x15 0 6 0x00000011,
     Sf 0x28 0 0 0x00000018,
     Sf 0x45 4 0 0x00001fff,
     Sf 0xb1 0 0 0x00000012,
     Sf 0x48 0 0 0x00000014,
     Sf 0x15 0 1 0x00000044,
     Sf 0x6 0 0 0x00040000,
     Sf 0x6 0 0 0x00000000]"

definition eoe_filter :: "sock_filter list" where
  "eoe_filter =
    [Sf 0x30 0 0 0x00000012,
     Sf 0x54 0 0 0x000000f0,
     Sf 0x15 0 3 0x00000010,
     Sf 0x28 0 0 0x00000026,
     Sf 0x15 1 0 0x000008ab,
     Sf 0x06 0 0 0x0000ffff,
     Sf 0x06 0 0 0x00000000]"

section \<open>Programs the machine does not leave\<close>

text \<open>
  A program is well formed when every instruction is one of the operations, every jump and every
  step to the next instruction stays inside, that is, the last instruction is a return.
\<close>

definition insn_ok :: "nat \<Rightarrow> nat \<Rightarrow> sock_filter \<Rightarrow> bool" where
  "insn_ok n pc i = (case bpf_decode i of
     None \<Rightarrow> False
   | Some (Ret_k k) \<Rightarrow> True
   | Some (Jeq k jt jf) \<Rightarrow> pc + 1 + unat jt < n \<and> pc + 1 + unat jf < n
   | Some (Jset k jt jf) \<Rightarrow> pc + 1 + unat jt < n \<and> pc + 1 + unat jf < n
   | Some _ \<Rightarrow> pc + 1 < n)"

definition bpf_ok :: "sock_filter list \<Rightarrow> bool" where
  "bpf_ok prog \<longleftrightarrow> prog \<noteq> [] \<and> (\<forall>pc < length prog. insn_ok (length prog) pc (prog ! pc))"

lemma bpf_run_total:
  assumes "bpf_ok prog"
  shows "pc < length prog \<Longrightarrow> \<exists>v. bpf_run prog pkt pc a x = Some v"
proof (induction "length prog - pc" arbitrary: pc a x rule: less_induct)
  case less
  have next_ok: "\<exists>v. bpf_run prog pkt pc' a' x' = Some v" if "pc < pc'" "pc' < length prog" for pc' a' x'
    using that by (intro less.hyps) auto
  have ok: "insn_ok (length prog) pc (prog ! pc)"
    using assms less.prems by (simp add: bpf_ok_def)
  show ?case
  proof (cases "bpf_decode (prog ! pc)")
    case None
    then show ?thesis using ok by (simp add: insn_ok_def)
  next
    case (Some i)
    show ?thesis
      using ok Some less.prems next_ok
      by (subst bpf_run.simps) (cases i; simp add: insn_ok_def split: option.split)
  qed
qed

lemma all_less_conv: "(\<forall>pc < length xs. P pc (xs ! pc)) \<longleftrightarrow> list_all (\<lambda>(pc, i). P pc i) (zip [0..<length xs] xs)"
  by (simp add: list_all_length)

lemma dhcp_filter_ok: "bpf_ok dhcp_filter"
  unfolding bpf_ok_def all_less_conv by code_simp

lemma eoe_filter_ok: "bpf_ok eoe_filter"
  unfolding bpf_ok_def all_less_conv by code_simp

section \<open>What the programs accept\<close>

definition dhcp_accepts :: "u8 list \<Rightarrow> bool" where
  "dhcp_accepts pkt \<longleftrightarrow>
     28 \<le> length pkt \<and> be16 pkt 12 = 0x8100 \<and> be16 pkt 14 AND 0xfff \<noteq> 0xffe \<and>
     be16 pkt 16 = 0x800 \<and> pkt ! 27 = 0x11 \<and> be16 pkt 24 AND 0x1fff = 0 \<and>
     (let ihl = 4 * unat (pkt ! 18 AND 0xf) in
      22 + ihl \<le> length pkt \<and> be16 pkt (20 + ihl) = 68)"

definition eoe_accepts :: "u8 list \<Rightarrow> bool" where
  "eoe_accepts pkt \<longleftrightarrow> 40 \<le> length pkt \<and> pkt ! 18 AND 0xf0 = 0x10 \<and> be16 pkt 38 \<noteq> 0x8ab"

text \<open>The accumulator holds a loaded value unchanged; comparisons carry over to the packet's bytes.\<close>

lemma unat_ucast16 [simp]: "unat (ucast (v :: u16) :: u32) = unat v"
  using unsigned_less [of v, where ?'a = nat]
  by (simp add: unsigned_ucast_eq take_bit_nat_eq_self_iff)

lemma unat_ucast8 [simp]: "unat (ucast (v :: u8) :: u32) = unat v"
  using unsigned_less [of v, where ?'a = nat]
  by (simp add: unsigned_ucast_eq take_bit_nat_eq_self_iff)

lemma ucast16_eq: "(ucast (v :: u16) :: u32) = ucast w \<longleftrightarrow> v = w"
  by (simp add: word_unat_eq_iff)

lemma ucast8_eq: "(ucast (v :: u8) :: u32) = ucast w \<longleftrightarrow> v = w"
  by (simp add: word_unat_eq_iff)

lemma load_compare:
  "(ucast (v :: u16) :: u32) = 0x8100 \<longleftrightarrow> v = 0x8100"
  "(ucast v :: u32) AND 0xfff = 0xffe \<longleftrightarrow> v AND 0xfff = 0xffe"
  "(ucast v :: u32) = 0x800 \<longleftrightarrow> v = 0x800"
  "(ucast v :: u32) AND 0x1fff = 0 \<longleftrightarrow> v AND 0x1fff = 0"
  "(ucast v :: u32) = 0x44 \<longleftrightarrow> v = 68"
  "(ucast v :: u32) = 0x8ab \<longleftrightarrow> v = 0x8ab"
  using ucast16_eq [of v "0x8100"] ucast16_eq [of "v AND 0xfff" "0xffe"] ucast16_eq [of v "0x800"]
    ucast16_eq [of "v AND 0x1fff" 0] ucast16_eq [of v 68] ucast16_eq [of v "0x8ab"]
  by (simp_all add: unsigned_and_eq)

lemma load_compare8:
  "(ucast (b :: u8) :: u32) = 0x11 \<longleftrightarrow> b = 0x11"
  "(ucast b :: u32) AND 0xf0 = 0x10 \<longleftrightarrow> b AND 0xf0 = 0x10"
  using ucast8_eq [of b "0x11"] ucast8_eq [of "b AND 0xf0" "0x10"] by (simp_all add: unsigned_and_eq)

lemma header_length: "unat (push_bit 2 ((ucast (b :: u8) :: u32) AND 0xf) + 20) = 20 + 4 * unat (b AND 0xf)"
proof -
  have "(ucast b :: u32) AND 0xf = ucast (b AND 0xf)" by (simp add: unsigned_and_eq)
  moreover have "unat (b AND 0xf) < 16"
    using take_bit_nat_less_exp [of 4 "unat b"] by (simp add: unsigned_and_eq take_bit_eq_mask mask_eq_exp_minus_1)
  ultimately show ?thesis
    by (simp add: push_bit_eq_mult unat_word_ariths)
qed

text \<open>One instruction at a time, with the loads written as conditions on the packet.\<close>

lemma bpf_step:
  assumes "pc < length prog" and "bpf_decode (prog ! pc) = Some i"
  shows "bpf_run prog pkt pc a x = (case i of
      Ldh_abs k \<Rightarrow> if unat k + 2 \<le> length pkt
        then bpf_run prog pkt (pc + 1) (ucast (be16 pkt (unat k))) x else Some 0
    | Ldb_abs k \<Rightarrow> if unat k + 1 \<le> length pkt
        then bpf_run prog pkt (pc + 1) (ucast (pkt ! unat k)) x else Some 0
    | Ldh_ind k \<Rightarrow> if unat (x + k) + 2 \<le> length pkt
        then bpf_run prog pkt (pc + 1) (ucast (be16 pkt (unat (x + k)))) x else Some 0
    | Ldx_msh k \<Rightarrow> if unat k + 1 \<le> length pkt
        then bpf_run prog pkt (pc + 1) a (push_bit 2 (ucast (pkt ! unat k) AND 0xf)) else Some 0
    | And_k k \<Rightarrow> bpf_run prog pkt (pc + 1) (a AND k) x
    | Jeq k jt jf \<Rightarrow> if a = k then bpf_run prog pkt (pc + 1 + unat jt) a x
        else bpf_run prog pkt (pc + 1 + unat jf) a x
    | Jset k jt jf \<Rightarrow> if a AND k = 0 then bpf_run prog pkt (pc + 1 + unat jf) a x
        else bpf_run prog pkt (pc + 1 + unat jt) a x
    | Ret_k k \<Rightarrow> Some k)"
  using assms by (subst bpf_run.simps) (cases i; simp add: ldh_def ldb_def Suc_le_eq)

lemma eoe_filter_verdict: "bpf_run eoe_filter pkt 0 0 0 = Some (if eoe_accepts pkt then 0xffff else 0)"
  by (simp add: bpf_step eoe_filter_def bpf_decode_def eoe_accepts_def load_compare load_compare8 cong: if_cong)

lemma dhcp_filter_verdict: "bpf_run dhcp_filter pkt 0 0 0 = Some (if dhcp_accepts pkt then 0x40000 else 0)"
  by (simp add: bpf_step dhcp_filter_def bpf_decode_def dhcp_accepts_def load_compare load_compare8
     header_length [simplified] Let_def cong: if_cong)

section \<open>The theorems\<close>



text \<open>
  C10. The DHCP filter accepts exactly the frames with a VLAN tag other than 4094 that carry IPv4, are
  not a later fragment, and hold a UDP datagram to port 68, wherever the header length of IP puts
  the port; frames that end before a field the program looks at are dropped.
\<close>

theorem dhcp_filter_equivalent:
  "bpf_run dhcp_filter pkt 0 0 0 = Some (if dhcp_accepts pkt then 0x40000 else 0)"
  by (rule dhcp_filter_verdict)

text \<open>
  The encapsulation filter accepts exactly the frames of at least 40 bytes with 1 in the upper
  nibble of byte 18 and another type than 0x08ab at byte 38.
\<close>

theorem eoe_filter_equivalent:
  "bpf_run eoe_filter pkt 0 0 0 = Some (if eoe_accepts pkt then 0xffff else 0)"
  by (rule eoe_filter_verdict)

end
