(* ===== verification/Relay.thy ===== *)
theory Relay
  imports User_Io Bpf
begin

text \<open>
  The packet relay, \<^verbatim>\<open>src/test_suite/netrelay/relay.c\<close>: the packet buffer, the forwarding loop, the
  table of services, the command line, the interfaces and the main program. The services themselves,
  \<^verbatim>\<open>eoe_filter.c\<close> and \<^verbatim>\<open>dhcp_filter.c\<close>, are in the theories \<open>Eoe\<close> and \<open>Dhcp\<close>; what the loop relies
  on from a service is the locale \<open>relay_service\<close>.
\<close>

section \<open>The packet buffer\<close>

text \<open>
  The buffer's memory, and \<open>bdata\<close>, the distance of the pointer \<^verbatim>\<open>data\<close> from \<^verbatim>\<open>base\<close>. \<open>malloc\<close> gives the
  contents of a fresh block, or nothing.
\<close>

record buffer =
  base :: "u8 list"
  allocated :: u32
  bdata :: nat
  bsize :: u32

definition bufferReset :: "buffer \<Rightarrow> buffer" where
  "bufferReset b = b\<lparr>bdata := 0, bsize := 0\<rparr>"

definition bufferInit :: "bool \<Rightarrow> (u32 \<Rightarrow> u8 list option) \<Rightarrow> u32 \<Rightarrow> buffer option" where
  "bufferInit mal_buf malloc n =
     (if \<not> mal_buf then None
      else case malloc n of
        None \<Rightarrow> None
      | Some m \<Rightarrow> Some (bufferReset \<lparr>base = m, allocated = n, bdata = 0, bsize = 0\<rparr>))"

definition bufferDataToTail :: "buffer \<Rightarrow> u32" where
  "bufferDataToTail b = allocated b - of_nat (bdata b)"

definition bufferSetDataSize :: "u32 \<Rightarrow> buffer \<Rightarrow> buffer" where
  "bufferSetDataSize n b = b\<lparr>bsize := n\<rparr>"

text \<open>A packet arrives: what fits between \<^verbatim>\<open>data\<close> and the end is stored, the rest is cut off.\<close>

definition buffer_read :: "u8 list \<Rightarrow> buffer \<Rightarrow> buffer" where
  "buffer_read pkt b =
     (let got = take (unat (bufferDataToTail b)) pkt in
      bufferSetDataSize (of_nat (length got)) (b\<lparr>base := blit (base b) (bdata b) got\<rparr>))"

text \<open>The bytes between \<^verbatim>\<open>data\<close> and \<^verbatim>\<open>data + size\<close>, when they are inside the memory block.\<close>

definition buffer_bytes :: "buffer \<Rightarrow> u8 list option" where
  "buffer_bytes b =
     (if bdata b + unat (bsize b) \<le> length (base b)
      then Some (subarr (base b) (bdata b) (unat (bsize b))) else None)"

definition buffer_ok :: "buffer \<Rightarrow> bool" where
  "buffer_ok b \<longleftrightarrow> length (base b) = unat (allocated b) \<and> bdata b \<le> length (base b)"

section \<open>Services\<close>

text \<open>What a service gives to the relay: its number and name, its filter and the packet routines.\<close>

record net_env =
  socket_ret :: "nat \<Rightarrow> int"
  get_flags :: "string \<Rightarrow> u16 option"
  set_flags :: "string \<Rightarrow> u16 \<Rightarrow> bool"
  get_ifindex :: "string \<Rightarrow> int option"
  get_hwaddr :: "string \<Rightarrow> u8 list option"
  bind_ret :: "int \<Rightarrow> int"
  tun_open :: int
  tun_setiff :: "string \<Rightarrow> u16 \<Rightarrow> bool"
  attach_ret :: int
  thread_ret :: int

text \<open>The calls with an effect, in the order they were made.\<close>

datatype net_ev =
    Ev_socket int
  | Ev_flags int string u16
  | Ev_bind int int "u8 list"
  | Ev_tap int string
  | Ev_close int
  | Ev_filter int "sock_filter list"
  | Ev_thread int int u32

type_synonym net_log = "net_ev list"

record relay_info =
  ri_id :: int
  ri_name :: string
  ri_filter :: "sock_filter list"
  ri_net_itf :: "net_env \<Rightarrow> string \<Rightarrow> net_log \<Rightarrow> int \<times> net_log"
  ri_srv_itf :: "net_env \<Rightarrow> string \<Rightarrow> net_log \<Rightarrow> int \<times> net_log"
  ri_bufsize :: "u32 \<Rightarrow> u32"
  ri_prepare :: "buffer \<Rightarrow> u32 \<Rightarrow> buffer"
  ri_edit :: "buffer \<Rightarrow> u32 \<Rightarrow> buffer"

abbreviation (input) SERVICE_TO_NET :: u32 where "SERVICE_TO_NET \<equiv> 1"
abbreviation (input) NET_TO_SERVICE :: u32 where "NET_TO_SERVICE \<equiv> 2"
abbreviation (input) RELAY_ID_DHCP :: int where "RELAY_ID_DHCP \<equiv> 0"
abbreviation (input) RELAY_ID_EOE :: int where "RELAY_ID_EOE \<equiv> 1"
abbreviation (input) RELAY_ID_MAX :: int where "RELAY_ID_MAX \<equiv> 2"

text \<open>
  \<^verbatim>\<open>relay_find\<close> and \<^verbatim>\<open>relay_register\<close>. The check in \<^verbatim>\<open>relay_register\<close> has no lower bound: a negative
  number indexes the table before its start, here the outcome \<open>None\<close>.
\<close>

type_synonym relay_table = "relay_info option list"

definition relay_find :: "relay_table \<Rightarrow> int \<Rightarrow> relay_info option" where
  "relay_find tab i = (if i < 0 \<or> RELAY_ID_MAX \<le> i then None else tab ! nat i)"

definition relay_register :: "relay_info option \<Rightarrow> relay_table \<Rightarrow> (int \<times> relay_table) option" where
  "relay_register info tab = (case info of
     None \<Rightarrow> Some (- 1, tab)
   | Some s \<Rightarrow>
       if RELAY_ID_MAX \<le> ri_id s then Some (- 1, tab)
       else if ri_id s < 0 then None
       else if tab ! nat (ri_id s) \<noteq> None then Some (- 1, tab)
       else Some (0, tab[nat (ri_id s) := Some s]))"

section \<open>The forwarding loop\<close>

text \<open>
  How the loop ends: it waits for a packet or in a write, the program exits after an error, or the
  bytes to be sent are not inside the buffer's memory.
\<close>

datatype fwd_end = Fwd_waiting | Fwd_exit | Fwd_overrun

definition relay_retry :: "int \<Rightarrow> bool" where
  "relay_retry e \<longleftrightarrow> e = EAGAIN \<or> e = EINTR"

fun forward_packet_from_to ::
  "(buffer \<Rightarrow> u32 \<Rightarrow> buffer) \<Rightarrow> (buffer \<Rightarrow> u32 \<Rightarrow> buffer) \<Rightarrow> u32 \<Rightarrow> read_ret list \<Rightarrow> io_ret list \<Rightarrow> buffer
    \<Rightarrow> u8 list list \<times> fwd_end" where
  "forward_packet_from_to prepare edit priv [] ws b = ([], Fwd_waiting)"
| "forward_packet_from_to prepare edit priv (Rd_err e # rs) ws b =
    (if relay_retry e then forward_packet_from_to prepare edit priv rs ws (prepare b priv) else ([], Fwd_exit))"
| "forward_packet_from_to prepare edit priv (Rd_ok pkt # rs) ws b =
    (let b = edit (buffer_read pkt (prepare b priv)) priv in
     case buffer_bytes b of
       None \<Rightarrow> ([], Fwd_overrun)
     | Some bs \<Rightarrow>
         (case write_all relay_retry ws bs [] of
            None \<Rightarrow> ([], Fwd_waiting)
          | Some (Some e, out, ws) \<Rightarrow> ([out], Fwd_exit)
          | Some (None, out, ws) \<Rightarrow>
              (let (outs, r) = forward_packet_from_to prepare edit priv rs ws b in (out # outs, r))))"

section \<open>The command line\<close>

text \<open>
  The static variables of the program, and the options as \<^verbatim>\<open>getopt\<close> returns them, each with its
  argument. \<^verbatim>\<open>relayId\<close> starts as \<open>RELAY_ID_DHCP\<close>.
\<close>

record relay_vars =
  logLevel :: nat
  syslogEnabled :: bool
  serviceEnabled :: bool
  filterEnable :: bool
  relayId :: int
  netItf :: "string option"
  serviceItf :: "string option"

definition relay_vars0 :: relay_vars where
  "relay_vars0 = \<lparr>logLevel = 0, syslogEnabled = False, serviceEnabled = False, filterEnable = False,
     relayId = RELAY_ID_DHCP, netItf = None, serviceItf = None\<rparr>"

definition parse_opt :: "char \<Rightarrow> string \<Rightarrow> relay_vars \<Rightarrow> relay_vars option" where
  "parse_opt c arg v =
    (if c = CHR ''n'' then Some (v\<lparr>netItf := Some arg\<rparr>)
     else if c = CHR ''t'' then Some (v\<lparr>serviceItf := Some arg\<rparr>)
     else if c = CHR ''s'' then Some (v\<lparr>syslogEnabled := True\<rparr>)
     else if c = CHR ''d'' then Some (if logLevel v < 2 then v\<lparr>logLevel := logLevel v + 1\<rparr> else v)
     else if c = CHR ''E'' then Some (v\<lparr>serviceEnabled := True, relayId := RELAY_ID_EOE\<rparr>)
     else if c = CHR ''V'' then Some (v\<lparr>serviceEnabled := True, relayId := RELAY_ID_DHCP\<rparr>)
     else if c = CHR ''F'' then Some (v\<lparr>filterEnable := True\<rparr>)
     else if c = CHR '':'' then Some v
     else None)"

fun parse_opts :: "(char \<times> string) list \<Rightarrow> relay_vars \<Rightarrow> relay_vars option" where
  "parse_opts [] v = Some v"
| "parse_opts ((c, arg) # os) v =
    (case parse_opt c arg v of None \<Rightarrow> None | Some v \<Rightarrow> parse_opts os v)"

definition parseArgs :: "(char \<times> string) list \<Rightarrow> relay_vars \<Rightarrow> relay_vars option" where
  "parseArgs os v =
     (case parse_opts os (v\<lparr>netItf := None, serviceItf := None\<rparr>) of
        None \<Rightarrow> None
      | Some v \<Rightarrow> if netItf v = None \<or> serviceItf v = None then None else Some v)"

section \<open>Interfaces\<close>

text \<open>Interface names are cut to the size of \<^verbatim>\<open>ifr_name\<close>: 16 bytes by \<^verbatim>\<open>strncpy\<close>, 15 by \<^verbatim>\<open>snprintf\<close>.\<close>

abbreviation (input) IFF_PROMISC :: u16 where "IFF_PROMISC \<equiv> 0x100"
abbreviation (input) IFF_NOARP :: u16 where "IFF_NOARP \<equiv> 0x80"

definition setItfToPromisc :: "net_env \<Rightarrow> int \<Rightarrow> string \<Rightarrow> net_log \<Rightarrow> bool \<times> net_log" where
  "setItfToPromisc env fd itf lg =
     (let name = take 16 itf in
      case get_flags env name of
        None \<Rightarrow> (False, lg)
      | Some fl \<Rightarrow>
          (let fl = fl OR IFF_PROMISC OR IFF_NOARP in
           if set_flags env name fl then (True, lg @ [Ev_flags fd name fl]) else (False, lg)))"

definition getMacAddressOf :: "net_env \<Rightarrow> string \<Rightarrow> u8 list option" where
  "getMacAddressOf env itf = map_option (take 6) (get_hwaddr env (take 15 itf))"

definition getLLsocketOf :: "net_env \<Rightarrow> string \<Rightarrow> (int \<times> u8 list) option" where
  "getLLsocketOf env itf =
     (case get_ifindex env (take 15 itf) of
        None \<Rightarrow> None
      | Some i \<Rightarrow> (case getMacAddressOf env itf of None \<Rightarrow> None | Some mac \<Rightarrow> Some (i, mac)))"

definition attachItfFilter :: "net_env \<Rightarrow> int \<Rightarrow> sock_filter list \<Rightarrow> net_log \<Rightarrow> net_log option" where
  "attachItfFilter env fd prog lg = (if attach_ret env < 0 then None else Some (lg @ [Ev_filter fd prog]))"

definition createThread :: "net_env \<Rightarrow> int \<Rightarrow> int \<Rightarrow> u32 \<Rightarrow> net_log \<Rightarrow> bool \<times> net_log" where
  "createThread env from_fd to_fd priv lg =
     (if thread_ret env \<noteq> 0 then (False, lg) else (True, lg @ [Ev_thread from_fd to_fd priv]))"

section \<open>The main program\<close>

text \<open>
  \<open>service_init\<close> registers the service the program is linked with. The result is \<open>None\<close> when the
  program ends with a failure before it forwards anything, and otherwise the arguments of the two
  forwarding loops: the thread's and the main program's.
\<close>

record threadArgs =
  from_fd :: int
  to_fd :: int
  priv :: u32

definition SERVICE_PRIV :: "bool \<Rightarrow> u32 \<Rightarrow> u32" where
  "SERVICE_PRIV enabled opCode = (if enabled then opCode else 0)"

definition relay_main ::
  "(relay_table \<Rightarrow> (int \<times> relay_table) option) \<Rightarrow> net_env \<Rightarrow> (char \<times> string) list
    \<Rightarrow> (relay_info \<times> threadArgs \<times> threadArgs) option \<times> net_log" where
  "relay_main service_init env os =
     (case parseArgs os relay_vars0 of
        None \<Rightarrow> (None, [])
      | Some v \<Rightarrow>
     (case service_init [None, None] of
        None \<Rightarrow> (None, [])
      | Some (r, tab) \<Rightarrow>
     if r \<noteq> 0 then (None, []) else
     (case relay_find tab (relayId v) of
        None \<Rightarrow> (None, [])
      | Some info \<Rightarrow>
     (let (net_fd, lg) = ri_net_itf info env (the (netItf v)) [] in
      if net_fd = - 1 then (None, lg) else
     (case (if filterEnable v then attachItfFilter env net_fd (ri_filter info) lg else Some lg) of
        None \<Rightarrow> (None, lg)
      | Some lg \<Rightarrow>
     (let (service_fd, lg) = ri_srv_itf info env (the (serviceItf v)) lg in
      if service_fd = - 1 then (None, lg) else
     (let s2n = \<lparr>from_fd = service_fd, to_fd = net_fd, priv = SERVICE_PRIV (serviceEnabled v) SERVICE_TO_NET\<rparr>;
          (ok, lg) = createThread env service_fd net_fd (priv s2n) lg in
      if \<not> ok then (None, lg) else
      (Some (info, s2n,
         \<lparr>from_fd = net_fd, to_fd = service_fd, priv = SERVICE_PRIV (serviceEnabled v) NET_TO_SERVICE\<rparr>), lg))))))))"

text \<open>The service of a program that is linked without one.\<close>

definition dummy_service_init :: "relay_table \<Rightarrow> (int \<times> relay_table) option" where
  "dummy_service_init tab = Some (- 1, tab)"

lemma relay_main_dummy: "fst (relay_main dummy_service_init env os) = None"
  by (simp add: relay_main_def dummy_service_init_def split: option.split)

section \<open>The buffer\<close>

lemma buffer_reset_simps [simp]:
  "base (bufferReset b) = base b" "allocated (bufferReset b) = allocated b"
  "bdata (bufferReset b) = 0" "bsize (bufferReset b) = 0"
  by (simp_all add: bufferReset_def)

lemma bufferInit_ok:
  assumes "bufferInit mb malloc n = Some b" and "\<And>m. malloc n = Some m \<Longrightarrow> length m = unat n"
  shows "buffer_ok b" and "allocated b = n"
  using assms by (auto simp: bufferInit_def buffer_ok_def split: if_splits option.splits)

lemma data_to_tail:
  assumes "buffer_ok b"
  shows "unat (bufferDataToTail b) = length (base b) - bdata b"
proof -
  have "bdata b \<le> unat (allocated b)" using assms by (simp add: buffer_ok_def)
  moreover have "unat (of_nat (bdata b) :: u32) = bdata b"
    using calculation unat_u32_bound [of "allocated b"] by (intro unat_of_nat32) simp
  ultimately show ?thesis
    using assms by (simp add: bufferDataToTail_def unat_sub32 word_le_nat_alt buffer_ok_def)
qed

text \<open>Whatever arrives, the buffer stays as large as it was and the packet is what can be sent.\<close>

lemma buffer_read_ok:
  fixes b :: buffer and pkt :: "u8 list"
  assumes "buffer_ok b"
  defines "got \<equiv> take (length (base b) - bdata b) pkt"
  shows "buffer_ok (buffer_read pkt b)"
    and "bdata (buffer_read pkt b) = bdata b"
    and "unat (bsize (buffer_read pkt b)) = length got"
    and "base (buffer_read pkt b) = blit (base b) (bdata b) got"
    and "allocated (buffer_read pkt b) = allocated b"
    and "buffer_bytes (buffer_read pkt b) = Some got"
proof -
  have fits: "bdata b + length got \<le> length (base b)"
    using assms by (auto simp: got_def buffer_ok_def)
  then have len: "length (blit (base b) (bdata b) got) = length (base b)" by (rule length_blit)
  have "length got < 2 ^ 32"
    using fits assms(1) unat_u32_bound [of "allocated b"] by (simp add: buffer_ok_def)
  then have sz: "unat (of_nat (length got) :: u32) = length got" by (rule unat_of_nat32)
  have eq: "buffer_read pkt b = b\<lparr>base := blit (base b) (bdata b) got, bsize := of_nat (length got)\<rparr>"
    using assms(1) by (simp add: buffer_read_def got_def data_to_tail bufferSetDataSize_def)
  show "buffer_ok (buffer_read pkt b)" "bdata (buffer_read pkt b) = bdata b"
    "unat (bsize (buffer_read pkt b)) = length got"
    "base (buffer_read pkt b) = blit (base b) (bdata b) got"
    "allocated (buffer_read pkt b) = allocated b"
    using assms(1) len sz by (simp_all add: eq buffer_ok_def)
  show "buffer_bytes (buffer_read pkt b) = Some got"
    using fits len sz by (simp add: eq buffer_bytes_def subarr_blit_same)
qed

section \<open>What the loop forwards\<close>

text \<open>
  The contract of a service in one direction: an invariant of its buffer, the packets it handles and
  what it makes of them.
\<close>

locale relay_service =
  fixes prepare edit :: "buffer \<Rightarrow> u32 \<Rightarrow> buffer" and prv :: u32
    and inv :: "buffer \<Rightarrow> bool" and handles :: "u8 list \<Rightarrow> bool" and f :: "u8 list \<Rightarrow> u8 list"
  assumes prepare_inv: "inv b \<Longrightarrow> inv (prepare b prv)"
    and serves: "inv b \<Longrightarrow> handles pkt \<Longrightarrow>
      inv (edit (buffer_read pkt (prepare b prv)) prv) \<and>
      buffer_bytes (edit (buffer_read pkt (prepare b prv)) prv) = Some (f pkt)"
begin

text \<open>
  Every packet is sent, translated, in the order of arrival, as long as the receiving side takes
  bytes; interrupted calls are repeated.
\<close>

lemma forwards_all:
  assumes "inv b" and "list_all (\<lambda>r. case r of Rd_ok pkt \<Rightarrow> handles pkt | Rd_err e \<Rightarrow> relay_retry e) rs"
    and "willing relay_retry ws"
    and "sum_list (map (\<lambda>r. case r of Rd_ok pkt \<Rightarrow> length (f pkt) | Rd_err e \<Rightarrow> 0) rs) \<le> oks ws"
  shows "forward_packet_from_to prepare edit prv rs ws b =
    (map f [pkt. Rd_ok pkt \<leftarrow> rs], Fwd_waiting)"
  using assms
proof (induction rs arbitrary: ws b)
  case Nil
  then show ?case by simp
next
  case (Cons r rs)
  show ?case
  proof (cases r)
    case (Rd_err e)
    then show ?thesis using Cons prepare_inv [of b] by simp
  next
    case (Rd_ok pkt)
    let ?b = "edit (buffer_read pkt (prepare b prv)) prv"
    have s: "inv ?b" "buffer_bytes ?b = Some (f pkt)"
      using serves [of b pkt] Cons.prems Rd_ok by auto
    obtain ws' where w: "write_all relay_retry ws (f pkt) [] = Some (None, f pkt, ws')"
      and ws': "willing relay_retry ws'" "oks ws \<le> oks ws' + length (f pkt)"
      using write_all_progress [of relay_retry ws "f pkt" "[]"] Cons.prems Rd_ok by auto
    have "forward_packet_from_to prepare edit prv rs ws' ?b = (map f [pkt. Rd_ok pkt \<leftarrow> rs], Fwd_waiting)"
      using Cons.prems Rd_ok s ws' by (intro Cons.IH) auto
    then show ?thesis using Rd_ok s w by simp
  qed
qed

end

section \<open>The table of services\<close>

lemma relay_register_find:
  assumes "relay_register (Some s) tab = Some (0, tab')" and "length tab = 2"
  shows "relay_find tab' (ri_id s) = Some s" and "relay_find tab (ri_id s) = None"
    and "i \<noteq> ri_id s \<Longrightarrow> relay_find tab' i = relay_find tab i"
  using assms by (auto simp: relay_register_def relay_find_def nth_list_update split: if_splits)

section \<open>The main program starts forwarding\<close>

lemma relay_main_starts:
  assumes "relay_main service_init env os = (Some (info, s2n, n2s), lg)"
  obtains v tab net_fd lg1 lg2 service_fd lg3 where
    "parseArgs os relay_vars0 = Some v" "service_init [None, None] = Some (0, tab)"
    "relay_find tab (relayId v) = Some info"
    "ri_net_itf info env (the (netItf v)) [] = (net_fd, lg1)" "net_fd \<noteq> - 1"
    "(if filterEnable v then attachItfFilter env net_fd (ri_filter info) lg1 else Some lg1) = Some lg2"
    "ri_srv_itf info env (the (serviceItf v)) lg2 = (service_fd, lg3)" "service_fd \<noteq> - 1"
    "s2n = \<lparr>from_fd = service_fd, to_fd = net_fd, priv = SERVICE_PRIV (serviceEnabled v) SERVICE_TO_NET\<rparr>"
    "n2s = \<lparr>from_fd = net_fd, to_fd = service_fd, priv = SERVICE_PRIV (serviceEnabled v) NET_TO_SERVICE\<rparr>"
    "createThread env service_fd net_fd (priv s2n) lg3 = (True, lg)"
proof -
  obtain v where v: "parseArgs os relay_vars0 = Some v"
    using assms by (cases "parseArgs os relay_vars0") (simp_all add: relay_main_def)
  obtain r tab where s: "service_init [None, None] = Some (r, tab)"
    using assms v by (cases "service_init [None, None]") (auto simp: relay_main_def)
  have r: "r = 0"
    using assms v s by (cases "r = 0") (simp_all add: relay_main_def)
  obtain inf where i: "relay_find tab (relayId v) = Some inf"
    using assms v s r by (cases "relay_find tab (relayId v)") (simp_all add: relay_main_def)
  obtain net_fd lg1 where n: "ri_net_itf inf env (the (netItf v)) [] = (net_fd, lg1)"
    by (cases "ri_net_itf inf env (the (netItf v)) []")
  have n': "net_fd \<noteq> - 1"
    using assms v s r i n by (cases "net_fd = - 1") (simp_all add: relay_main_def)
  let ?att = "if filterEnable v then attachItfFilter env net_fd (ri_filter inf) lg1 else Some lg1"
  have "?att \<noteq> None"
  proof (cases "filterEnable v")
    case True
    then show ?thesis
      using assms v s r i n n' by (cases "attachItfFilter env net_fd (ri_filter inf) lg1") (simp_all add: relay_main_def)
  qed simp
  then obtain lg2 where f: "?att = Some lg2" by blast
  obtain service_fd lg3 where w: "ri_srv_itf inf env (the (serviceItf v)) lg2 = (service_fd, lg3)"
    by (cases "ri_srv_itf inf env (the (serviceItf v)) lg2")
  have w': "service_fd \<noteq> - 1"
    using assms v s r i n n' w by (cases "service_fd = - 1") (simp_all add: relay_main_def f)
  have "inf = info \<and>
    s2n = \<lparr>from_fd = service_fd, to_fd = net_fd, priv = SERVICE_PRIV (serviceEnabled v) SERVICE_TO_NET\<rparr> \<and>
    n2s = \<lparr>from_fd = net_fd, to_fd = service_fd, priv = SERVICE_PRIV (serviceEnabled v) NET_TO_SERVICE\<rparr> \<and>
    createThread env service_fd net_fd (priv s2n) lg3 = (True, lg)"
    using assms v s r i n n' w w'
    by (cases "createThread env service_fd net_fd (SERVICE_PRIV (serviceEnabled v) SERVICE_TO_NET) lg3")
      (auto simp: relay_main_def f split: if_splits)
  then show thesis
    using that [of v tab net_fd lg1 lg2 service_fd lg3] v s r i n n' f w w' by (elim conjE) (hypsubst, simp)
qed

lemma parse_opt_service:
  assumes "parse_opt c arg v = Some v'" and "relayId v = RELAY_ID_EOE \<longrightarrow> serviceEnabled v"
  shows "relayId v' = RELAY_ID_EOE \<longrightarrow> serviceEnabled v'"
  using assms unfolding parse_opt_def by (simp split: if_split_asm) force+

lemma parse_opts_service:
  "parse_opts os v = Some v' \<Longrightarrow> relayId v = RELAY_ID_EOE \<longrightarrow> serviceEnabled v \<Longrightarrow>
    relayId v' = RELAY_ID_EOE \<longrightarrow> serviceEnabled v'"
proof (induction os v rule: parse_opts.induct)
  case (2 c arg os v)
  then show ?case using parse_opt_service [of c arg v] by (cases "parse_opt c arg v") simp_all
qed simp

lemma parseArgs_ok:
  assumes "parseArgs os relay_vars0 = Some v"
  shows "netItf v \<noteq> None" "serviceItf v \<noteq> None" "relayId v = RELAY_ID_EOE \<Longrightarrow> serviceEnabled v"
  using assms parse_opts_service [of os "relay_vars0\<lparr>netItf := None, serviceItf := None\<rparr>" v]
  by (auto simp: parseArgs_def relay_vars0_def split: option.splits if_splits)

end
