(* ===== verification/Eoe.thy ===== *)
theory Eoe
  imports Relay
begin

unbundle bit_operations_syntax

text \<open>
  The encapsulation service of the relay, \<^verbatim>\<open>src/test_suite/netrelay/eoe_filter.c\<close>: packets from the tap
  interface are padded and get a 22-byte header, packets from the network lose it. The theory has the
  header, the packet routines and the interfaces of the service, shows that both directions keep the
  contract \<open>relay_service\<close>, and what the two directions and the filter do together.
\<close>

section \<open>The header\<close>

record eoeHeader =
  eh_dmac :: "u8 list"
  eh_smac :: "u8 list"
  eh_tag :: u32
  eh_len :: u16
  eh_op_code :: u8
  eh_downstream :: u8
  eh_flag :: u8
  eh_itf :: u16
  eh_protocol_id :: u8

definition le16 :: "u16 \<Rightarrow> u8 list" where
  "le16 v = [ucast v, ucast (drop_bit 8 v)]"

definition le32 :: "u32 \<Rightarrow> u8 list" where
  "le32 v = [ucast v, ucast (drop_bit 8 v), ucast (drop_bit 16 v), ucast (drop_bit 24 v)]"

text \<open>
  The header in memory on the target: packed, multi-byte fields with their low byte first, and the
  three bit fields of one byte from its low end: four bits, one bit, three bits.
\<close>

definition eoe_bytes :: "eoeHeader \<Rightarrow> u8 list" where
  "eoe_bytes h = eh_dmac h @ eh_smac h @ le32 (eh_tag h) @ le16 (eh_len h) @
     [(eh_op_code h AND 0xf) OR push_bit 4 (eh_downstream h AND 1) OR push_bit 5 (eh_flag h)] @
     le16 (eh_itf h) @ [eh_protocol_id h]"

abbreviation (input) EOE_HEADER_SIZE :: nat where "EOE_HEADER_SIZE \<equiv> 22"
abbreviation (input) EOE_MIN_PAYLOAD_SIZE :: nat where "EOE_MIN_PAYLOAD_SIZE \<equiv> 64"
abbreviation (input) EOE_ADD_HEADER :: u32 where "EOE_ADD_HEADER \<equiv> SERVICE_TO_NET"
abbreviation (input) EOE_DEL_HEADER :: u32 where "EOE_DEL_HEADER \<equiv> NET_TO_SERVICE"
abbreviation (input) IP_MAXPACKET :: u32 where "IP_MAXPACKET \<equiv> 65535"

definition initEoeHeader :: "u32 \<Rightarrow> eoeHeader" where
  "initEoeHeader payloadSize =
     \<lparr>eh_dmac = [0x06, 0x00, 0x00, 0x00, 0x00, 0xF8], eh_smac = [0x06, 0x00, 0x00, 0x00, 0x00, 0x78],
      eh_tag = 0x81000FFE, eh_len = ucast (payloadSize + (22 - 6 - 6 - 4 - 2)),
      eh_op_code = 8, eh_downstream = 0, eh_flag = 0, eh_itf = 0, eh_protocol_id = 0\<rparr>"

section \<open>The packet routines\<close>

definition eoe_bufsize :: "u32 \<Rightarrow> u32" where
  "eoe_bufsize prv =
     (if prv = EOE_ADD_HEADER \<or> prv = EOE_DEL_HEADER then IP_MAXPACKET + 22 else IP_MAXPACKET)"

definition eoe_prepare :: "buffer \<Rightarrow> u32 \<Rightarrow> buffer" where
  "eoe_prepare b prv =
     (let b = bufferReset b in
      if prv = EOE_ADD_HEADER then b\<lparr>bdata := bdata b + EOE_HEADER_SIZE\<rparr> else b)"

definition extendPacketPayload :: "buffer \<Rightarrow> buffer" where
  "extendPacketPayload b =
     (if bsize b < 64
      then b\<lparr>base := memset (base b) (bdata b + unat (bsize b)) 0 (EOE_MIN_PAYLOAD_SIZE - unat (bsize b)),
             bsize := 64\<rparr>
      else b)"

definition addEoeHeader :: "buffer \<Rightarrow> buffer" where
  "addEoeHeader b =
     (let b = extendPacketPayload b;
          header = initEoeHeader (bsize b);
          b = b\<lparr>bdata := bdata b - EOE_HEADER_SIZE, bsize := bsize b + 22\<rparr> in
      b\<lparr>base := blit (base b) (bdata b) (eoe_bytes header)\<rparr>)"

definition delEoeHeader :: "buffer \<Rightarrow> buffer" where
  "delEoeHeader b = b\<lparr>bdata := bdata b + EOE_HEADER_SIZE, bsize := bsize b - 22\<rparr>"

definition eoe_edit :: "buffer \<Rightarrow> u32 \<Rightarrow> buffer" where
  "eoe_edit b prv =
     (if prv = EOE_ADD_HEADER then addEoeHeader b
      else if prv = EOE_DEL_HEADER then delEoeHeader b else b)"

section \<open>Interfaces and registration\<close>

text \<open>\<^verbatim>\<open>socket\<close> answers by the number of sockets asked for before.\<close>

definition eoe_raw_socket :: "net_env \<Rightarrow> string \<Rightarrow> net_log \<Rightarrow> int \<times> net_log" where
  "eoe_raw_socket env itf lg =
     (let fd = socket_ret env (length (filter (\<lambda>e. case e of Ev_socket _ \<Rightarrow> True | _ \<Rightarrow> False) lg)) in
      if fd = - 1 then (- 1, lg) else
      (let (ok, lg) = setItfToPromisc env fd itf (lg @ [Ev_socket fd]) in
       if \<not> ok then (- 1, lg) else
       (case getLLsocketOf env itf of
          None \<Rightarrow> (- 1, lg)
        | Some (i, mac) \<Rightarrow>
            if bind_ret env fd < 0 then (- 1, lg) else (fd, lg @ [Ev_bind fd i mac]))))"

definition openTapItf :: "net_env \<Rightarrow> string \<Rightarrow> net_log \<Rightarrow> int \<times> net_log" where
  "openTapItf env itf lg =
     (let fd = tun_open env in
      if fd = - 1 then (fd, lg)
      else if \<not> tun_setiff env (take 16 itf) 0x1002 then (- 1, lg @ [Ev_close fd])
      else (fd, lg @ [Ev_tap fd (take 16 itf)]))"

definition eoe_info :: relay_info where
  "eoe_info = \<lparr>ri_id = RELAY_ID_EOE, ri_name = ''EOE'', ri_filter = eoe_filter,
     ri_net_itf = eoe_raw_socket, ri_srv_itf = openTapItf,
     ri_bufsize = eoe_bufsize, ri_prepare = eoe_prepare, ri_edit = eoe_edit\<rparr>"

definition eoe_service_init :: "relay_table \<Rightarrow> (int \<times> relay_table) option" where
  "eoe_service_init tab = relay_register (Some eoe_info) tab"

section \<open>Both directions keep the contract\<close>

lemma length_eoe_bytes_init [simp]: "length (eoe_bytes (initEoeHeader n)) = 22"
  by (simp add: eoe_bytes_def initEoeHeader_def le16_def le32_def)

text \<open>What is sent for a packet: the header for the padded packet, then the padded packet.\<close>

definition eoe_pad :: "u8 list \<Rightarrow> u8 list" where
  "eoe_pad pkt = pkt @ replicate (64 - length pkt) 0"

definition eoe_frame :: "u8 list \<Rightarrow> u8 list" where
  "eoe_frame pkt = eoe_bytes (initEoeHeader (of_nat (length (eoe_pad pkt)))) @ eoe_pad pkt"

definition eoe_inv :: "u32 \<Rightarrow> buffer \<Rightarrow> bool" where
  "eoe_inv prv b \<longleftrightarrow> buffer_ok b \<and> allocated b = eoe_bufsize prv"

text \<open>The packet in the buffer, with room for the header before it.\<close>

definition holds :: "buffer \<Rightarrow> u8 list \<Rightarrow> bool" where
  "holds b pkt \<longleftrightarrow> length (base b) = 65557 \<and> allocated b = 65557 \<and> bdata b = 22 \<and> length pkt \<le> 65535 \<and>
     bsize b = of_nat (length pkt) \<and> subarr (base b) 22 (length pkt) = pkt"

lemma holds_extend:
  assumes "holds b pkt" shows "holds (extendPacketPayload b) (eoe_pad pkt)"
proof -
  have n: "unat (of_nat (length pkt) :: u32) = length pkt"
    using assms by (intro unat_of_nat32) (simp add: holds_def)
  have "take (22 + length pkt) (base b) = take 22 (base b) @ pkt"
    using assms by (simp add: holds_def subarr_def take_add)
  then show ?thesis
    using assms n
    by (auto simp: holds_def extendPacketPayload_def eoe_pad_def word_less_nat_alt memset_def blit_def subarr_def)
qed

lemma holds_add_header:
  assumes "holds b pkt"
  shows "buffer_bytes (addEoeHeader b) = Some (eoe_frame pkt)" and "eoe_inv EOE_ADD_HEADER (addEoeHeader b)"
proof -
  let ?b = "extendPacketPayload b" and ?p = "eoe_pad pkt"
  let ?h = "eoe_bytes (initEoeHeader (of_nat (length ?p)))"
  have h: "holds ?b ?p" using assms by (rule holds_extend)
  then have sz: "unat (bsize ?b + 22) = 22 + length ?p"
    by (simp add: holds_def unat_word_ariths unat_of_nat32)
  have p: "take (length ?p) (drop 22 (base ?b)) = ?p" "length (base ?b) = 65557" "length ?p \<le> 65535"
    using h by (simp_all add: holds_def subarr_def)
  have eq: "base (addEoeHeader b) = ?h @ drop 22 (base ?b)" "bdata (addEoeHeader b) = 0"
    "bsize (addEoeHeader b) = bsize ?b + 22" "allocated (addEoeHeader b) = 65557"
    using h by (simp_all add: addEoeHeader_def Let_def holds_def blit_def)
  show "buffer_bytes (addEoeHeader b) = Some (eoe_frame pkt)"
    using p by (simp add: buffer_bytes_def eq sz subarr_def eoe_frame_def)
  show "eoe_inv EOE_ADD_HEADER (addEoeHeader b)"
    using p by (simp add: eoe_inv_def buffer_ok_def eq eoe_bufsize_def)
qed

lemma eoe_prepare_inv: "eoe_inv prv b \<Longrightarrow> eoe_inv prv (eoe_prepare b prv)"
  by (auto simp: eoe_inv_def buffer_ok_def eoe_prepare_def Let_def eoe_bufsize_def)

lemma eoe_read_holds:
  assumes "eoe_inv EOE_ADD_HEADER b" and "length pkt \<le> 65535"
  shows "holds (buffer_read pkt (eoe_prepare b EOE_ADD_HEADER)) pkt"
proof -
  let ?b = "eoe_prepare b EOE_ADD_HEADER"
  have b: "buffer_ok ?b" "bdata ?b = 22" "length (base ?b) = 65557" "allocated ?b = 65557"
    using assms(1) by (auto simp: eoe_inv_def buffer_ok_def eoe_prepare_def Let_def eoe_bufsize_def)
  have r: "buffer_ok (buffer_read pkt ?b)" "bdata (buffer_read pkt ?b) = 22"
    "unat (bsize (buffer_read pkt ?b)) = length pkt" "base (buffer_read pkt ?b) = blit (base ?b) 22 pkt"
    "allocated (buffer_read pkt ?b) = 65557"
    using buffer_read_ok [OF b(1), of pkt] b assms(2) by simp_all
  have "bsize (buffer_read pkt ?b) = of_nat (length pkt)"
    by (subst r(3) [symmetric]) (simp add: of_nat_unat)
  with r b assms(2) show ?thesis
    by (simp add: holds_def memsimps)
qed

interpretation eoe_add: relay_service eoe_prepare eoe_edit EOE_ADD_HEADER "eoe_inv EOE_ADD_HEADER"
  "\<lambda>pkt. length pkt \<le> 65535" eoe_frame
proof
  fix b assume "eoe_inv EOE_ADD_HEADER b"
  then show "eoe_inv EOE_ADD_HEADER (eoe_prepare b EOE_ADD_HEADER)" by (rule eoe_prepare_inv)
next
  fix b and pkt :: "u8 list" assume "eoe_inv EOE_ADD_HEADER b" "length pkt \<le> 65535"
  from holds_add_header [OF eoe_read_holds [OF this]]
  show "eoe_inv EOE_ADD_HEADER (eoe_edit (buffer_read pkt (eoe_prepare b EOE_ADD_HEADER)) EOE_ADD_HEADER) \<and>
    buffer_bytes (eoe_edit (buffer_read pkt (eoe_prepare b EOE_ADD_HEADER)) EOE_ADD_HEADER) = Some (eoe_frame pkt)"
    by (simp add: eoe_edit_def)
qed

interpretation eoe_del: relay_service eoe_prepare eoe_edit EOE_DEL_HEADER "eoe_inv EOE_DEL_HEADER"
  "\<lambda>pkt. EOE_HEADER_SIZE \<le> length pkt \<and> length pkt \<le> 65557" "drop EOE_HEADER_SIZE"
proof
  fix b assume "eoe_inv EOE_DEL_HEADER b"
  then show "eoe_inv EOE_DEL_HEADER (eoe_prepare b EOE_DEL_HEADER)" by (rule eoe_prepare_inv)
next
  fix b and pkt :: "u8 list"
  assume inv: "eoe_inv EOE_DEL_HEADER b" and len: "EOE_HEADER_SIZE \<le> length pkt \<and> length pkt \<le> 65557"
  let ?b = "eoe_prepare b EOE_DEL_HEADER"
  have b: "buffer_ok ?b" "bdata ?b = 0" "length (base ?b) = 65557" "allocated ?b = 65557"
    using inv by (auto simp: eoe_inv_def buffer_ok_def eoe_prepare_def Let_def eoe_bufsize_def)
  have r: "bdata (buffer_read pkt ?b) = 0" "unat (bsize (buffer_read pkt ?b)) = length pkt"
    "base (buffer_read pkt ?b) = blit (base ?b) 0 pkt" "allocated (buffer_read pkt ?b) = 65557"
    using buffer_read_ok [OF b(1), of pkt] b len by simp_all
  have sz: "unat (bsize (buffer_read pkt ?b) - 22) = length pkt - 22"
    using r(2) len by (simp add: unat_sub32 word_le_nat_alt)
  show "eoe_inv EOE_DEL_HEADER (eoe_edit (buffer_read pkt ?b) EOE_DEL_HEADER) \<and>
    buffer_bytes (eoe_edit (buffer_read pkt ?b) EOE_DEL_HEADER) = Some (drop EOE_HEADER_SIZE pkt)"
    using b r sz len
    by (auto simp: eoe_edit_def delEoeHeader_def eoe_inv_def buffer_ok_def buffer_bytes_def eoe_bufsize_def
        blit_def subarr_def)
qed

text \<open>Without \<^verbatim>\<open>-E\<close> or \<^verbatim>\<open>-V\<close> the packets pass unchanged.\<close>

interpretation eoe_plain: relay_service eoe_prepare eoe_edit 0 "eoe_inv 0" "\<lambda>pkt. length pkt \<le> 65535" "\<lambda>pkt. pkt"
proof
  fix b assume "eoe_inv 0 b"
  then show "eoe_inv 0 (eoe_prepare b 0)" by (rule eoe_prepare_inv)
next
  fix b and pkt :: "u8 list" assume inv: "eoe_inv 0 b" and len: "length pkt \<le> 65535"
  let ?b = "eoe_prepare b 0"
  have b: "buffer_ok ?b" "bdata ?b = 0" "length (base ?b) = 65535" "allocated ?b = 65535"
    using inv by (auto simp: eoe_inv_def buffer_ok_def eoe_prepare_def Let_def eoe_bufsize_def)
  show "eoe_inv 0 (eoe_edit (buffer_read pkt ?b) 0) \<and> buffer_bytes (eoe_edit (buffer_read pkt ?b) 0) = Some pkt"
    using buffer_read_ok [OF b(1), of pkt] b len by (simp add: eoe_edit_def eoe_inv_def eoe_bufsize_def)
qed

section \<open>The theorems\<close>

lemma eoe_buffer_init:
  assumes "bufferInit mb malloc (eoe_bufsize prv) = Some b"
    and "\<And>m. malloc (eoe_bufsize prv) = Some m \<Longrightarrow> length m = unat (eoe_bufsize prv)"
  shows "eoe_inv prv b"
  using bufferInit_ok [OF assms] by (simp add: eoe_inv_def)

lemma eoe_frame_header:
  "length (eoe_frame pkt) = 22 + max 64 (length pkt)" "drop 22 (eoe_frame pkt) = eoe_pad pkt"
  "eoe_frame pkt ! 18 = 8"
  by (simp_all add: eoe_frame_def eoe_pad_def eoe_bytes_def initEoeHeader_def le16_def le32_def max_def)

text \<open>
  The thread that forwards from the service to the network sends, for every packet of at most
  65535 bytes that it reads, in order and exactly once, the header followed by the packet padded to
  64 bytes, whatever the fresh buffer holds, whatever calls are interrupted and however the writes
  are split, and then waits for the next packet.
\<close>

theorem eoe_encapsulates:
  assumes "bufferInit True malloc (eoe_bufsize EOE_ADD_HEADER) = Some b"
    and "\<And>m. malloc (eoe_bufsize EOE_ADD_HEADER) = Some m \<Longrightarrow> length m = unat (eoe_bufsize EOE_ADD_HEADER)"
    and "list_all (\<lambda>r. case r of Rd_ok pkt \<Rightarrow> length pkt \<le> 65535 | Rd_err e \<Rightarrow> relay_retry e) rs"
    and "willing relay_retry ws"
    and "sum_list (map (\<lambda>r. case r of Rd_ok pkt \<Rightarrow> length (eoe_frame pkt) | Rd_err e \<Rightarrow> 0) rs) \<le> oks ws"
  shows "forward_packet_from_to eoe_prepare eoe_edit EOE_ADD_HEADER rs ws b =
    (map eoe_frame [pkt. Rd_ok pkt \<leftarrow> rs], Fwd_waiting)"
  using eoe_add.forwards_all [OF eoe_buffer_init [OF assms(1,2)] assms(3-5)] .

theorem eoe_encapsulates_witness:
  "\<exists>b. bufferInit True (\<lambda>n. Some (replicate (unat n) 0)) (eoe_bufsize EOE_ADD_HEADER) = Some b \<and>
    forward_packet_from_to eoe_prepare eoe_edit EOE_ADD_HEADER [Rd_err EINTR, Rd_ok [1, 2, 3]]
      (Io_err EAGAIN # replicate 100 (Io_ok 50)) b = ([eoe_frame [1, 2, 3]], Fwd_waiting)"
proof -
  define b where "b = bufferReset \<lparr>base = replicate (unat (eoe_bufsize EOE_ADD_HEADER)) (0 :: u8),
    allocated = eoe_bufsize EOE_ADD_HEADER, bdata = 0, bsize = 0\<rparr>"
  have i: "bufferInit True (\<lambda>n. Some (replicate (unat n) 0)) (eoe_bufsize EOE_ADD_HEADER) = Some b"
    by (simp add: bufferInit_def b_def)
  have w: "willing relay_retry (Io_err EAGAIN # replicate 100 (Io_ok 50))"
    by (simp add: willing_def relay_retry_def list_all_iff)
  have k: "oks (Io_err EAGAIN # replicate 100 (Io_ok 50)) = 100" by (simp add: oks_def)
  have "forward_packet_from_to eoe_prepare eoe_edit EOE_ADD_HEADER [Rd_err EINTR, Rd_ok [1, 2, 3]]
      (Io_err EAGAIN # replicate 100 (Io_ok 50)) b =
      (map eoe_frame [pkt. Rd_ok pkt \<leftarrow> [Rd_err EINTR, Rd_ok [1, 2, 3]]], Fwd_waiting)"
    by (rule eoe_encapsulates [OF i]) (use w k in \<open>auto simp: relay_retry_def eoe_frame_header\<close>)
  with i show ?thesis by auto
qed




lemma eoe_frame_dropped: "bpf_run eoe_filter (eoe_frame pkt) 0 0 0 = Some 0"
proof -
  have "eoe_frame pkt ! 18 AND 0xf0 = 0"
    by (simp add: eoe_frame_header)
  then show ?thesis by (simp add: eoe_filter_verdict eoe_accepts_def)
qed

text \<open>
  C34. The relay does not feed on itself: no frame that the service-to-network thread sends passes the
  filter that \<^verbatim>\<open>-F\<close> attaches to the network socket, although that socket also sees what the machine
  sends.
\<close>

theorem eoe_no_loop:
  assumes "bufferInit True malloc (eoe_bufsize EOE_ADD_HEADER) = Some b"
    and "\<And>n m. malloc n = Some m \<Longrightarrow> length m = unat n"
    and "list_all (\<lambda>r. case r of Rd_ok pkt \<Rightarrow> length pkt \<le> 65535 | Rd_err e \<Rightarrow> relay_retry e) rs"
    and "willing relay_retry ws"
    and "sum_list (map (\<lambda>r. case r of Rd_ok pkt \<Rightarrow> length (eoe_frame pkt) | Rd_err e \<Rightarrow> 0) rs) \<le> oks ws"
    and "frame \<in> set (fst (forward_packet_from_to eoe_prepare eoe_edit EOE_ADD_HEADER rs ws b))"
  shows "bpf_run eoe_filter frame 0 0 0 = Some 0"
  using assms(6) eoe_add.forwards_all [OF eoe_buffer_init [OF assms(1,2)] assms(3-5)]
  by (auto simp: eoe_frame_dropped)

theorem eoe_no_loop_witness:
  "\<exists>b frame. frame \<in> set (fst (forward_packet_from_to eoe_prepare eoe_edit EOE_ADD_HEADER
      [Rd_ok [1, 2, 3]] (replicate 100 (Io_ok 86)) b)) \<and> bpf_run eoe_filter frame 0 0 0 = Some 0"
proof -
  define b where "b = bufferReset \<lparr>base = replicate (unat (eoe_bufsize EOE_ADD_HEADER)) (0 :: u8),
    allocated = eoe_bufsize EOE_ADD_HEADER, bdata = 0, bsize = 0\<rparr>"
  have i: "bufferInit True (\<lambda>n. Some (replicate (unat n) 0)) (eoe_bufsize EOE_ADD_HEADER) = Some b"
    by (simp add: bufferInit_def b_def)
  have w: "willing relay_retry (replicate 100 (Io_ok 86))" "oks (replicate 100 (Io_ok 86)) = 100"
    by (simp_all add: willing_def oks_def list_all_iff)
  have "eoe_frame [1, 2, 3] \<in> set (fst (forward_packet_from_to eoe_prepare eoe_edit EOE_ADD_HEADER
      [Rd_ok [1, 2, 3]] (replicate 100 (Io_ok 86)) b))"
    using eoe_add.forwards_all [OF eoe_buffer_init [OF i], of "[Rd_ok [1, 2, 3]]" "replicate 100 (Io_ok 86)"] w
    by (simp add: eoe_frame_header)
  then show ?thesis
    using eoe_no_loop [OF i, of "[Rd_ok [1, 2, 3]]" "replicate 100 (Io_ok 86)" "eoe_frame [1, 2, 3]"] w
    by (auto simp: eoe_frame_header)
qed

text \<open>
  A frame from the network that is shorter than the header makes the size wrap around: the thread
  goes on to write nearly four gigabytes from behind the packet, past the end of the buffer.
\<close>

theorem eoe_short_frame_overruns:
  assumes "eoe_inv EOE_DEL_HEADER b" and "length pkt < 22"
  shows "forward_packet_from_to eoe_prepare eoe_edit EOE_DEL_HEADER (Rd_ok pkt # rs) ws b = ([], Fwd_overrun)"
proof -
  let ?b = "eoe_prepare b EOE_DEL_HEADER"
  have b: "buffer_ok ?b" "length (base ?b) = 65557" "bdata ?b = 0"
    using assms(1) by (auto simp: eoe_inv_def buffer_ok_def eoe_prepare_def Let_def eoe_bufsize_def)
  have r: "unat (bsize (buffer_read pkt ?b)) = length pkt" "length (base (buffer_read pkt ?b)) = 65557"
    using buffer_read_ok [OF b(1), of pkt] b assms(2) by (simp_all add: blit_def)
  have "unat (bsize (buffer_read pkt ?b) - 22) = 2 ^ 32 + length pkt - 22"
    using r(1) assms(2) by (simp add: unat_sub_if')
  then show ?thesis
    using r assms(2) by (simp add: eoe_edit_def delEoeHeader_def buffer_bytes_def)
qed

theorem eoe_short_frame_overruns_witness:
  "\<exists>b. forward_packet_from_to eoe_prepare eoe_edit EOE_DEL_HEADER [Rd_ok [1, 2, 3]] [Io_ok 100] b = ([], Fwd_overrun)"
  by (rule exI, rule eoe_short_frame_overruns
      [where b = "\<lparr>base = replicate 65557 0, allocated = 65557, bdata = 0, bsize = 0\<rparr>"])
    (simp_all add: eoe_inv_def buffer_ok_def eoe_bufsize_def)

text \<open>The length field counts the four header bytes after it and the padded packet, up to 65531 bytes.\<close>

lemma eoe_length_field:
  assumes "length pkt \<le> 65535"
  shows "unat (eh_len (initEoeHeader (of_nat (length (eoe_pad pkt))))) = (length (eoe_pad pkt) + 4) mod 65536"
proof -
  have "length (eoe_pad pkt) \<le> 65535" using assms by (simp add: eoe_pad_def)
  then show ?thesis
    by (simp add: initEoeHeader_def unsigned_ucast_eq unat_word_ariths unat_of_nat32 take_bit_eq_mod)
qed

section \<open>The program linked with this service\<close>

text \<open>
  When the program with the encapsulation service starts forwarding, it was given \<^verbatim>\<open>-E\<close> and both
  interfaces; the thread adds headers to what it moves from the service to the network, the main
  program removes them in the other direction, between the same two descriptors; and with \<^verbatim>\<open>-F\<close> the
  encapsulation filter is attached to the network side.
\<close>

theorem eoe_main_starts:
  assumes "relay_main eoe_service_init env os = (Some (info, s2n, n2s), lg)"
  shows "\<exists>v. parseArgs os relay_vars0 = Some v \<and> relayId v = RELAY_ID_EOE \<and> info = eoe_info \<and>
    from_fd s2n = to_fd n2s \<and> to_fd s2n = from_fd n2s \<and>
    priv s2n = EOE_ADD_HEADER \<and> priv n2s = EOE_DEL_HEADER \<and>
    Ev_thread (from_fd s2n) (to_fd s2n) EOE_ADD_HEADER \<in> set lg \<and>
    (filterEnable v \<longrightarrow> Ev_filter (from_fd n2s) eoe_filter \<in> set lg)"
proof -
  have reg: "eoe_service_init [None, None] = Some (0, [None, Some eoe_info])"
    by (simp add: eoe_service_init_def relay_register_def eoe_info_def)
  have find: "relay_find [None, Some eoe_info] i = Some s \<Longrightarrow> i = 1 \<and> s = eoe_info" for i s
    by (cases "nat i") (auto simp: relay_find_def nth_Cons split: if_splits nat.splits)
  have tap: "set lg \<subseteq> set (snd (openTapItf env' itf lg))" for env' itf lg
    by (auto simp: openTapItf_def Let_def)
  from assms show ?thesis
  proof (rule relay_main_starts)
    fix v tab net_fd lg1 lg2 service_fd lg3
    assume v: "parseArgs os relay_vars0 = Some v" and "eoe_service_init [None, None] = Some (0, tab)"
      and "relay_find tab (relayId v) = Some info"
      and f: "(if filterEnable v then attachItfFilter env net_fd (ri_filter info) lg1 else Some lg1) = Some lg2"
      and srv: "ri_srv_itf info env (the (serviceItf v)) lg2 = (service_fd, lg3)"
      and s2n: "s2n = \<lparr>from_fd = service_fd, to_fd = net_fd, priv = SERVICE_PRIV (serviceEnabled v) SERVICE_TO_NET\<rparr>"
      and n2s: "n2s = \<lparr>from_fd = net_fd, to_fd = service_fd, priv = SERVICE_PRIV (serviceEnabled v) NET_TO_SERVICE\<rparr>"
      and th: "createThread env service_fd net_fd (priv s2n) lg3 = (True, lg)"
    then have i: "relayId v = 1" "info = eoe_info" using reg find by auto
    then have e: "serviceEnabled v" using parseArgs_ok [OF v] by simp
    have "set lg2 \<subseteq> set lg3"
      using tap [of lg2 env "the (serviceItf v)"] srv i by (simp add: eoe_info_def)
    moreover have "filterEnable v \<Longrightarrow> Ev_filter net_fd eoe_filter \<in> set lg2"
      using f i by (auto simp: attachItfFilter_def eoe_info_def split: if_splits)
    moreover have "lg = lg3 @ [Ev_thread service_fd net_fd EOE_ADD_HEADER]"
      using th e s2n by (auto simp: createThread_def SERVICE_PRIV_def split: if_splits)
    ultimately show ?thesis
      using v i e s2n n2s by (auto simp: SERVICE_PRIV_def)
  qed
qed

theorem eoe_main_starts_witness:
  "\<exists>env s2n n2s lg v. relay_main eoe_service_init env [(CHR ''n'', ''eth0''), (CHR ''t'', ''tap''), (CHR ''E'', []), (CHR ''F'', [])]
      = (Some (eoe_info, s2n, n2s), lg) \<and>
    parseArgs [(CHR ''n'', ''eth0''), (CHR ''t'', ''tap''), (CHR ''E'', []), (CHR ''F'', [])] relay_vars0 = Some v \<and>
    priv s2n = EOE_ADD_HEADER \<and> priv n2s = EOE_DEL_HEADER \<and> Ev_filter (from_fd n2s) eoe_filter \<in> set lg"
proof -
  define env :: net_env where "env = \<lparr>socket_ret = \<lambda>_. 3, get_flags = \<lambda>_. Some 0, set_flags = \<lambda>_ _. True, get_ifindex = \<lambda>_. Some 1,
    get_hwaddr = \<lambda>_. Some [0, 0, 0, 0, 0, 0], bind_ret = \<lambda>_. 0, tun_open = 4, tun_setiff = \<lambda>_ _. True, attach_ret = 0, thread_ret = 0\<rparr>"
  let ?os = "[(CHR ''n'', ''eth0''), (CHR ''t'', ''tap''), (CHR ''E'', []), (CHR ''F'', [])]"
  have p: "parseArgs ?os relay_vars0 = Some \<lparr>logLevel = 0, syslogEnabled = False, serviceEnabled = True,
      filterEnable = True, relayId = 1, netItf = Some ''eth0'', serviceItf = Some ''tap''\<rparr>"
    by (simp add: parseArgs_def parse_opt_def relay_vars0_def)
  have m: "relay_main eoe_service_init env ?os = (Some (eoe_info, \<lparr>from_fd = 4, to_fd = 3, priv = 1\<rparr>, \<lparr>from_fd = 3, to_fd = 4, priv = 2\<rparr>),
      [Ev_socket 3, Ev_flags 3 ''eth0'' 0x180, Ev_bind 3 1 [0, 0, 0, 0, 0, 0], Ev_filter 3 eoe_filter, Ev_tap 4 ''tap'', Ev_thread 4 3 1])"
    by (simp add: relay_main_def p eoe_service_init_def relay_register_def relay_find_def eoe_info_def
        eoe_raw_socket_def openTapItf_def setItfToPromisc_def getLLsocketOf_def getMacAddressOf_def attachItfFilter_def
        createThread_def SERVICE_PRIV_def env_def Let_def)
  from eoe_main_starts [OF m] m show ?thesis
    by (auto simp: p intro!: exI)
qed

end
