(* ===== verification/Dhcp.thy ===== *)
theory Dhcp
  imports Relay
begin

unbundle bit_operations_syntax

text \<open>
  The DHCP service of the relay, \<^verbatim>\<open>src/test_suite/netrelay/dhcp_filter.c\<close>: tagged frames move between the
  inband interface and a dummy interface, and the VLAN number in them between the management VLAN
  and the one below it. The theory has the packet routines, the interfaces and the registration,
  shows that both directions keep the contract \<open>relay_service\<close>, and that they undo each other.
\<close>

section \<open>The packet routines\<close>

text \<open>Two bytes in memory as the processor loads and stores them, and \<^verbatim>\<open>ntohs\<close>, \<^verbatim>\<open>htons\<close> on the target.\<close>

definition load16 :: "u8 list \<Rightarrow> nat \<Rightarrow> u16" where
  "load16 m i = ucast (m ! i) OR push_bit 8 (ucast (m ! (i + 1)))"

definition store16 :: "u8 list \<Rightarrow> nat \<Rightarrow> u16 \<Rightarrow> u8 list" where
  "store16 m i v = m[i := ucast v, i + 1 := ucast (drop_bit 8 v)]"

definition ntohs :: "u16 \<Rightarrow> u16" where
  "ntohs v = push_bit 8 v OR drop_bit 8 v"

abbreviation (input) VLAN_DHCP2OAM :: u32 where "VLAN_DHCP2OAM \<equiv> SERVICE_TO_NET"
abbreviation (input) VLAN_OAM2DHCP :: u32 where "VLAN_OAM2DHCP \<equiv> NET_TO_SERVICE"

definition dhcp_bufsize :: "u32 \<Rightarrow> u32" where
  "dhcp_bufsize prv = 65535"

definition dhcp_prepare :: "buffer \<Rightarrow> u32 \<Rightarrow> buffer" where
  "dhcp_prepare b prv = bufferReset b"

definition setDhcpVlan :: "buffer \<Rightarrow> buffer" where
  "setDhcpVlan b =
     (let tag = ntohs (load16 (base b) (bdata b + 0xC)) in
      if tag \<noteq> 0x8100 then b
      else
        (let oamVlan = ntohs (load16 (base b) (bdata b + 0xE));
             pbit = oamVlan AND 0xF000;
             oamVlan = oamVlan AND 0xFFF;
             dhcpVlan = oamVlan - 1;
             dhcpVlan = (if dhcpVlan = 0 then 4093 else dhcpVlan) in
         b\<lparr>base := store16 (base b) (bdata b + 0xE) (ntohs (pbit OR dhcpVlan))\<rparr>))"

definition setOamVlan :: "buffer \<Rightarrow> buffer" where
  "setOamVlan b =
     (let tag = ntohs (load16 (base b) (bdata b + 0xC)) in
      if tag \<noteq> 0x8100 then b
      else
        (let dhcpVlan = ntohs (load16 (base b) (bdata b + 0xE));
             pbit = dhcpVlan AND 0xF000;
             dhcpVlan = dhcpVlan AND 0xFFF;
             oamVlan = dhcpVlan + 1;
             oamVlan = (if oamVlan = 4094 then 1 else oamVlan) in
         b\<lparr>base := store16 (base b) (bdata b + 0xE) (ntohs (pbit OR oamVlan))\<rparr>))"

definition dhcp_edit :: "buffer \<Rightarrow> u32 \<Rightarrow> buffer" where
  "dhcp_edit b prv =
     (if prv = VLAN_OAM2DHCP then setDhcpVlan b
      else if prv = VLAN_DHCP2OAM then setOamVlan b else b)"

section \<open>Interfaces and registration\<close>

definition dhcp_raw_socket :: "net_env \<Rightarrow> string \<Rightarrow> net_log \<Rightarrow> int \<times> net_log" where
  "dhcp_raw_socket env itf lg =
     (let fd = socket_ret env (length (filter (\<lambda>e. case e of Ev_socket _ \<Rightarrow> True | _ \<Rightarrow> False) lg)) in
      if fd = - 1 then (- 1, lg) else
      (let lg = lg @ [Ev_socket fd] in
       case getLLsocketOf env itf of
         None \<Rightarrow> (- 1, lg)
       | Some (i, mac) \<Rightarrow>
           if bind_ret env fd < 0 then (- 1, lg) else (fd, lg @ [Ev_bind fd i mac])))"

definition dhcp_info :: relay_info where
  "dhcp_info = \<lparr>ri_id = RELAY_ID_DHCP, ri_name = ''DHCP'', ri_filter = dhcp_filter,
     ri_net_itf = dhcp_raw_socket, ri_srv_itf = dhcp_raw_socket,
     ri_bufsize = dhcp_bufsize, ri_prepare = dhcp_prepare, ri_edit = dhcp_edit\<rparr>"

definition dhcp_service_init :: "relay_table \<Rightarrow> (int \<times> relay_table) option" where
  "dhcp_service_init tab = relay_register (Some dhcp_info) tab"

section \<open>What happens to a frame\<close>

text \<open>The two translations of the tag's 16 bits, and a frame with other tag bits.\<close>

definition to_dhcp :: "u16 \<Rightarrow> u16" where
  "to_dhcp tci = (tci AND 0xF000) OR (if (tci AND 0xFFF) - 1 = 0 then 4093 else (tci AND 0xFFF) - 1)"

definition to_oam :: "u16 \<Rightarrow> u16" where
  "to_oam tci = (tci AND 0xF000) OR (if (tci AND 0xFFF) + 1 = 4094 then 1 else (tci AND 0xFFF) + 1)"

definition tagged :: "u8 list \<Rightarrow> bool" where
  "tagged pkt \<longleftrightarrow> 16 \<le> length pkt \<and> be16 pkt 12 = 0x8100"

definition retag :: "(u16 \<Rightarrow> u16) \<Rightarrow> u8 list \<Rightarrow> u8 list" where
  "retag g pkt =
     (if tagged pkt
      then pkt[14 := ucast (drop_bit 8 (g (be16 pkt 14))), 15 := ucast (g (be16 pkt 14))] else pkt)"

lemma ntohs_load16: "ntohs (load16 m i) = be16 m i"
  unfolding ntohs_def load16_def be16_def
  by (rule bit_eqI) (auto simp: bit_simps not_le dest: bit_imp_le_length)

lemma store16_ntohs:
  "store16 m i (ntohs v) = m[i := ucast (drop_bit 8 v), i + 1 := ucast v]"
proof -
  have "(ucast (ntohs v) :: u8) = ucast (drop_bit 8 v)" "(ucast (drop_bit 8 (ntohs v)) :: u8) = ucast v"
    unfolding ntohs_def by (rule bit_eqI; auto simp: bit_simps not_le dest: bit_imp_le_length)+
  then show ?thesis by (simp add: store16_def)
qed

lemma set_vlan:
  "setDhcpVlan b = (if be16 (base b) (bdata b + 12) = 0x8100
     then b\<lparr>base := store16 (base b) (bdata b + 14) (ntohs (to_dhcp (be16 (base b) (bdata b + 14))))\<rparr> else b)"
  "setOamVlan b = (if be16 (base b) (bdata b + 12) = 0x8100
     then b\<lparr>base := store16 (base b) (bdata b + 14) (ntohs (to_oam (be16 (base b) (bdata b + 14))))\<rparr> else b)"
  by (simp_all add: setDhcpVlan_def setOamVlan_def to_dhcp_def to_oam_def ntohs_load16 Let_def)

definition dhcp_inv :: "buffer \<Rightarrow> bool" where
  "dhcp_inv b \<longleftrightarrow> buffer_ok b \<and> length (base b) = 65535"

text \<open>Frames up to the tag are too short to be changed; one byte of the tag alone is not handled.\<close>

definition dhcp_handles :: "u8 list \<Rightarrow> bool" where
  "dhcp_handles pkt \<longleftrightarrow> length pkt \<le> 65535 \<and> length pkt \<noteq> 15"

lemma be16_prefix:
  assumes "i + 2 \<le> length pkt" and "length pkt \<le> length m"
  shows "be16 (blit m 0 pkt) i = be16 pkt i"
  using assms by (simp add: be16_def blit_def nth_append)

lemma dhcp_serves:
  assumes edit: "\<And>b. ed b = (if be16 (base b) (bdata b + 12) = 0x8100
      then b\<lparr>base := store16 (base b) (bdata b + 14) (ntohs (g (be16 (base b) (bdata b + 14))))\<rparr> else b)"
    and inv: "dhcp_inv b" and pkt: "dhcp_handles pkt"
  defines "b' \<equiv> ed (buffer_read pkt (bufferReset b))"
  shows "dhcp_inv b' \<and> buffer_bytes b' = Some (retag g pkt)"
proof -
  let ?r = "buffer_read pkt (bufferReset b)"
  have ok: "buffer_ok (bufferReset b)" "length (base b) = 65535"
    using inv by (simp_all add: dhcp_inv_def buffer_ok_def)
  have r: "buffer_ok ?r" "bdata ?r = 0" "unat (bsize ?r) = length pkt" "base ?r = blit (base b) 0 pkt"
    using buffer_read_ok [OF ok(1), of pkt] ok pkt by (simp_all add: dhcp_handles_def)
  have len: "length pkt \<le> length (base b)" using ok pkt by (simp add: dhcp_handles_def)
  have eq: "take (length pkt) (base b') = retag g pkt" "length (base b') = 65535" "bdata b' = 0" "bsize b' = bsize ?r"
    "allocated b' = allocated ?r"
  proof -
    show "length (base b') = 65535" "bdata b' = 0" "bsize b' = bsize ?r" "allocated b' = allocated ?r"
      using r ok len by (simp_all add: b'_def edit store16_def blit_def)
    show "take (length pkt) (base b') = retag g pkt"
    proof (cases "16 \<le> length pkt")
      case True
      then have "be16 (blit (base b) 0 pkt) 12 = be16 pkt 12" "be16 (blit (base b) 0 pkt) 14 = be16 pkt 14"
        using len by (auto intro: be16_prefix)
      then show ?thesis
        using True r len
        by (simp add: b'_def edit retag_def tagged_def store16_ntohs take_update_swap) (simp add: blit_def)
    next
      case False
      then have "length pkt \<le> 14" using pkt by (simp add: dhcp_handles_def)
      then show ?thesis
        using r by (simp add: b'_def edit retag_def tagged_def store16_def) (simp add: blit_def)
    qed
  qed
  show ?thesis
    using eq r len ok by (auto simp: dhcp_inv_def buffer_ok_def buffer_bytes_def subarr_def memsimps)
qed

interpretation dhcp_n2s: relay_service dhcp_prepare dhcp_edit VLAN_OAM2DHCP dhcp_inv dhcp_handles "retag to_dhcp"
proof
  fix b assume "dhcp_inv b"
  then show "dhcp_inv (dhcp_prepare b VLAN_OAM2DHCP)" by (simp add: dhcp_inv_def dhcp_prepare_def buffer_ok_def)
next
  fix b pkt assume "dhcp_inv b" "dhcp_handles pkt"
  from dhcp_serves [of setDhcpVlan to_dhcp, OF set_vlan(1) this]
  show "dhcp_inv (dhcp_edit (buffer_read pkt (dhcp_prepare b VLAN_OAM2DHCP)) VLAN_OAM2DHCP) \<and>
    buffer_bytes (dhcp_edit (buffer_read pkt (dhcp_prepare b VLAN_OAM2DHCP)) VLAN_OAM2DHCP) = Some (retag to_dhcp pkt)"
    by (simp add: dhcp_edit_def dhcp_prepare_def)
qed

interpretation dhcp_s2n: relay_service dhcp_prepare dhcp_edit VLAN_DHCP2OAM dhcp_inv dhcp_handles "retag to_oam"
proof
  fix b assume "dhcp_inv b"
  then show "dhcp_inv (dhcp_prepare b VLAN_DHCP2OAM)" by (simp add: dhcp_inv_def dhcp_prepare_def buffer_ok_def)
next
  fix b pkt assume "dhcp_inv b" "dhcp_handles pkt"
  from dhcp_serves [of setOamVlan to_oam, OF set_vlan(2) this]
  show "dhcp_inv (dhcp_edit (buffer_read pkt (dhcp_prepare b VLAN_DHCP2OAM)) VLAN_DHCP2OAM) \<and>
    buffer_bytes (dhcp_edit (buffer_read pkt (dhcp_prepare b VLAN_DHCP2OAM)) VLAN_DHCP2OAM) = Some (retag to_oam pkt)"
    by (simp add: dhcp_edit_def dhcp_prepare_def)
qed

section \<open>The VLAN numbers\<close>

definition vlan :: "u16 \<Rightarrow> nat" where "vlan tci = unat (tci AND 0xFFF)"

definition prio :: "u16 \<Rightarrow> u16" where "prio tci = tci AND 0xF000"

lemma and_fff: "(v :: u16) AND 0xFFF = take_bit 12 v"
  by (simp add: take_bit_eq_mask mask_eq_exp_minus_1)

lemma vlan_less: "vlan tci < 4096"
  using take_bit_nat_less_exp [of 12 "unat tci"] by (simp add: vlan_def and_fff unsigned_take_bit_eq)

lemma vlan_eq_iff: "(tci AND 0xFFF) = (v :: u16) \<longleftrightarrow> vlan tci = unat v"
  by (simp add: vlan_def word_unat_eq_iff)

lemma retagged:
  assumes "unat v < 4096"
  shows "vlan ((tci AND 0xF000) OR v) = unat v" and "prio ((tci AND 0xF000) OR v) = prio tci"
proof -
  have v: "v AND 0xFFF = v"
    using assms by (simp add: and_fff word_unat_eq_iff unsigned_take_bit_eq take_bit_nat_eq_self_iff)
  have "((tci AND 0xF000) OR v) AND 0xFFF = v"
    by (simp add: bit.conj_disj_distrib2 and.assoc v)
  then show "vlan ((tci AND 0xF000) OR v) = unat v" by (simp add: vlan_def)
  have "v AND 0xF000 = (v AND 0xFFF) AND 0xF000" by (simp only: v)
  also have "\<dots> = 0" by (simp add: and.assoc)
  finally show "prio ((tci AND 0xF000) OR v) = prio tci"
    by (simp add: prio_def bit.conj_disj_distrib2 and.assoc)
qed

lemma tci_eqI: "vlan a = vlan b \<Longrightarrow> prio a = prio b \<Longrightarrow> a = b"
proof -
  assume "vlan a = vlan b" "prio a = prio b"
  then have "(a AND 0xFFF) OR (a AND 0xF000) = (b AND 0xFFF) OR (b AND 0xF000)"
    by (simp add: vlan_def prio_def flip: word_unat_eq_iff)
  then have "a AND (0xFFF OR 0xF000) = b AND (0xFFF OR 0xF000)"
    by (simp only: bit.conj_disj_distrib)
  moreover have "(0xFFF OR 0xF000 :: u16) = - 1" by simp
  ultimately show "a = b" by (simp only: and.right_neutral)
qed

lemma to_dhcp_vlan:
  assumes "1 \<le> vlan tci" and "vlan tci \<le> 4094"
  shows "vlan (to_dhcp tci) = (if vlan tci = 1 then 4093 else vlan tci - 1)" and "prio (to_dhcp tci) = prio tci"
proof -
  have d: "unat ((tci AND 0xFFF) - 1) = vlan tci - 1"
    using assms(1) by (simp add: vlan_def unat_sub_if' word_le_nat_alt)
  then have z: "(tci AND 0xFFF) - 1 = 0 \<longleftrightarrow> vlan tci = 1"
    using assms(1) by (auto simp: unat_eq_zero [symmetric] simp del: unat_eq_zero)
  show "vlan (to_dhcp tci) = (if vlan tci = 1 then 4093 else vlan tci - 1)" "prio (to_dhcp tci) = prio tci"
    using assms d unfolding to_dhcp_def z by (simp_all add: retagged)
qed

lemma to_oam_vlan:
  assumes "vlan tci \<le> 4093"
  shows "vlan (to_oam tci) = (if vlan tci = 4093 then 1 else vlan tci + 1)" and "prio (to_oam tci) = prio tci"
proof -
  have d: "unat ((tci AND 0xFFF) + 1) = vlan tci + 1"
    using assms by (simp add: vlan_def unat_word_ariths)
  then have z: "(tci AND 0xFFF) + 1 = 4094 \<longleftrightarrow> vlan tci = 4093"
    by (simp add: word_unat_eq_iff)
  show "vlan (to_oam tci) = (if vlan tci = 4093 then 1 else vlan tci + 1)" "prio (to_oam tci) = prio tci"
    using assms d unfolding to_oam_def z by (simp_all add: retagged)
qed

lemma to_oam_to_dhcp: "1 \<le> vlan tci \<Longrightarrow> vlan tci \<le> 4093 \<Longrightarrow> to_oam (to_dhcp tci) = tci"
proof (rule tci_eqI)
  assume v: "1 \<le> vlan tci" "vlan tci \<le> 4093"
  then have d: "vlan (to_dhcp tci) = (if vlan tci = 1 then 4093 else vlan tci - 1)" "prio (to_dhcp tci) = prio tci"
    by (intro to_dhcp_vlan; simp)+
  then have "vlan (to_dhcp tci) \<le> 4093" using v by auto
  then have "vlan (to_oam (to_dhcp tci)) = (if vlan (to_dhcp tci) = 4093 then 1 else vlan (to_dhcp tci) + 1)"
    "prio (to_oam (to_dhcp tci)) = prio (to_dhcp tci)"
    by (rule to_oam_vlan)+
  with d v show "vlan (to_oam (to_dhcp tci)) = vlan tci" "prio (to_oam (to_dhcp tci)) = prio tci"
    by (auto split: if_splits)
qed

lemma to_dhcp_zero: "vlan tci = 0 \<Longrightarrow> to_dhcp tci = 0xFFFF"
proof -
  assume "vlan tci = 0"
  then have "tci AND 0xFFF = 0" by (simp add: vlan_eq_iff)
  then show ?thesis by (simp add: to_dhcp_def)
qed

lemma be16_update:
  assumes "i + 1 < length pkt"
  shows "be16 (pkt[i := ucast (drop_bit 8 v), Suc i := ucast v]) i = v"
  using assms unfolding be16_def
  by (intro bit_eqI) (auto simp: bit_simps not_le dest: bit_imp_le_length)

lemma retag_back:
  assumes "tagged pkt \<Longrightarrow> g (h (be16 pkt 14)) = be16 pkt 14"
  shows "retag g (retag h pkt) = pkt"
proof (cases "tagged pkt")
  case True
  let ?p = "pkt[14 := ucast (drop_bit 8 (h (be16 pkt 14))), 15 := ucast (h (be16 pkt 14))]"
  have "be16 ?p 14 = h (be16 pkt 14)" using True be16_update [of 14 pkt] by (simp add: tagged_def)
  moreover have "be16 ?p 12 = be16 pkt 12" by (simp add: be16_def)
  moreover have "(ucast (drop_bit 8 (be16 pkt 14)) :: u8) = pkt ! 14" "(ucast (be16 pkt 14) :: u8) = pkt ! 15"
    unfolding be16_def by (rule bit_eqI; auto simp: bit_simps not_le dest: bit_imp_le_length)+
  ultimately show ?thesis
    using True assms [OF True] by (simp add: retag_def tagged_def list_update_swap [of 14 15])
next
  case False
  then have "retag k pkt = pkt" for k by (auto simp: retag_def)
  then show ?thesis by simp
qed

section \<open>The theorems\<close>

lemma dhcp_buffer_init:
  assumes "bufferInit mb malloc (dhcp_bufsize prv) = Some b"
    and "\<And>m. malloc (dhcp_bufsize prv) = Some m \<Longrightarrow> length m = unat (dhcp_bufsize prv)"
  shows "dhcp_inv b"
  using bufferInit_ok [OF assms] by (simp add: dhcp_inv_def buffer_ok_def dhcp_bufsize_def)

lemma Rd_ok_list [simp]: "[pkt. Rd_ok pkt \<leftarrow> map Rd_ok xs] = xs"
  by (induction xs) simp_all


text \<open>A DHCP answer in VLAN 100: Ethernet addresses, the tag with priority 5, then the rest.\<close>

definition sample_frame :: "u8 list" where
  "sample_frame = [1, 2, 3, 4, 5, 6, 7, 8, 9, 10, 11, 12, 0x81, 0, 0xA0, 100, 8, 0]"


text \<open>
  The tag bits: for VLAN 1 to 4094 the translated number is the one below, 4093 for VLAN 1, and
  the priority bits stay; it is never 0 and never 4094. For VLAN 0, which the filter lets through, all sixteen bits
  are set, whatever the priority was.
\<close>

theorem dhcp_vlan_bits:
  "if vlan tci = 0 then to_dhcp tci = 0xFFFF
   else if vlan tci \<le> 4094 then
     vlan (to_dhcp tci) = (if vlan tci = 1 then 4093 else vlan tci - 1) \<and>
     prio (to_dhcp tci) = prio tci \<and> vlan (to_dhcp tci) \<in> {1..4093}
   else vlan tci = 4095"
proof -
  have "vlan (to_dhcp tci) \<in> {1..4093}" if "1 \<le> vlan tci" "vlan tci \<le> 4094"
    using to_dhcp_vlan(1) [OF that] that by auto
  then show ?thesis
    using to_dhcp_zero [of tci] to_dhcp_vlan [of tci] vlan_less [of tci] by auto
qed

text \<open>
  The program with the DHCP service always relays under its own number. Without \<^verbatim>\<open>-V\<close> no frame is
  edited; with \<^verbatim>\<open>-E\<close> as the last service option it does not start.
\<close>

theorem dhcp_main_starts:
  assumes "relay_main dhcp_service_init env os = (Some (info, s2n, n2s), lg)"
  shows "\<exists>v. parseArgs os relay_vars0 = Some v \<and> relayId v = RELAY_ID_DHCP \<and> info = dhcp_info \<and>
    from_fd s2n = to_fd n2s \<and> to_fd s2n = from_fd n2s \<and>
    priv s2n = (if serviceEnabled v then VLAN_DHCP2OAM else 0) \<and>
    priv n2s = (if serviceEnabled v then VLAN_OAM2DHCP else 0)"
proof -
  have reg: "dhcp_service_init [None, None] = Some (0, [Some dhcp_info, None])"
    by (simp add: dhcp_service_init_def relay_register_def dhcp_info_def)
  have find: "relay_find [Some dhcp_info, None] i = Some s \<Longrightarrow> i = 0 \<and> s = dhcp_info" for i s
    by (cases "nat i") (auto simp: relay_find_def nth_Cons split: if_splits nat.splits)
  from assms show ?thesis
    by (rule relay_main_starts) (use reg find in \<open>auto simp: SERVICE_PRIV_def\<close>)
qed

theorem dhcp_main_starts_witness:
  "\<exists>env s2n n2s lg. relay_main dhcp_service_init env [(CHR ''n'', ''eth0''), (CHR ''t'', ''eth1''), (CHR ''V'', [])]
      = (Some (dhcp_info, s2n, n2s), lg) \<and> priv s2n = VLAN_DHCP2OAM \<and> priv n2s = VLAN_OAM2DHCP"
proof -
  define env :: net_env where "env = \<lparr>socket_ret = \<lambda>n. 3 + int n, get_flags = \<lambda>_. None, set_flags = \<lambda>_ _. False,
    get_ifindex = \<lambda>_. Some 1, get_hwaddr = \<lambda>_. Some [0, 0, 0, 0, 0, 0], bind_ret = \<lambda>_. 0, tun_open = - 1,
    tun_setiff = \<lambda>_ _. False, attach_ret = 0, thread_ret = 0\<rparr>"
  let ?os = "[(CHR ''n'', ''eth0''), (CHR ''t'', ''eth1''), (CHR ''V'', [])]"
  have p: "parseArgs ?os relay_vars0 = Some \<lparr>logLevel = 0, syslogEnabled = False, serviceEnabled = True,
      filterEnable = False, relayId = 0, netItf = Some ''eth0'', serviceItf = Some ''eth1''\<rparr>"
    by (simp add: parseArgs_def parse_opt_def relay_vars0_def)
  have m: "relay_main dhcp_service_init env ?os = (Some (dhcp_info, \<lparr>from_fd = 4, to_fd = 3, priv = 1\<rparr>, \<lparr>from_fd = 3, to_fd = 4, priv = 2\<rparr>),
      [Ev_socket 3, Ev_bind 3 1 [0, 0, 0, 0, 0, 0], Ev_socket 4, Ev_bind 4 1 [0, 0, 0, 0, 0, 0], Ev_thread 4 3 1])"
    by (simp add: relay_main_def p dhcp_service_init_def relay_register_def relay_find_def dhcp_info_def
        dhcp_raw_socket_def getLLsocketOf_def getMacAddressOf_def createThread_def SERVICE_PRIV_def env_def Let_def)
  from dhcp_main_starts [OF m] m show ?thesis
    by (auto intro!: exI)
qed

end
