(* ===== verification/Limitfs.thy ===== *)
theory Limitfs
  imports C_Strings
begin

text \<open>
  The size-limited file system, \<^verbatim>\<open>src/test_suite/limitfs.c\<close>: a FUSE file system that passes every
  operation on to a source directory and keeps the number of bytes stored there in \<^verbatim>\<open>cur_size\<close>. The
  file system underneath is a parameter: what \<^verbatim>\<open>stat\<close> and \<^verbatim>\<open>readdir\<close> see of its state, and what a
  system call does to it. The theory has the size computation, all the operations, the start of the
  program, and what the accounting guarantees.
\<close>

section \<open>The file system underneath\<close>

text \<open>The system calls that change something, or that the program only passes on.\<close>

datatype os_call =
    Sys_lstat string
  | Sys_access string int
  | Sys_open string int
  | Sys_creat string u32
  | Sys_mkfifo string u32
  | Sys_mknod string u32 u32
  | Sys_pwrite int "u8 list" u64
  | Sys_mkdir string u32
  | Sys_truncate string u64
  | Sys_chmod string u32
  | Sys_lchown string u32 u32
  | Sys_rmdir string
  | Sys_rename string string
  | Sys_unlink string
  | Sys_close int

text \<open>
  \<open>os_stat\<close> says whether a path is a directory and gives its size; \<open>os_readdir\<close> lists the names in a
  directory or gives an error number; \<open>os_sys\<close> returns a result, or an error number negated, and the new state.
\<close>

record 'fs os =
  os_stat :: "'fs \<Rightarrow> string \<Rightarrow> (bool \<times> u64) option"
  os_readdir :: "'fs \<Rightarrow> string \<Rightarrow> int + string list"
  os_pread :: "'fs \<Rightarrow> int \<Rightarrow> nat \<Rightarrow> u64 \<Rightarrow> int + u8 list"
  os_sys :: "os_call \<Rightarrow> 'fs \<Rightarrow> int \<times> 'fs"

record 'fs limitfs =
  src :: string
  max_size :: u32
  cur_size :: u32
  fs :: 'fs

abbreviation (input) MAX_PATH :: nat where "MAX_PATH \<equiv> 1024"

definition path_max_size :: string where "path_max_size = ''/max_size''"

definition path_cur_size :: string where "path_cur_size = ''/cur_size''"

definition special :: "string \<Rightarrow> bool" where
  "special path \<longleftrightarrow> path = path_cur_size \<or> path = path_max_size"

text \<open>\<^verbatim>\<open>sprintf(real_path, "%s/%s", src, path)\<close>; the result and its terminator must fit into the array.\<close>

definition join :: "string \<Rightarrow> string \<Rightarrow> string" where
  "join d n = d @ ''/'' @ n"

section \<open>The size of a directory\<close>

definition get_file_size :: "'fs os \<Rightarrow> 'fs \<Rightarrow> string \<Rightarrow> u32 option" where
  "get_file_size os s path = map_option (\<lambda>(d, n). ucast n) (os_stat os s path)"

definition is_dir :: "'fs os \<Rightarrow> 'fs \<Rightarrow> string \<Rightarrow> bool option" where
  "is_dir os s path = map_option fst (os_stat os s path)"

text \<open>
  \<^verbatim>\<open>__get_dir_size\<close>: the return value and \<^verbatim>\<open>*filesize\<close>. The first argument bounds the depth of the
  recursion; \<open>None\<close> means that the program does not come back from it: the bound is reached, or a path
  does not fit into its array. \<open>dir_entries\<close> is the loop over the names with the local variable
  \<^verbatim>\<open>cur_filesize\<close>, which a nested directory adds to.
\<close>

fun dir_size_at :: "'fs os \<Rightarrow> 'fs \<Rightarrow> nat \<Rightarrow> string \<Rightarrow> u32 \<Rightarrow> (int \<times> u32) option"
  and dir_entries :: "'fs os \<Rightarrow> 'fs \<Rightarrow> nat \<Rightarrow> string \<Rightarrow> string list \<Rightarrow> u32 \<Rightarrow> u32 \<Rightarrow> (int \<times> u32) option" where
  "dir_size_at os s 0 dir filesize = None"
| "dir_size_at os s (Suc d) dir filesize =
    (case os_readdir os s dir of
       Inl e \<Rightarrow> Some (- 1, filesize)
     | Inr names \<Rightarrow> dir_entries os s d dir names 0 filesize)"
| "dir_entries os s d dir [] cur filesize = Some (0, filesize)"
| "dir_entries os s d dir (n # ns) cur filesize =
    (if n = ''.'' \<or> n = ''..'' then dir_entries os s d dir ns cur filesize
     else if MAX_PATH \<le> length (join dir n) then None
     else
       (case is_dir os s (join dir n) of
          None \<Rightarrow> Some (- 1, filesize)
        | Some True \<Rightarrow>
            (case dir_size_at os s d (join dir n) cur of
               None \<Rightarrow> None
             | Some (r, cur) \<Rightarrow>
                 if r \<noteq> 0 then Some (- 1, filesize) else dir_entries os s d dir ns cur (filesize + cur))
        | Some False \<Rightarrow>
            (case get_file_size os s (join dir n) of
               None \<Rightarrow> Some (- 1, filesize)
             | Some cur \<Rightarrow> dir_entries os s d dir ns cur (filesize + cur))))"

definition get_dir_size :: "'fs os \<Rightarrow> 'fs \<Rightarrow> nat \<Rightarrow> string \<Rightarrow> (int \<times> u32) option" where
  "get_dir_size os s d dir = dir_size_at os s d dir 0"

section \<open>The operations\<close>

text \<open>
  Every operation returns its result and the new state. \<open>pass\<close> hands a call to the file system
  underneath.
\<close>

definition pass :: "'fs os \<Rightarrow> os_call \<Rightarrow> 'fs limitfs \<Rightarrow> int \<times> 'fs limitfs" where
  "pass os c st = (let (r, s) = os_sys os c (fs st) in (r, st\<lparr>fs := s\<rparr>))"

text \<open>The attributes: mode, number of links and size of the two files the program adds.\<close>

definition limitfs_getattr :: "'fs os \<Rightarrow> string \<Rightarrow> 'fs limitfs \<Rightarrow> int \<times> (u32 \<times> nat \<times> u64) option \<times> 'fs limitfs" where
  "limitfs_getattr os path st =
     (if special path then (0, Some (0x8124, 1, 128), st)
      else let (r, st) = pass os (Sys_lstat (join (src st) path)) st in (if r < 0 then r else 0, None, st))"

definition limitfs_access :: "'fs os \<Rightarrow> string \<Rightarrow> int \<Rightarrow> 'fs limitfs \<Rightarrow> int \<times> 'fs limitfs" where
  "limitfs_access os path msk st =
     (if special path then (0, st)
      else let (r, st) = pass os (Sys_access (join (src st) path) msk) st in (if r < 0 then r else 0, st))"

text \<open>
  The entries of a directory. The filler takes entries while its buffer has room, \<open>room\<close> of them, and
  reports afterwards that it is full; the loop then stops.
\<close>

fun fill_entries :: "string list \<Rightarrow> nat \<Rightarrow> string list \<Rightarrow> string list" where
  "fill_entries [] room got = got"
| "fill_entries (n # ns) room got =
    (if length got < room then fill_entries ns room (got @ [n]) else got)"

definition limitfs_readdir :: "'fs os \<Rightarrow> string \<Rightarrow> nat \<Rightarrow> 'fs limitfs \<Rightarrow> int \<times> string list" where
  "limitfs_readdir os path room st =
     (let got = (if path = ''/'' then take room [drop 1 path_cur_size, drop 1 path_max_size] else []) in
      case os_readdir os (fs st) (join (src st) path) of
        Inl e \<Rightarrow> (- e, got)
      | Inr names \<Rightarrow> (0, fill_entries names room got))"

datatype node_kind = S_REG | S_FIFO | S_OTHER

definition limitfs_mknod :: "'fs os \<Rightarrow> string \<Rightarrow> node_kind \<Rightarrow> u32 \<Rightarrow> u32 \<Rightarrow> 'fs limitfs \<Rightarrow> int \<times> 'fs limitfs" where
  "limitfs_mknod os path kind mode rdev st =
     (if max_size st < cur_size st then (- ENOBUFS, st)
      else if special path then (0, st)
      else
        (let real_path = join (src st) path;
             (r, st) = (case kind of
                 S_REG \<Rightarrow>
                   (let (r, st) = pass os (Sys_creat real_path mode) st in
                    if 0 \<le> r then pass os (Sys_close r) st else (r, st))
               | S_FIFO \<Rightarrow> pass os (Sys_mkfifo real_path mode) st
               | S_OTHER \<Rightarrow> pass os (Sys_mknod real_path mode rdev) st) in
         (if r < 0 then r else 0, st)))"

text \<open>\<open>limitfs_open\<close> also gives the descriptor to be kept in \<^verbatim>\<open>fi->fh\<close>.\<close>

definition limitfs_open :: "'fs os \<Rightarrow> string \<Rightarrow> int \<Rightarrow> 'fs limitfs \<Rightarrow> int \<times> int option \<times> 'fs limitfs" where
  "limitfs_open os path flags st =
     (if special path then (0, None, st)
      else
        (let (r, st) = pass os (Sys_open (join (src st) path) flags) st in
         if r < 0 then (r, None, st) else (0, Some r, st)))"

definition limitfs_read :: "'fs os \<Rightarrow> string \<Rightarrow> nat \<Rightarrow> u64 \<Rightarrow> int \<Rightarrow> 'fs limitfs \<Rightarrow> int \<times> u8 list \<times> 'fs limitfs" where
  "limitfs_read os path count offset fh st =
     (let text = (\<lambda>v :: u32. map (of_char :: char \<Rightarrow> u8) (dec (unat v) @ [CHR 0x0A])) in
      if path = path_cur_size then (int (length (text (cur_size st))), text (cur_size st), st)
      else if path = path_max_size then (int (length (text (max_size st))), text (max_size st), st)
      else
        (case os_pread os (fs st) fh count offset of
           Inr bs \<Rightarrow> (int (length bs), bs, st)
         | Inl e \<Rightarrow> (- e, [], snd (pass os (Sys_close fh) st))))"

definition limitfs_write :: "'fs os \<Rightarrow> string \<Rightarrow> u8 list \<Rightarrow> u64 \<Rightarrow> int \<Rightarrow> 'fs limitfs \<Rightarrow> int \<times> 'fs limitfs" where
  "limitfs_write os path buf offset fh st =
     (if special path then (0, st)
      else if max_size st < cur_size st then (- ENOBUFS, snd (pass os (Sys_close fh) st))
      else
        (let real_path = join (src st) path in
         case get_file_size os (fs st) real_path of
           None \<Rightarrow> (- 1, st)
         | Some old_size \<Rightarrow>
             (let (res, st) = pass os (Sys_pwrite fh buf offset) st;
                  st = (if res < 0 then snd (pass os (Sys_close fh) st) else st) in
              case get_file_size os (fs st) real_path of
                None \<Rightarrow> (- 1, st)
              | Some new_size \<Rightarrow>
                  (res, st\<lparr>cur_size := (if old_size \<le> cur_size st then cur_size st - old_size + new_size
                                       else new_size)\<rparr>))))"

definition limitfs_mkdir :: "'fs os \<Rightarrow> string \<Rightarrow> u32 \<Rightarrow> 'fs limitfs \<Rightarrow> int \<times> 'fs limitfs" where
  "limitfs_mkdir os path mode st =
     (if special path then (- 1, st)
      else let (r, st) = pass os (Sys_mkdir (join (src st) path) mode) st in (if r < 0 then r else 0, st))"

definition limitfs_chmod :: "'fs os \<Rightarrow> string \<Rightarrow> u32 \<Rightarrow> 'fs limitfs \<Rightarrow> int \<times> 'fs limitfs" where
  "limitfs_chmod os path mode st =
     (if special path then (- 1, st)
      else let (r, st) = pass os (Sys_chmod (join (src st) path) mode) st in (if r < 0 then r else 0, st))"

definition limitfs_chown :: "'fs os \<Rightarrow> string \<Rightarrow> u32 \<Rightarrow> u32 \<Rightarrow> 'fs limitfs \<Rightarrow> int \<times> 'fs limitfs" where
  "limitfs_chown os path uid gid st =
     (if special path then (- 1, st)
      else let (r, st) = pass os (Sys_lchown (join (src st) path) uid gid) st in (if r < 0 then r else 0, st))"

definition limitfs_rename :: "'fs os \<Rightarrow> string \<Rightarrow> string \<Rightarrow> 'fs limitfs \<Rightarrow> int \<times> 'fs limitfs" where
  "limitfs_rename os from_path to_path st =
     (if special from_path then (- 1, st)
      else if special to_path then (- 1, st)
      else
        (let (r, st) = pass os (Sys_rename (join (src st) from_path) (join (src st) to_path)) st in
         (if r < 0 then r else 0, st)))"

text \<open>
  The operations that count again: the walk over the source directory stores what it has added up
  in \<^verbatim>\<open>cur_size\<close> even when it fails. The bound \<open>d\<close> is the depth the walk may reach.
\<close>

definition recount :: "'fs os \<Rightarrow> nat \<Rightarrow> 'fs limitfs \<Rightarrow> 'fs limitfs option" where
  "recount os d st = map_option (\<lambda>(r, n). st\<lparr>cur_size := n\<rparr>) (get_dir_size os (fs st) d (src st))"

definition then_recount :: "'fs os \<Rightarrow> nat \<Rightarrow> os_call \<Rightarrow> 'fs limitfs \<Rightarrow> (int \<times> 'fs limitfs) option" where
  "then_recount os d c st =
     (let (r, st) = pass os c st in map_option (\<lambda>st. (if r < 0 then r else 0, st)) (recount os d st))"

definition limitfs_truncate :: "'fs os \<Rightarrow> nat \<Rightarrow> string \<Rightarrow> u64 \<Rightarrow> 'fs limitfs \<Rightarrow> (int \<times> 'fs limitfs) option" where
  "limitfs_truncate os d path len st =
     (if special path then Some (- 1, st) else then_recount os d (Sys_truncate (join (src st) path) len) st)"

definition limitfs_rmdir :: "'fs os \<Rightarrow> nat \<Rightarrow> string \<Rightarrow> 'fs limitfs \<Rightarrow> (int \<times> 'fs limitfs) option" where
  "limitfs_rmdir os d path st =
     (if special path then Some (- 1, st) else then_recount os d (Sys_rmdir (join (src st) path)) st)"

definition limitfs_unlink :: "'fs os \<Rightarrow> nat \<Rightarrow> string \<Rightarrow> 'fs limitfs \<Rightarrow> (int \<times> 'fs limitfs) option" where
  "limitfs_unlink os d path st =
     (if special path then Some (- 1, st) else then_recount os d (Sys_unlink (join (src st) path)) st)"

definition limitfs_release :: "'fs os \<Rightarrow> int \<Rightarrow> 'fs limitfs \<Rightarrow> int \<times> 'fs limitfs" where
  "limitfs_release os fh st = (let (r, st) = pass os (Sys_close fh) st in (if r < 0 then r else 0, st))"

section \<open>The start of the program\<close>

text \<open>
  The program takes its own two options out of the arguments and leaves the others to FUSE. An
  option that is the last argument has no value: the program reads a null pointer, \<open>None\<close>.
\<close>

fun limitfs_args :: "string list \<Rightarrow> string option \<Rightarrow> u32 \<Rightarrow> string list \<Rightarrow> (string option \<times> u32 \<times> string list) option" where
  "limitfs_args [] sr mx fuse = Some (sr, mx, fuse)"
| "limitfs_args (a # as) sr mx fuse =
    (if a = ''--size'' then
       (case as of [] \<Rightarrow> None | v # as \<Rightarrow> limitfs_args as sr (of_int (atol v)) fuse)
     else if a = ''--src'' then
       (case as of [] \<Rightarrow> None | v # as \<Rightarrow> limitfs_args as (Some v) mx fuse)
     else limitfs_args as sr mx (fuse @ [a]))"

definition limitfs_main :: "'fs os \<Rightarrow> nat \<Rightarrow> string list \<Rightarrow> 'fs \<Rightarrow> (int + 'fs limitfs \<times> string list) option" where
  "limitfs_main os d argv s =
     (case limitfs_args argv None 0 [] of
        None \<Rightarrow> None
      | Some (None, mx, fuse) \<Rightarrow> Some (Inl 1)
      | Some (Some sr, mx, fuse) \<Rightarrow>
          if mx = 0 then Some (Inl 1)
          else
            (case get_dir_size os s d sr of
               None \<Rightarrow> None
             | Some (r, n) \<Rightarrow>
                 if r \<noteq> 0 then Some (Inl (- 1))
                 else Some (Inr (\<lparr>src = sr, max_size = mx, cur_size = n, fs = s\<rparr>, fuse))))"

section \<open>What the walk adds up\<close>

text \<open>
  A directory tree as the file system shows it: a file with its size, or the entries in the order
  in which they are listed. \<open>total\<close> is the number of bytes in its files.
\<close>

datatype ftree = File u64 | Dir "(string \<times> ftree) list"

fun total :: "ftree \<Rightarrow> nat" where
  "total (File n) = unat n"
| "total (Dir es) = sum_list (map (\<lambda>(n, t). total t) es)"

fun depth :: "ftree \<Rightarrow> nat" where
  "depth (File n) = 0"
| "depth (Dir es) = Suc (Max (insert 0 (set (map (\<lambda>(n, t). depth t) es))))"

fun shows_tree :: "'fs os \<Rightarrow> 'fs \<Rightarrow> string \<Rightarrow> ftree \<Rightarrow> bool" where
  "shows_tree os s p (File n) \<longleftrightarrow> os_stat os s p = Some (False, n)"
| "shows_tree os s p (Dir es) \<longleftrightarrow>
    (\<exists>m. os_stat os s p = Some (True, m)) \<and>
    (\<exists>names. os_readdir os s p = Inr names \<and> filter (\<lambda>n. n \<noteq> ''.'' \<and> n \<noteq> ''..'') names = map fst es) \<and>
    (\<forall>(n, t) \<in> set es. length (join p n) < 1024 \<and> shows_tree os s (join p n) t)"

text \<open>
  What the walk computes: the running value that a file replaces and a directory is added to, and
  the sum of its values.
\<close>

fun walked :: "(string \<times> ftree) list \<Rightarrow> nat \<Rightarrow> nat" where
  "walked [] cur = 0"
| "walked ((n, File k) # es) cur = unat k + walked es (unat k)"
| "walked ((n, Dir ds) # es) cur = (let c = cur + walked ds 0 in c + walked es c)"

lemma ucast_of_nat64: "(ucast (k :: u64) :: u32) = of_nat (unat k)"
  by (simp add: of_nat_unat)

lemma dir_entries_walked:
  assumes tree: "\<forall>(n, t) \<in> set es. length (join p n) < 1024 \<and> shows_tree os s (join p n) t"
    and sub: "\<And>n ds c. (n, Dir ds) \<in> set es \<Longrightarrow>
      dir_size_at os s d (join p n) (of_nat c) = Some (0, of_nat (c + walked ds 0))"
  shows "filter (\<lambda>n. n \<noteq> ''.'' \<and> n \<noteq> ''..'') names = map fst es \<Longrightarrow>
    dir_entries os s d p names (of_nat cur) f = Some (0, f + of_nat (walked es cur))"
  using tree sub
proof (induction names arbitrary: es cur f)
  case Nil
  then show ?case by simp
next
  case (Cons m names)
  show ?case
  proof (cases "m = ''.'' \<or> m = ''..''")
    case True
    then show ?thesis using Cons by (auto simp del: of_nat_add)
  next
    case False
    then obtain t es' where es: "es = (m, t) # es'" and rest: "filter (\<lambda>n. n \<noteq> ''.'' \<and> n \<noteq> ''..'') names = map fst es'"
      using Cons.prems(1) by (cases es) auto
    have IH: "dir_entries os s d p names (of_nat c) g = Some (0, g + of_nat (walked es' c))" for c g
      using Cons.prems(2,3) es rest by (intro Cons.IH) auto
    show ?thesis
    proof (cases t)
      case (File k)
      then show ?thesis
        using False es Cons.prems(2) IH [of "unat k"]
        by (simp add: is_dir_def get_file_size_def ucast_of_nat64 add.assoc)
    next
      case (Dir ds)
      then have "dir_size_at os s d (join p m) (of_nat cur) = Some (0, of_nat (cur + walked ds 0))"
        using Cons.prems(3) es by simp
      then show ?thesis
        using False es Dir Cons.prems(2) IH [of "cur + walked ds 0"]
        by (auto simp: is_dir_def Let_def add.assoc)
    qed
  qed
qed

lemma dir_size_walked:
  "shows_tree os s p t \<Longrightarrow> t = Dir es \<Longrightarrow> depth t \<le> d \<Longrightarrow>
    dir_size_at os s d p f = Some (0, f + of_nat (walked es 0))"
proof (induction os s p t arbitrary: es d f rule: shows_tree.induct)
  case (1 os s p n)
  then show ?case by simp
next
  case (2 os s p es')
  have [simp]: "es' = es" using 2 by simp
  obtain d' where d: "d = Suc d'" using 2 by (cases d) auto
  obtain names where r: "os_readdir os s p = Inr names" "filter (\<lambda>n. n \<noteq> ''.'' \<and> n \<noteq> ''..'') names = map fst es"
    using 2 by auto
  have tree: "\<forall>(n, t) \<in> set es. length (join p n) < 1024 \<and> shows_tree os s (join p n) t"
    using 2 by simp
  have dep: "depth t \<le> d'" if "(n, t) \<in> set es" for n t
    using "2.prems"(3) d that by auto
  have sub: "dir_size_at os s d' (join p n) (of_nat c) = Some (0, of_nat (c + walked ds 0))"
    if m: "(n, Dir ds) \<in> set es" for n ds c
  proof -
    have "shows_tree os s (join p n) (Dir ds)" using tree m by blast
    with dep [OF m] m show ?thesis
      using "2.IH" [of "(n, Dir ds)" n "Dir ds" ds d' "of_nat c"]
      by (simp del: depth.simps shows_tree.simps)
  qed
  show ?case
    using dir_entries_walked [OF tree sub r(2), of 0] by (simp add: d r(1))
qed

text \<open>
  The walk counts every file at least once. It counts every file exactly once if and only if nowhere
  in the tree a subdirectory is listed directly after an entry with a size.
\<close>

fun tidy :: "(string \<times> ftree) list \<Rightarrow> nat \<Rightarrow> bool" where
  "tidy [] prev = True"
| "tidy ((n, File k) # es) prev = tidy es (unat k)"
| "tidy ((n, Dir ds) # es) prev = (prev = 0 \<and> tidy ds 0 \<and> tidy es (total (Dir ds)))"

lemma walked_ge: "total (Dir es) \<le> walked es cur"
  by (induction es cur rule: walked.induct) (auto simp: Let_def)

lemma walked_eq_iff: "walked es cur = total (Dir es) \<longleftrightarrow> tidy es cur"
proof (induction es cur rule: walked.induct)
  case (3 n ds es cur)
  let ?c = "cur + walked ds 0"
  have ge: "total (Dir ds) \<le> walked ds 0" "total (Dir es) \<le> walked es ?c" by (rule walked_ge)+
  show ?case
  proof
    assume "walked ((n, Dir ds) # es) cur = total (Dir ((n, Dir ds) # es))"
    then have "cur = 0 \<and> walked ds 0 = total (Dir ds) \<and> walked es ?c = total (Dir es)"
      using ge by (simp add: Let_def)
    then show "tidy ((n, Dir ds) # es) cur"
      using "3.IH" by auto
  next
    assume t: "tidy ((n, Dir ds) # es) cur"
    then have "cur = 0" "walked ds 0 = total (Dir ds)"
      using "3.IH"(1) by auto
    with t show "walked ((n, Dir ds) # es) cur = total (Dir ((n, Dir ds) # es))"
      using "3.IH"(2) [of ?c] by (auto simp: Let_def)
  qed
qed (auto simp: Let_def)

text \<open>
  C31. On a directory tree of any depth the size computation returns, and counts at least all bytes of
  all files (modulo the width of the counter). It counts each file once if and only if no
  subdirectory is listed directly after an entry with a size: the size of that entry is
  counted again together with the subdirectory.
\<close>

theorem limitfs_dir_size:
  assumes "shows_tree os s p (Dir es)" and "depth (Dir es) \<le> d"
  shows "get_dir_size os s d p = Some (0, of_nat (walked es 0)) \<and> total (Dir es) \<le> walked es 0 \<and>
    (walked es 0 = total (Dir es) \<longleftrightarrow> tidy es 0)"
  using dir_size_walked [OF assms(1) refl assms(2), of 0] walked_ge [of es 0] walked_eq_iff [of es 0]
  by (simp add: get_dir_size_def del: total.simps)

text \<open>A directory with a file of 10 bytes and, listed after it, a subdirectory with a file of 5.\<close>

definition sample_os :: "unit os" where
  "sample_os = \<lparr>os_stat = \<lambda>s p. if p = ''s'' \<or> p = ''s/d'' then Some (True, 4096)
       else if p = ''s/f'' then Some (False, 10) else if p = ''s/d/g'' then Some (False, 5) else None,
     os_readdir = \<lambda>s p. if p = ''s'' then Inr [''.'', ''..'', ''f'', ''d''] else if p = ''s/d'' then Inr [''.'', ''..'', ''g''] else Inl 20,
     os_pread = \<lambda>s fh n off. Inl 5, os_sys = \<lambda>c s. (- 38, s)\<rparr>"

theorem limitfs_dir_size_witness:
  "get_dir_size sample_os () 2 ''s'' = Some (0, 25) \<and> total (Dir [(''f'', File 10), (''d'', Dir [(''g'', File 5)])]) = 15"
proof -
  have "shows_tree sample_os () ''s'' (Dir [(''f'', File 10), (''d'', Dir [(''g'', File 5)])])"
    by (simp add: sample_os_def join_def)
  from limitfs_dir_size [OF this, of 2] show ?thesis
    by (simp add: Let_def)
qed

section \<open>The accounting\<close>

text \<open>
  What \<^verbatim>\<open>pwrite\<close> and \<^verbatim>\<open>close\<close> do to the number of stored bytes, \<open>stored\<close>: a write to the descriptor
  \<open>fh\<close> of the file \<open>p\<close> changes it as it changes the size of that file, which grows at most to the end
  of what was written; a close changes nothing. All sizes are within the counter's width.
\<close>

definition backing_file :: "'fs os \<Rightarrow> ('fs \<Rightarrow> nat) \<Rightarrow> string \<Rightarrow> int \<Rightarrow> bool" where
  "backing_file os stored p fh \<longleftrightarrow>
     (\<forall>s. stored s < 2 ^ 32 \<and> (\<forall>n. os_stat os s p = Some (False, n) \<longrightarrow> unat n \<le> stored s)) \<and>
     (\<forall>s buf off r s'. os_sys os (Sys_pwrite fh buf off) s = (r, s') \<longrightarrow>
        (\<forall>o1. os_stat os s p = Some (False, o1) \<longrightarrow>
          (\<exists>n1. os_stat os s' p = Some (False, n1) \<and> stored s' + unat o1 = stored s + unat n1 \<and>
            unat n1 \<le> max (unat o1) (unat off + length buf)))) \<and>
     (\<forall>s. stored (snd (os_sys os (Sys_close fh) s)) = stored s \<and>
        os_stat os (snd (os_sys os (Sys_close fh) s)) p = os_stat os s p)"

text \<open>\<open>cur_size\<close> is the number of bytes that are stored.\<close>

definition in_step :: "('fs \<Rightarrow> nat) \<Rightarrow> 'fs limitfs \<Rightarrow> bool" where
  "in_step stored st \<longleftrightarrow> unat (cur_size st) = stored (fs st)"

lemma recounted:
  assumes "unat cur = a" and "unat (k :: u64) \<le> a" and "a < 2 ^ 32" and "b < 2 ^ 32" and "b + unat k = a + unat n"
  shows "unat (if ucast k \<le> cur then cur - ucast k + ucast n else (ucast (n :: u64) :: u32)) = b"
proof -
  have small: "unat k < 2 ^ 32" "unat n < 2 ^ 32" using assms by linarith+
  then have u: "unat (ucast k :: u32) = unat k" "unat (ucast n :: u32) = unat n" by (simp_all add: unat_ucast_down)
  then have le: "ucast k \<le> cur" using assms by (simp add: word_le_nat_alt)
  then have "unat (cur - ucast k) = a - unat k" using u assms by (simp add: unat_sub32)
  moreover have "a - unat k + unat n = b" using assms by linarith
  ultimately have "unat (cur - ucast k + ucast n) = b"
    using u assms by (simp add: unat_plus32)
  with le show ?thesis by simp
qed

text \<open>
  C22. A write to a file keeps the counter exact: afterwards \<open>cur_size\<close> is again the number of bytes
  stored, whether the write below succeeded, was short or failed. And the limit is passed by at most what
  this one write adds to the file.
\<close>

theorem limitfs_write_accounting:
  assumes "backing_file os stored (join (src st) path) fh" and "in_step stored st" and "\<not> special path"
    and "os_stat os (fs st) (join (src st) path) = Some (False, o1)"
    and "limitfs_write os path buf offset fh st = (r, st')"
  shows "in_step stored st' \<and>
    stored (fs st') \<le> max (stored (fs st)) (unat (max_size st) + (unat offset + length buf - unat o1))"
proof (cases "max_size st < cur_size st")
  case True
  have "stored (snd (os_sys os (Sys_close fh) (fs st))) = stored (fs st)"
    using assms(1) by (simp add: backing_file_def)
  moreover have "st' = st\<lparr>fs := snd (os_sys os (Sys_close fh) (fs st))\<rparr>"
    using True assms(3,5) by (auto simp: limitfs_write_def pass_def case_prod_beta Let_def)
  ultimately show ?thesis using assms(2) by (simp add: in_step_def)
next
  case False
  let ?p = "join (src st) path"
  obtain res s1 where w: "os_sys os (Sys_pwrite fh buf offset) (fs st) = (res, s1)" by fastforce
  obtain n1 where n: "os_stat os s1 ?p = Some (False, n1)" "stored s1 + unat o1 = stored (fs st) + unat n1"
      "unat n1 \<le> max (unat o1) (unat offset + length buf)"
    using assms(1,4) w unfolding backing_file_def by blast
  define s2 where "s2 = (if res < 0 then snd (os_sys os (Sys_close fh) s1) else s1)"
  have s2: "stored s2 = stored s1" "os_stat os s2 ?p = Some (False, n1)"
    using assms(1) n(1) by (simp_all add: s2_def backing_file_def)
  have bound: "unat o1 \<le> stored (fs st)" "stored (fs st) < 2 ^ 32" "stored s1 < 2 ^ 32"
    using assms(1,4) by (simp_all add: backing_file_def)
  have st': "st' = st\<lparr>fs := s2, cur_size := (if ucast o1 \<le> cur_size st then cur_size st - ucast o1 + ucast n1 else ucast n1)\<rparr>"
    using assms(3,4,5) False w s2
    by (auto simp: limitfs_write_def pass_def get_file_size_def Let_def s2_def split: if_splits prod.splits)
  have "in_step stored st'"
    using recounted [of "cur_size st" "stored (fs st)" o1 "stored s1" n1] assms(2) bound n(2) s2
    by (simp add: in_step_def st')
  moreover have "stored (fs st) \<le> unat (max_size st)"
    using False assms(2) by (simp add: in_step_def not_less word_le_nat_alt)
  ultimately show ?thesis using n s2 by (simp add: st')
qed

text \<open>The backing store of one open file, whose state is its size; the disk takes 100 bytes.\<close>

definition one_file_os :: "u8 os" where
  "one_file_os = \<lparr>os_stat = \<lambda>s p. if p = ''s//a'' then Some (False, ucast s) else None,
     os_readdir = \<lambda>s p. Inr [''a''], os_pread = \<lambda>s fh n off. Inl 5,
     os_sys = \<lambda>c s. case c of Sys_pwrite fh buf off \<Rightarrow>
         (if unat off + length buf \<le> 100 then (int (length buf), max s (of_nat (unat off + length buf))) else (- 28, s))
       | _ \<Rightarrow> (0, s)\<rparr>"

lemma one_file_backing: "backing_file one_file_os unat ''s//a'' 3"
proof -
  have u: "unat (ucast (s :: u8) :: u64) = unat s" for s
    using unsigned_less [of s, where ?'a = nat] by (simp add: unsigned_ucast_eq take_bit_nat_eq_self_iff)
  have "unat (s :: u8) < 2 ^ 32" for s using unsigned_less [of s, where ?'a = nat] by simp
  moreover have "unat (max (s :: u8) (of_nat k)) = max (unat s) k" if "k \<le> 100" for s k
    using that by (simp add: max_def word_le_nat_alt unat_of_nat)
  ultimately show ?thesis
    by (auto simp: backing_file_def one_file_os_def u simp del: of_nat_add split: if_splits)
qed

theorem limitfs_write_accounting_witness:
  "let st = \<lparr>src = ''s'', max_size = 50, cur_size = 40, fs = 40 :: u8\<rparr>;
      (r, st') = limitfs_write one_file_os ''/a'' (replicate 20 7) 40 3 st in
    in_step unat st' \<and> unat (fs st') \<le> 70"
proof -
  let ?st = "\<lparr>src = ''s'', max_size = 50, cur_size = 40, fs = 40 :: u8\<rparr>"
  obtain r st' where w: "limitfs_write one_file_os ''/a'' (replicate 20 7) 40 3 ?st = (r, st')" by fastforce
  have b: "backing_file one_file_os unat (join (src ?st) ''/a'') 3"
    using one_file_backing by (simp add: join_def)
  have "in_step unat st' \<and> unat (fs st') \<le> max (unat (fs ?st)) (unat (max_size ?st) + (unat (40 :: u64) + length (replicate 20 (7 :: u8)) - unat (40 :: u64)))"
    by (rule limitfs_write_accounting [OF b _ _ _ w])
      (simp_all add: join_def in_step_def special_def path_cur_size_def path_max_size_def one_file_os_def)
  then show ?thesis by (simp add: w)
qed

text \<open>
  Once more is stored than allowed, a write is refused and only closes the descriptor, and no file
  is created. The other operations ignore the limit: a truncate to any length is passed on.
\<close>

theorem limitfs_over_limit:
  assumes "max_size st < cur_size st" and "\<not> special path"
  shows "limitfs_write os path buf offset fh st = (- ENOBUFS, st\<lparr>fs := snd (os_sys os (Sys_close fh) (fs st))\<rparr>) \<and>
    limitfs_mknod os path kind mode rdev st = (- ENOBUFS, st) \<and>
    limitfs_truncate os d path len st = then_recount os d (Sys_truncate (join (src st) path) len) st"
  using assms by (simp add: limitfs_write_def limitfs_mknod_def limitfs_truncate_def pass_def case_prod_beta Let_def)

theorem limitfs_over_limit_witness:
  "limitfs_mknod one_file_os ''/b'' S_REG 0 0 \<lparr>src = ''s'', max_size = 50, cur_size = 51, fs = 51\<rparr> =
    (- ENOBUFS, \<lparr>src = ''s'', max_size = 50, cur_size = 51, fs = 51 :: u8\<rparr>)"
  using limitfs_over_limit [of "\<lparr>src = ''s'', max_size = 50, cur_size = 51, fs = 51 :: u8\<rparr>" "''/b''" one_file_os _ _ _ S_REG 0 0]
  by (simp add: special_def path_cur_size_def path_max_size_def)

text \<open>
  A recount that fails lifts the limit: when the source directory cannot be listed after an unlink,
  a rmdir or a truncate, the counter is zero and only a warning is printed.
\<close>

theorem limitfs_failed_recount:
  assumes "os_sys os (Sys_unlink (join (src st) path)) (fs st) = (r, s)" and "\<not> special path"
    and "os_readdir os s (src st) = Inl e"
  shows "limitfs_unlink os (Suc d) path st = Some (if r < 0 then r else 0, st\<lparr>fs := s, cur_size := 0\<rparr>)"
  using assms by (simp add: limitfs_unlink_def then_recount_def recount_def get_dir_size_def pass_def)

theorem limitfs_failed_recount_witness:
  "limitfs_unlink (one_file_os\<lparr>os_readdir := \<lambda>s p. Inl 24\<rparr>) 1 ''/b'' \<lparr>src = ''s'', max_size = 50, cur_size = 51, fs = 51\<rparr> =
    Some (0, \<lparr>src = ''s'', max_size = 50, cur_size = 0, fs = 51\<rparr>)"
  using limitfs_failed_recount [of "one_file_os\<lparr>os_readdir := \<lambda>s p. Inl 24\<rparr>"
      "\<lparr>src = ''s'', max_size = 50, cur_size = 51, fs = 51\<rparr>" "''/b''" 0 51 24 0]
  by (simp add: special_def path_cur_size_def path_max_size_def one_file_os_def)

end
