(* ===== verification/Limitfs_Run.thy ===== *)
theory Limitfs_Run
  imports Limitfs Monitor
begin

text \<open>
  The size-limited file system in use: the table of operations \<^verbatim>\<open>limitfs_oper\<close> of \<^verbatim>\<open>src/test_suite/limitfs.c\<close> as
  FUSE calls it, and what its counter is after any sequence of requests. The locale \<open>backing_store\<close> says what the
  file system underneath does to the number of stored bytes; a flat directory of files is an instance.
\<close>

section \<open>Requests\<close>

datatype fuse_req =
    Getattr string
  | Access string int
  | Readdir string nat
  | Mknod string node_kind u32 u32
  | Open string int
  | Read string nat u64 int
  | Write string "u8 list" u64 int
  | Mkdir string u32
  | Chmod string u32
  | Truncate string u64
  | Chown string u32 u32
  | Rename string string
  | Rmdir string
  | Unlink string
  | Release string int

text \<open>The table of operations; of the results the return value.\<close>

fun limitfs_oper :: "'fs os \<Rightarrow> nat \<Rightarrow> fuse_req \<Rightarrow> 'fs limitfs \<Rightarrow> (int \<times> 'fs limitfs) option" where
  "limitfs_oper os d (Getattr path) st = (let (r, _, st) = limitfs_getattr os path st in Some (r, st))"
| "limitfs_oper os d (Access path msk) st = Some (limitfs_access os path msk st)"
| "limitfs_oper os d (Readdir path room) st = (let (r, _) = limitfs_readdir os path room st in Some (r, st))"
| "limitfs_oper os d (Mknod path kind mode rdev) st = Some (limitfs_mknod os path kind mode rdev st)"
| "limitfs_oper os d (Open path flags) st = (let (r, _, st) = limitfs_open os path flags st in Some (r, st))"
| "limitfs_oper os d (Read path n off fh) st = (let (r, _, st) = limitfs_read os path n off fh st in Some (r, st))"
| "limitfs_oper os d (Write path buf off fh) st = Some (limitfs_write os path buf off fh st)"
| "limitfs_oper os d (Mkdir path mode) st = Some (limitfs_mkdir os path mode st)"
| "limitfs_oper os d (Chmod path mode) st = Some (limitfs_chmod os path mode st)"
| "limitfs_oper os d (Truncate path len) st = limitfs_truncate os d path len st"
| "limitfs_oper os d (Chown path uid gid) st = Some (limitfs_chown os path uid gid st)"
| "limitfs_oper os d (Rename from_path to_path) st = Some (limitfs_rename os from_path to_path st)"
| "limitfs_oper os d (Rmdir path) st = limitfs_rmdir os d path st"
| "limitfs_oper os d (Unlink path) st = limitfs_unlink os d path st"
| "limitfs_oper os d (Release path fh) st = Some (limitfs_release os fh st)"

text \<open>
  Calls that do not change the number of stored bytes; \<open>taken p\<close> says that there is a file at \<open>p\<close>. A
  created file is empty, and a renamed file replaces none, if the name was not taken.
\<close>

fun quiet :: "(string \<Rightarrow> bool) \<Rightarrow> os_call \<Rightarrow> bool" where
  "quiet taken (Sys_creat p _) \<longleftrightarrow> \<not> taken p"
| "quiet taken (Sys_rename _ p) \<longleftrightarrow> \<not> taken p"
| "quiet taken (Sys_pwrite _ _ _) \<longleftrightarrow> False"
| "quiet taken (Sys_truncate _ _) \<longleftrightarrow> False"
| "quiet taken (Sys_unlink _) \<longleftrightarrow> False"
| "quiet taken (Sys_rmdir _) \<longleftrightarrow> False"
| "quiet taken _ \<longleftrightarrow> True"

text \<open>
  What the kernel guarantees of the requests it passes to FUSE: a write comes with the descriptor that the open of
  its file has returned, and a new node has a new name. For the counter to stay exact, a rename must not
  replace a file.
\<close>

fun served :: "('fs \<Rightarrow> string \<Rightarrow> bool) \<Rightarrow> ('fs \<Rightarrow> int \<Rightarrow> string \<Rightarrow> bool) \<Rightarrow> fuse_req \<Rightarrow> 'fs limitfs \<Rightarrow> bool" where
  "served taken owner (Write path buf off fh) st \<longleftrightarrow> special path \<or> owner (fs st) fh (join (src st) path)"
| "served taken owner (Mknod path kind mode rdev) st \<longleftrightarrow> special path \<or> \<not> taken (fs st) (join (src st) path)"
| "served taken owner (Rename a b) st \<longleftrightarrow> special b \<or> \<not> taken (fs st) (join (src st) b)"
| "served taken owner _ st \<longleftrightarrow> True"

fun all_served :: "('fs \<Rightarrow> string \<Rightarrow> bool) \<Rightarrow> ('fs \<Rightarrow> int \<Rightarrow> string \<Rightarrow> bool) \<Rightarrow> 'fs os \<Rightarrow> nat \<Rightarrow> fuse_req list \<Rightarrow> 'fs limitfs \<Rightarrow> bool" where
  "all_served taken owner os d [] st \<longleftrightarrow> True"
| "all_served taken owner os d (q # qs) st \<longleftrightarrow> served taken owner q st \<and>
    (case limitfs_oper os d q st of None \<Rightarrow> True | Some (r, st) \<Rightarrow> all_served taken owner os d qs st)"

section \<open>What the file system underneath provides\<close>

text \<open>
  \<open>stored\<close> is the number of bytes in all files, which fits the counter in all \<open>good\<close> states; \<open>owner s fh p\<close> says that
  \<open>fh\<close> is a descriptor for the file at \<open>p\<close>. The walk over the source directory counts each file once
  (theory \<open>Limitfs\<close> says on which directories it does).
\<close>

locale backing_store =
  fixes os :: "'fs os" and d :: nat and root :: string and stored :: "'fs \<Rightarrow> nat" and good :: "'fs \<Rightarrow> bool"
    and taken :: "'fs \<Rightarrow> string \<Rightarrow> bool" and owner :: "'fs \<Rightarrow> int \<Rightarrow> string \<Rightarrow> bool"
  assumes fits: "good s \<Longrightarrow> stored s < 2 ^ 32"
    and quiet_keeps: "good s \<Longrightarrow> quiet (taken s) c \<Longrightarrow> good (snd (os_sys os c s)) \<and> stored (snd (os_sys os c s)) = stored s"
    and others_good: "good s \<Longrightarrow> good (snd (os_sys os c s))"
    and close_stat: "good s \<Longrightarrow> os_stat os (snd (os_sys os (Sys_close fh) s)) p = os_stat os s p"
    and owned_file: "good s \<Longrightarrow> owner s fh p \<Longrightarrow> \<exists>n. os_stat os s p = Some (False, n) \<and> unat n \<le> stored s"
    and pwrite_file: "good s \<Longrightarrow> owner s fh p \<Longrightarrow> os_stat os s p = Some (False, o1) \<Longrightarrow>
      \<exists>n1. os_stat os (snd (os_sys os (Sys_pwrite fh buf off) s)) p = Some (False, n1) \<and>
        stored (snd (os_sys os (Sys_pwrite fh buf off) s)) + unat o1 = stored s + unat n1"
    and walk: "good s \<Longrightarrow> get_dir_size os s d root = Some (0, of_nat (stored s))"
begin

definition exact :: "'fs limitfs \<Rightarrow> bool" where
  "exact st \<longleftrightarrow> good (fs st) \<and> src st = root \<and> in_step stored st"

lemma pass_quiet:
  assumes "exact st" and "quiet (taken (fs st)) c"
  shows "exact (snd (pass os c st))"
  using quiet_keeps [of "fs st" c] assms by (simp add: exact_def in_step_def pass_def case_prod_beta)

lemma pass_exact: "pass os c st = (r, x) \<Longrightarrow> exact st \<Longrightarrow> quiet (taken (fs st)) c \<Longrightarrow> exact x"
  using pass_quiet [of st c] by simp

lemma recount_exact:
  assumes "good (fs st)" and "src st = root"
  shows "\<exists>st'. recount os d st = Some st' \<and> exact st'"
proof -
  have "unat (of_nat (stored (fs st)) :: u32) = stored (fs st)" using fits [OF assms(1)] by (simp add: unat_of_nat32)
  then show ?thesis using walk [OF assms(1)] assms by (simp add: recount_def exact_def in_step_def)
qed

lemma then_recount_exact:
  assumes "exact st"
  shows "\<exists>r st'. then_recount os d c st = Some (r, st') \<and> exact st'"
proof -
  have "good (fs (snd (pass os c st)))" "src (snd (pass os c st)) = root"
    using assms others_good [of "fs st" c] by (simp_all add: exact_def pass_def case_prod_beta)
  from recount_exact [OF this] show ?thesis by (auto simp: then_recount_def case_prod_beta)
qed

lemma write_exact:
  assumes "exact st" and "special path \<or> owner (fs st) fh (join (src st) path)"
  shows "exact (snd (limitfs_write os path buf off fh st))"
proof (cases "special path \<or> max_size st < cur_size st")
  case True
  with assms(1) pass_quiet [of st "Sys_close fh"] show ?thesis by (auto simp: limitfs_write_def)
next
  case False
  let ?p = "join (src st) path"
  have g: "good (fs st)" and own: "owner (fs st) fh ?p" using assms False by (simp_all add: exact_def)
  obtain o1 where o1: "os_stat os (fs st) ?p = Some (False, o1)" "unat o1 \<le> stored (fs st)"
    using owned_file [OF g own] by blast
  obtain res s1 where w: "os_sys os (Sys_pwrite fh buf off) (fs st) = (res, s1)" by fastforce
  obtain n1 where n: "os_stat os s1 ?p = Some (False, n1)" "stored s1 + unat o1 = stored (fs st) + unat n1"
    using pwrite_file [OF g own o1(1), of buf off] w by auto
  have g1: "good s1" using others_good [OF g, of "Sys_pwrite fh buf off"] w by simp
  define s2 where "s2 = (if res < 0 then snd (os_sys os (Sys_close fh) s1) else s1)"
  have s2: "stored s2 = stored s1" "os_stat os s2 ?p = Some (False, n1)" "good s2"
    using quiet_keeps [OF g1, of "Sys_close fh"] close_stat [OF g1] n(1) g1 by (simp_all add: s2_def)
  have "snd (limitfs_write os path buf off fh st) =
      st\<lparr>fs := s2, cur_size := (if ucast o1 \<le> cur_size st then cur_size st - ucast o1 + ucast n1 else ucast n1)\<rparr>"
    using False o1(1) w s2(2)
    by (auto simp: limitfs_write_def pass_def get_file_size_def Let_def s2_def split: prod.splits)
  moreover have "unat (if ucast o1 \<le> cur_size st then cur_size st - ucast o1 + ucast n1 else (ucast n1 :: u32)) = stored s2"
    using recounted [of "cur_size st" "stored (fs st)" o1 "stored s1" n1] assms(1) o1(2) n(2) fits [OF g] fits [OF g1] s2(1)
    by (simp add: exact_def in_step_def)
  ultimately show ?thesis using s2(3) assms(1) by (simp add: exact_def in_step_def)
qed

lemma mknod_exact:
  assumes "exact st" and "special path \<or> \<not> taken (fs st) (join (src st) path)"
  shows "exact (snd (limitfs_mknod os path kind mode rdev st))"
proof (cases "special path \<or> max_size st < cur_size st")
  case False
  then have t: "\<not> taken (fs st) (join (src st) path)" using assms(2) by simp
  obtain r st1 where c: "pass os (Sys_creat (join (src st) path) mode) st = (r, st1)" by fastforce
  have "exact st1" using pass_quiet [OF assms(1), of "Sys_creat (join (src st) path) mode"] t c by simp
  then have "exact (snd (pass os (Sys_close r) st1))" by (intro pass_quiet) simp_all
  with \<open>exact st1\<close> c False assms(1) show ?thesis
    by (cases kind) (auto simp: limitfs_mknod_def Let_def split: prod.splits if_splits intro: pass_exact)
qed (use assms in \<open>auto simp: limitfs_mknod_def\<close>)

lemma oper_exact:
  assumes "exact st" and "served taken owner q st"
  shows "\<exists>r st'. limitfs_oper os d q st = Some (r, st') \<and> exact st'"
proof (cases q)
  case (Mknod path kind mode rdev)
  then show ?thesis using mknod_exact [OF assms(1), of path kind mode rdev] assms(2)
    by (cases "limitfs_mknod os path kind mode rdev st") simp
next
  case (Write path buf off fh)
  then show ?thesis using write_exact [OF assms(1), of path fh buf off] assms(2)
    by (cases "limitfs_write os path buf off fh st") simp
next
  case (Truncate path len)
  then show ?thesis using then_recount_exact [OF assms(1)] assms(1) by (simp add: limitfs_truncate_def)
next
  case (Rmdir path)
  then show ?thesis using then_recount_exact [OF assms(1)] assms(1) by (simp add: limitfs_rmdir_def)
next
  case (Unlink path)
  then show ?thesis using then_recount_exact [OF assms(1)] assms(1) by (simp add: limitfs_unlink_def)
next
  case (Rename a b)
  then show ?thesis using pass_quiet [OF assms(1), of "Sys_rename (join (src st) a) (join (src st) b)"] assms
    by (auto simp: limitfs_rename_def split: prod.splits)
next
  case (Read path n off fh)
  then show ?thesis using pass_quiet [OF assms(1), of "Sys_close fh"] assms(1)
    by (auto simp: limitfs_read_def Let_def split: sum.splits)
qed (use assms(1) in \<open>auto simp: limitfs_getattr_def limitfs_access_def limitfs_readdir_def
    limitfs_open_def limitfs_mkdir_def limitfs_chmod_def limitfs_chown_def limitfs_release_def Let_def
    split: prod.splits sum.splits intro: pass_exact\<close>)

lemma opers_exact:
  "exact st \<Longrightarrow> all_served taken owner os d qs st \<Longrightarrow> \<exists>rs st'. serially (limitfs_oper os d) qs st = Some (rs, st') \<and> exact st'"
proof (induction qs arbitrary: st)
  case (Cons q qs)
  then obtain r x where "limitfs_oper os d q st = Some (r, x)" "exact x" using oper_exact [of st q] by auto
  with Cons show ?case by fastforce
qed simp

text \<open>From the start of the program on.\<close>

lemma main_exact:
  assumes "good s" and "limitfs_args argv None 0 [] = Some (Some root, mx, fuse)" and "mx \<noteq> 0"
  shows "\<exists>st. limitfs_main os d argv s = Some (Inr (st, fuse)) \<and> exact st \<and> max_size st = mx"
proof -
  have "unat (of_nat (stored s) :: u32) = stored s" using fits [OF assms(1)] by (simp add: unat_of_nat32)
  then show ?thesis using walk [OF assms(1)] assms by (simp add: limitfs_main_def exact_def in_step_def)
qed

end

section \<open>A directory of files\<close>

text \<open>
  A source directory \<^verbatim>\<open>s\<close> without subdirectories, on a disk of a thousand bytes: the names with their sizes, and the open
  descriptors with the names they were opened by.
\<close>

record flat =
  entries :: "(string \<times> nat) list"
  fds :: "(int \<times> string) list"

abbreviation (input) CAP :: nat where "CAP \<equiv> 1000"

definition bytes_in :: "(string \<times> nat) list \<Rightarrow> nat" where
  "bytes_in es = sum_list (map snd es)"

definition set_size :: "string \<Rightarrow> nat \<Rightarrow> (string \<times> nat) list \<Rightarrow> (string \<times> nat) list" where
  "set_size n k es = map (\<lambda>(m, j). if m = n then (m, k) else (m, j)) es"

definition delete_name :: "string \<Rightarrow> (string \<times> nat) list \<Rightarrow> (string \<times> nat) list" where
  "delete_name n es = filter (\<lambda>(m, _). m \<noteq> n) es"

definition name_ok :: "string \<Rightarrow> bool" where
  "name_ok n \<longleftrightarrow> n \<noteq> [] \<and> hd n \<noteq> CHR ''/'' \<and> length n < 1000 \<and> n \<noteq> ''.'' \<and> n \<noteq> ''..''"

definition name_of :: "string \<Rightarrow> string option" where
  "name_of p = (if take 3 p = ''s//'' then Some (drop 3 p) else if take 2 p = ''s/'' then Some (drop 2 p) else None)"

definition size_at :: "flat \<Rightarrow> string \<Rightarrow> nat option" where
  "size_at s p = Option.bind (name_of p) (map_of (entries s))"

definition next_fd :: "flat \<Rightarrow> int" where
  "next_fd s = 1 + foldr max (map fst (fds s)) 2"

definition flat_resize :: "string \<Rightarrow> nat \<Rightarrow> int \<Rightarrow> flat \<Rightarrow> int \<times> flat" where
  "flat_resize n k r s =
     (let es = set_size n k (entries s) in if bytes_in es \<le> CAP then (r, s\<lparr>entries := es\<rparr>) else (- 28, s))"

definition flat_sys :: "os_call \<Rightarrow> flat \<Rightarrow> int \<times> flat" where
  "flat_sys c s = (case c of
     Sys_pwrite fh buf off \<Rightarrow>
       (case map_of (fds s) fh of
          None \<Rightarrow> (- 9, s)
        | Some n \<Rightarrow> flat_resize n (max (the (map_of (entries s) n)) (unat off + length buf)) (int (length buf)) s)
   | Sys_truncate p len \<Rightarrow> (if size_at s p = None then (- 2, s) else flat_resize (the (name_of p)) (unat len) 0 s)
   | Sys_creat p _ \<Rightarrow>
       (case name_of p of
          None \<Rightarrow> (- 2, s)
        | Some n \<Rightarrow> if \<not> name_ok n then (- 36, s)
            else (next_fd s, s\<lparr>entries := (n, 0) # delete_name n (entries s), fds := (next_fd s, n) # fds s\<rparr>))
   | Sys_open p _ \<Rightarrow>
       (if size_at s p = None then (- 2, s) else (next_fd s, s\<lparr>fds := (next_fd s, the (name_of p)) # fds s\<rparr>))
   | Sys_unlink p \<Rightarrow>
       (case name_of p of
          None \<Rightarrow> (- 2, s)
        | Some n \<Rightarrow> (if size_at s p = None then - 2 else 0,
            s\<lparr>entries := delete_name n (entries s), fds := filter (\<lambda>(_, m). m \<noteq> n) (fds s)\<rparr>))
   | Sys_rename a b \<Rightarrow>
       (case (name_of a, name_of b) of
          (Some m, Some n) \<Rightarrow>
            (case map_of (entries s) m of
               None \<Rightarrow> (- 2, s)
             | Some k \<Rightarrow> if \<not> name_ok n then (- 36, s) else if m = n then (0, s)
                 else (0, s\<lparr>entries := (n, k) # delete_name m (delete_name n (entries s)),
                            fds := map (\<lambda>(fh, x). (fh, if x = m then n else x)) (fds s)\<rparr>))
        | _ \<Rightarrow> (- 2, s))
   | Sys_close fh \<Rightarrow> (0, s\<lparr>fds := filter (\<lambda>(x, _). x \<noteq> fh) (fds s)\<rparr>)
   | Sys_lstat p \<Rightarrow> (if size_at s p = None then - 2 else 0, s)
   | Sys_access p _ \<Rightarrow> (if size_at s p = None then - 2 else 0, s)
   | Sys_chmod p _ \<Rightarrow> (if size_at s p = None then - 2 else 0, s)
   | Sys_lchown p _ _ \<Rightarrow> (if size_at s p = None then - 2 else 0, s)
   | _ \<Rightarrow> (- 1, s))"

definition flat_os :: "flat os" where
  "flat_os = \<lparr>
     os_stat = (\<lambda>s p. if p = ''s'' then Some (True, 0) else map_option (\<lambda>k. (False, of_nat k)) (size_at s p)),
     os_readdir = (\<lambda>s p. if p = ''s'' then Inr (map fst (entries s)) else Inl 2),
     os_pread = (\<lambda>s fh n off. Inl 5),
     os_sys = flat_sys\<rparr>"

definition flat_good :: "flat \<Rightarrow> bool" where
  "flat_good s \<longleftrightarrow> distinct (map fst (entries s)) \<and> list_all name_ok (map fst (entries s)) \<and> bytes_in (entries s) \<le> CAP \<and>
     snd ` set (fds s) \<subseteq> fst ` set (entries s)"

definition flat_taken :: "flat \<Rightarrow> string \<Rightarrow> bool" where
  "flat_taken s p \<longleftrightarrow> size_at s p \<noteq> None"

definition flat_owner :: "flat \<Rightarrow> int \<Rightarrow> string \<Rightarrow> bool" where
  "flat_owner s fh p \<longleftrightarrow> map_of (fds s) fh \<noteq> None \<and> map_of (fds s) fh = name_of p"

text \<open>The bytes of a directory after one entry has changed.\<close>

lemma bytes_in_simps [simp]: "bytes_in [] = 0" "bytes_in ((n, k) # es) = k + bytes_in es"
  by (simp_all add: bytes_in_def)

lemma fst_set_size [simp]: "map fst (set_size n k es) = map fst es"
  by (simp add: set_size_def case_prod_beta)

lemma fst_set_size_set [simp]: "fst ` set (set_size n k es) = fst ` set es"
  by (metis fst_set_size set_map)

lemma set_size_absent: "n \<notin> fst ` set es \<Longrightarrow> set_size n k es = es"
  by (induction es) (auto simp: set_size_def)

lemma map_of_set_size: "map_of (set_size n k es) m = (if m = n then map_option (\<lambda>_. k) (map_of es n) else map_of es m)"
  by (induction es) (auto simp: set_size_def)

lemma bytes_set_size:
  "distinct (map fst es) \<Longrightarrow> map_of es n = Some j \<Longrightarrow> bytes_in (set_size n k es) + j = bytes_in es + k"
proof (induction es)
  case (Cons e es)
  show ?case
  proof (cases "fst e = n")
    case True
    with Cons.prems have "set_size n k es = es" by (intro set_size_absent) (auto simp: rev_image_eqI)
    with True Cons.prems show ?thesis by (cases e) (simp add: set_size_def)
  next
    case False
    with Cons show ?thesis by (cases e) (simp add: set_size_def)
  qed
qed simp

lemma delete_absent: "n \<notin> fst ` set es \<Longrightarrow> delete_name n es = es"
  by (induction es) (auto simp: delete_name_def)

lemma delete_fst [simp]: "fst ` set (delete_name n es) = fst ` set es - {n}"
  by (force simp: delete_name_def)

lemma delete_distinct: "distinct (map fst es) \<Longrightarrow> distinct (map fst (delete_name n es))"
  by (induction es) (auto simp: delete_name_def)

lemma bytes_delete:
  "distinct (map fst es) \<Longrightarrow> map_of es n = Some j \<Longrightarrow> bytes_in (delete_name n es) + j = bytes_in es"
proof (induction es)
  case (Cons e es)
  show ?case
  proof (cases "fst e = n")
    case True
    with Cons.prems have "delete_name n es = es" by (intro delete_absent) (auto simp: rev_image_eqI)
    with True Cons.prems show ?thesis by (cases e) (simp add: delete_name_def)
  next
    case False
    with Cons show ?thesis by (cases e) (simp add: delete_name_def)
  qed
qed simp

lemma bytes_delete_le: "bytes_in (delete_name n es) \<le> bytes_in es"
  by (induction es) (auto simp: delete_name_def)

lemma bytes_member: "map_of es n = Some k \<Longrightarrow> k \<le> bytes_in es"
  by (induction es) (auto split: if_splits)

lemma name_of_join: "name_ok n \<Longrightarrow> name_of (join ''s'' n) = Some n"
  by (cases n) (auto simp: name_ok_def name_of_def join_def)

lemma flat_resize_good:
  "flat_good s \<Longrightarrow> flat_good (snd (flat_resize n k r s))"
  by (auto simp: flat_good_def flat_resize_def Let_def)

lemma flat_good_alt:
  "flat_good s \<longleftrightarrow> distinct (map fst (entries s)) \<and> (\<forall>n \<in> fst ` set (entries s). name_ok n) \<and> bytes_in (entries s) \<le> CAP \<and>
     snd ` set (fds s) \<subseteq> fst ` set (entries s)"
  by (simp add: flat_good_def list_all_iff)

lemma good_creat:
  assumes "flat_good s" and "name_ok n"
  shows "flat_good (s\<lparr>entries := (n, 0) # delete_name n (entries s), fds := (f, n) # fds s\<rparr>)"
  using assms bytes_delete_le [of n "entries s"] delete_distinct [of "entries s" n]
  unfolding flat_good_alt by auto

lemma good_unlink:
  assumes "flat_good s"
  shows "flat_good (s\<lparr>entries := delete_name n (entries s), fds := filter (\<lambda>(_, m). m \<noteq> n) (fds s)\<rparr>)"
  using assms bytes_delete_le [of n "entries s"] delete_distinct [of "entries s" n]
  unfolding flat_good_alt by auto

lemma map_of_delete: "m \<noteq> n \<Longrightarrow> map_of (delete_name n es) m = map_of es m"
  by (induction es) (auto simp: delete_name_def)

lemma bytes_renamed:
  assumes "distinct (map fst es)" and "map_of es m = Some k" and "m \<noteq> n"
  shows "bytes_in ((n, k) # delete_name m (delete_name n es)) = bytes_in (delete_name n es)"
  using bytes_delete [OF delete_distinct [OF assms(1)], of n m k] assms by (simp add: map_of_delete)

lemma good_rename:
  assumes "flat_good s" and "map_of (entries s) m = Some k" and "name_ok n" and "m \<noteq> n"
  shows "flat_good (s\<lparr>entries := (n, k) # delete_name m (delete_name n (entries s)),
    fds := map (\<lambda>(fh, x). (fh, if x = m then n else x)) (fds s)\<rparr>)"
proof -
  have "bytes_in ((n, k) # delete_name m (delete_name n (entries s))) \<le> CAP"
    using bytes_renamed [OF _ assms(2,4)] bytes_delete_le [of n "entries s"] assms(1) by (simp add: flat_good_alt)
  moreover have "distinct (map fst ((n, k) # delete_name m (delete_name n (entries s))))"
    using assms(1) by (simp add: flat_good_alt delete_distinct)
  moreover have "x \<in> fst ` set (entries s)" if "(fh, x) \<in> set (fds s)" for fh x
    using assms(1) that by (force simp: flat_good_alt)
  ultimately show ?thesis using assms(1,3,4) unfolding flat_good_alt by (auto split: if_splits)
qed

lemma flat_sys_good:
  assumes "flat_good s"
  shows "flat_good (snd (flat_sys c s))"
proof (cases c)
  case (Sys_creat p mode)
  with assms good_creat show ?thesis by (auto simp: flat_sys_def split: option.splits)
next
  case (Sys_unlink p)
  with assms good_unlink show ?thesis by (auto simp: flat_sys_def split: option.splits)
next
  case (Sys_rename a b)
  with assms good_rename show ?thesis by (auto simp: flat_sys_def split: option.splits)
next
  case (Sys_close fh)
  with assms show ?thesis by (auto simp: flat_sys_def flat_good_alt)
next
  case (Sys_open p fl)
  with assms show ?thesis
    by (auto simp: flat_sys_def flat_good_alt size_at_def split: option.splits Option.bind_splits dest: map_of_SomeD
        intro: rev_image_eqI)
qed (use assms flat_resize_good in \<open>auto simp: flat_sys_def split: option.splits\<close>)

lemma size_at_bytes: "size_at s p = Some k \<Longrightarrow> k \<le> bytes_in (entries s)"
  by (auto simp: size_at_def bytes_member split: Option.bind_splits)

lemma flat_quiet:
  assumes "flat_good s" and "quiet (flat_taken s) c"
  shows "bytes_in (entries (snd (flat_sys c s))) = bytes_in (entries s)"
proof (cases c)
  case (Sys_creat p mode)
  have "delete_name n (entries s) = entries s" if "name_of p = Some n" for n
    using assms(2) Sys_creat that by (intro delete_absent) (auto simp: flat_taken_def size_at_def map_of_eq_None_iff)
  with Sys_creat show ?thesis by (auto simp: flat_sys_def split: option.splits)
next
  case (Sys_rename a b)
  have "delete_name n (entries s) = entries s" if "name_of b = Some n" for n
    using assms(2) Sys_rename that by (intro delete_absent) (auto simp: flat_taken_def size_at_def map_of_eq_None_iff)
  moreover have "k + bytes_in (delete_name m (entries s)) = bytes_in (entries s)" if "map_of (entries s) m = Some k" for m k
    using bytes_delete [OF _ that] assms(1) by (simp add: flat_good_alt)
  ultimately show ?thesis using Sys_rename by (auto simp: flat_sys_def simp del: map_of_eq_Some_iff split: option.splits)
qed (use assms in \<open>auto simp: flat_sys_def split: option.splits\<close>)

lemma u64_small: "k \<le> CAP \<Longrightarrow> unat (of_nat k :: u64) = k"
  by (rule unat_of_nat64) simp

lemma flat_walk:
  assumes "flat_good s"
  shows "get_dir_size flat_os s 1 ''s'' = Some (0, of_nat (bytes_in (entries s)))"
proof -
  let ?es = "map (\<lambda>(n, k). (n, File (of_nat k))) (entries s)"
  have ok: "name_ok n" "size_at s (join ''s'' n) = Some k" if "(n, k) \<in> set (entries s)" for n k
  proof -
    show "name_ok n" using assms that by (auto simp: flat_good_alt)
    then show "size_at s (join ''s'' n) = Some k"
      using assms that by (simp add: size_at_def name_of_join flat_good_alt)
  qed
  have len: "length (join ''s'' n) < 1024" "join ''s'' n \<noteq> ''s''" if "name_ok n" for n
    using that by (auto simp: name_ok_def join_def)
  have names: "filter (\<lambda>n. n \<noteq> ''.'' \<and> n \<noteq> ''..'') (map fst (entries s)) = map fst (entries s)"
    using ok(1) by (intro filter_True) (auto simp: name_ok_def)
  have "shows_tree flat_os s ''s'' (Dir ?es)"
    using ok len names by (auto simp: flat_os_def comp_def case_prod_beta)
  moreover have files: "insert 0 (set (map (\<lambda>(n, t). depth t) ?es)) = {0}" by auto
  have "depth (Dir ?es) \<le> 1" unfolding depth.simps files by simp
  ultimately have "get_dir_size flat_os s 1 ''s'' = Some (0, of_nat (walked ?es 0))"
    using dir_size_walked [of flat_os s "''s''" "Dir ?es" ?es 1 0] by (simp add: get_dir_size_def)
  moreover have "walked (map (\<lambda>(n, k). (n, File (of_nat k))) es) c = bytes_in es" if "bytes_in es \<le> CAP" for es c
    using that by (induction es arbitrary: c) (auto simp: u64_small)
  ultimately show ?thesis using assms by (simp add: flat_good_alt)
qed

interpretation flat: backing_store flat_os 1 "''s''" "\<lambda>s. bytes_in (entries s)" flat_good flat_taken flat_owner
proof (unfold_locales, goal_cases)
  case (1 s)
  then show ?case by (simp add: flat_good_alt)
next
  case (2 s c)
  then show ?case using flat_sys_good flat_quiet by (simp add: flat_os_def)
next
  case (3 s c)
  then show ?case using flat_sys_good by (simp add: flat_os_def)
next
  case (4 s fh p)
  then show ?case by (simp add: flat_os_def flat_sys_def size_at_def)
next
  case (5 s fh p)
  then obtain n where n: "map_of (fds s) fh = Some n" "name_of p = Some n" by (cases "name_of p") (auto simp: flat_owner_def)
  then have "n \<in> fst ` set (entries s)" using 5(1) map_of_SomeD [OF n(1)] by (force simp: flat_good_alt)
  then obtain k where k: "map_of (entries s) n = Some k" using map_of_eq_None_iff [of "entries s" n] by fastforce
  have "p \<noteq> ''s''" using n(2) by (auto simp: name_of_def)
  moreover have "k \<le> CAP" "k \<le> bytes_in (entries s)" using bytes_member [OF k] 5(1) by (simp_all add: flat_good_alt)
  ultimately show ?case using n k by (simp add: flat_os_def size_at_def u64_small)
next
  case (6 s fh p o1 buf off)
  then obtain n where n: "map_of (fds s) fh = Some n" "name_of p = Some n" by (cases "name_of p") (auto simp: flat_owner_def)
  have ps: "p \<noteq> ''s''" using n(2) by (auto simp: name_of_def)
  obtain j where j: "map_of (entries s) n = Some j" "o1 = of_nat j"
    using 6(3) n ps by (auto simp: flat_os_def size_at_def simp del: map_of_eq_Some_iff)
  have "j \<le> CAP" using bytes_member [OF j(1)] 6(1) by (simp add: flat_good_alt)
  let ?k = "max j (unat off + length buf)"
  let ?es = "set_size n ?k (entries s)"
  have d: "distinct (map fst (entries s))" using 6(1) by (simp add: flat_good_alt)
  note b = bytes_set_size [OF d j(1), of ?k]
  have m: "map_of ?es n = Some ?k" using j(1) by (simp add: map_of_set_size)
  have "?k \<le> CAP" if "bytes_in ?es \<le> CAP" using bytes_member [OF m] that by simp
  with n j b m ps \<open>j \<le> CAP\<close> show ?case
    by (cases "bytes_in ?es \<le> CAP") (simp_all add: flat_os_def flat_sys_def flat_resize_def size_at_def u64_small Let_def
        del: map_of_eq_Some_iff)
next
  case (7 s)
  then show ?case by (rule flat_walk)
qed

section \<open>The counter\<close>


text \<open>A file is created and written, another one is cut, and the first one is removed again.\<close>

definition flat0 :: flat where
  "flat0 = \<lparr>entries = [(''a'', 10)], fds = []\<rparr>"

definition some_requests :: "fuse_req list" where
  "some_requests = [Mknod ''/b'' S_REG 0 0, Open ''/b'' 1, Write ''/b'' [1, 2, 3] 4 3, Truncate ''/a'' 2, Release ''/b'' 3, Unlink ''/b'']"

abbreviation (input) mount_args :: "string list" where "mount_args \<equiv> [''--src'', ''s'', ''--size'', ''100'']"

lemma mounted:
  "limitfs_args mount_args None 0 [] = Some (Some ''s'', 100, [])"
  "limitfs_main flat_os 1 mount_args flat0 = Some (Inr (\<lparr>src = ''s'', max_size = 100, cur_size = 10, fs = flat0\<rparr>, []))"
  "all_served flat_taken flat_owner flat_os 1 some_requests \<lparr>src = ''s'', max_size = 100, cur_size = 10, fs = flat0\<rparr>"
  by code_simp+


text \<open>
  A rename that replaces a file is not counted: ten bytes are gone and the counter still has them. Enough of these and the
  limit refuses writes to an empty directory.
\<close>

theorem limitfs_rename_overcounts:
  "\<exists>rs st'. serially (limitfs_oper flat_os 1) [Mknod ''/b'' S_REG 0 0, Rename ''/b'' ''/a'']
      \<lparr>src = ''s'', max_size = 100, cur_size = 10, fs = flat0\<rparr> = Some (rs, st') \<and> list_all (\<lambda>r. r = 0) rs \<and>
    bytes_in (entries (fs st')) = 0 \<and> cur_size st' = 10"
proof -
  have "map_option (\<lambda>(rs, st'). (list_all (\<lambda>r. r = 0) rs, bytes_in (entries (fs st')), cur_size st'))
      (serially (limitfs_oper flat_os 1) [Mknod ''/b'' S_REG 0 0, Rename ''/b'' ''/a'']
        \<lparr>src = ''s'', max_size = 100, cur_size = 10, fs = flat0\<rparr>) = Some (True, 0, 10)"
    by code_simp
  then show ?thesis by auto
qed

end
