(* ===== verification/Memutil.thy ===== *)
theory Memutil
  imports User_Io C_Strings
begin

unbundle bit_operations_syntax

text \<open>
  The memory tool, \<^verbatim>\<open>src/test_suite/memutil\<close>, which saves a region of the physical memory to a file or
  loads a file into it: the command line (\<^verbatim>\<open>work_paras.c\<close>), the mapping of the region and the transfers
  (\<^verbatim>\<open>mem_ops.c\<close>), and the main program (\<^verbatim>\<open>mem_util.c\<close>).
\<close>

section \<open>The working parameters\<close>

record working_params =
  verbose :: bool
  start_phy_addr :: u64
  wp_length :: u64
  save_to_file :: bool
  load_from_file :: bool
  file_path :: "string option"
  vaddr_base :: u32
  map_length :: u64
  vaddr :: u32

definition working_params0 :: working_params where
  "working_params0 = \<lparr>verbose = False, start_phy_addr = 0, wp_length = 0, save_to_file = False,
     load_from_file = False, file_path = None, vaddr_base = 0, map_length = 0, vaddr = 0\<rparr>"

section \<open>The command line\<close>

text \<open>An option as \<^verbatim>\<open>getopt_long\<close> returns it; \<open>Opt_other\<close> is the help option and everything unknown.\<close>

datatype mopt =
    Opt_verbose | Opt_start_phy_addr string | Opt_length string
  | Opt_save | Opt_load | Opt_file string | Opt_other

definition has_verbose_opt :: "string list \<Rightarrow> bool" where
  "has_verbose_opt argv \<longleftrightarrow> ''--verbose'' \<in> set (drop 1 argv)"

definition check_paras :: "working_params \<Rightarrow> int" where
  "check_paras w =
     (if wp_length w = 0 then - 1
      else if \<not> save_to_file w \<and> \<not> load_from_file w then - 1
      else if save_to_file w \<and> load_from_file w then - 1
      else if file_path w = None then - 1
      else 0)"

fun parse_mopts :: "mopt list \<Rightarrow> working_params \<Rightarrow> int \<times> working_params" where
  "parse_mopts [] w = (check_paras w, w)"
| "parse_mopts (Opt_verbose # os) w = parse_mopts os (w\<lparr>verbose := True\<rparr>)"
| "parse_mopts (Opt_start_phy_addr v # os) w = parse_mopts os (w\<lparr>start_phy_addr := fst (strtoull 0 v)\<rparr>)"
| "parse_mopts (Opt_length v # os) w = parse_mopts os (w\<lparr>wp_length := fst (strtoull 0 v)\<rparr>)"
| "parse_mopts (Opt_save # os) w = parse_mopts os (w\<lparr>save_to_file := True\<rparr>)"
| "parse_mopts (Opt_load # os) w = parse_mopts os (w\<lparr>load_from_file := True\<rparr>)"
| "parse_mopts (Opt_file f # os) w = parse_mopts os (w\<lparr>file_path := Some f\<rparr>)"
| "parse_mopts (Opt_other # os) w = (- 1, w)"

definition parse_cmdline_options :: "string list \<Rightarrow> mopt list \<Rightarrow> working_params \<Rightarrow> int \<times> working_params" where
  "parse_cmdline_options argv os w = parse_mopts os (w\<lparr>verbose := has_verbose_opt argv\<rparr>)"

section \<open>Mapping the region\<close>

text \<open>
  What the program sees of the system: whether \<^verbatim>\<open>/dev/mem\<close> and the file can be opened, where \<^verbatim>\<open>mmap64\<close>
  places a mapping of a length at an offset, and the page size.
\<close>

record mem_env =
  page_size :: u64
  open_mem :: bool
  mmap64 :: "u32 \<Rightarrow> u64 \<Rightarrow> u32 option"
  open_file :: bool

text \<open>
  \<^verbatim>\<open>map_memory_fixed\<close>. The length is cast to \<^verbatim>\<open>size_t\<close> and the offset to \<^verbatim>\<open>off_t\<close>, both of 32 bits in this
  build; the offset is sign-extended again by the call of \<^verbatim>\<open>mmap64\<close>.
\<close>

definition to_off_t :: "u64 \<Rightarrow> u64" where
  "to_off_t a = scast (ucast a :: u32)"

definition map_memory_fixed :: "mem_env \<Rightarrow> u64 \<Rightarrow> u64 \<Rightarrow> u32 option" where
  "map_memory_fixed env phy_addr len =
     (if \<not> open_mem env then None else mmap64 env (ucast len) (to_off_t phy_addr))"

definition page_floor :: "u64 \<Rightarrow> u64 \<Rightarrow> u64" where
  "page_floor ps a = a AND NOT (ps - 1)"

definition page_ceil :: "u64 \<Rightarrow> u64 \<Rightarrow> u64" where
  "page_ceil ps n = (n + ps - 1) div ps * ps"

definition map_memory :: "mem_env \<Rightarrow> working_params \<Rightarrow> working_params option" where
  "map_memory env w =
     (let phy = page_floor (page_size env) (start_phy_addr w);
          len = page_ceil (page_size env) (wp_length w + (start_phy_addr w - phy)) in
      case map_memory_fixed env phy len of
        None \<Rightarrow> None
      | Some va \<Rightarrow>
          Some (w\<lparr>vaddr_base := va, map_length := len, vaddr := va + ucast (start_phy_addr w - phy)\<rparr>))"

section \<open>Saving and loading\<close>

text \<open>
  The physical memory is a function from addresses to bytes. A virtual address inside the mapping
  stands for the physical address at the same distance from the start of the mapping.
\<close>

type_synonym phys = "u64 \<Rightarrow> u8"

definition phys_of :: "mem_env \<Rightarrow> working_params \<Rightarrow> u32 \<Rightarrow> u64" where
  "phys_of env w va = to_off_t (page_floor (page_size env) (start_phy_addr w)) + ucast (va - vaddr_base w)"

definition region :: "phys \<Rightarrow> u64 \<Rightarrow> nat \<Rightarrow> u8 list" where
  "region m a n = map (\<lambda>i. m (a + of_nat i)) [0..<n]"

definition store_region :: "phys \<Rightarrow> u64 \<Rightarrow> u8 list \<Rightarrow> phys" where
  "store_region m a bs = (\<lambda>x. if unat (x - a) < length bs then bs ! unat (x - a) else m x)"

text \<open>Whether \<open>n\<close> bytes from the region's start are inside the mapping; beyond it the program is killed.\<close>

definition inside :: "working_params \<Rightarrow> nat \<Rightarrow> bool" where
  "inside w n \<longleftrightarrow> unat (vaddr w - vaddr_base w) + n \<le> unat (ucast (map_length w) :: u32)"

text \<open>
  The result of a transfer: \<open>None\<close> when the program does not come back from it (it is killed or
  waits), otherwise the return value with the contents of the file or the new memory.
\<close>

definition save_mem_region_to_file ::
  "mem_env \<Rightarrow> io_ret list \<Rightarrow> phys \<Rightarrow> working_params \<Rightarrow> (int \<times> u8 list option) option" where
  "save_mem_region_to_file env ws m w =
     (case map_memory env w of
        None \<Rightarrow> Some (- 1, None)
      | Some w \<Rightarrow>
          if \<not> open_file env then Some (- 1, None)
          else
            (let n = unat (ucast (wp_length w) :: u32) in
             if \<not> inside w n then None
             else
               (case safe_write ws (region m (phys_of env w (vaddr w)) n) of
                  None \<Rightarrow> None
                | Some (wr_cnt, out, ws) \<Rightarrow>
                    if wr_cnt < 0 then Some (- 1, Some out)
                    else if wr_cnt \<noteq> int n then Some (- 1, Some out)
                    else Some (0, Some out))))"

definition load_mem_region_from_file ::
  "mem_env \<Rightarrow> read_ret list \<Rightarrow> phys \<Rightarrow> working_params \<Rightarrow> (int \<times> phys) option" where
  "load_mem_region_from_file env rs m w =
     (case map_memory env w of
        None \<Rightarrow> Some (- 1, m)
      | Some w \<Rightarrow>
          if \<not> open_file env then Some (- 1, m)
          else
            (let n = unat (ucast (wp_length w) :: u32) in
             if \<not> inside w n then None
             else
               (case safe_read rs n of
                  None \<Rightarrow> None
                | Some (rd_cnt, bs, rs) \<Rightarrow>
                    (let m = store_region m (phys_of env w (vaddr w)) bs in
                     if rd_cnt < 0 then Some (- 1, m)
                     else if rd_cnt \<noteq> int n then Some (- 1, m)
                     else Some (0, m)))))"

section \<open>The main program\<close>

datatype mem_result = Mem_usage | Mem_saved int "u8 list option" | Mem_loaded int phys

definition mem_util_main ::
  "mem_env \<Rightarrow> io_ret list \<Rightarrow> read_ret list \<Rightarrow> string list \<Rightarrow> mopt list \<Rightarrow> phys \<Rightarrow> mem_result option" where
  "mem_util_main env ws rs argv os m =
     (let (r, w) = parse_cmdline_options argv os working_params0 in
      if r \<noteq> 0 then Some Mem_usage
      else if save_to_file w then
        map_option (\<lambda>(r, f). Mem_saved r f) (save_mem_region_to_file env ws m w)
      else map_option (\<lambda>(r, m). Mem_loaded r m) (load_mem_region_from_file env rs m w))"

section \<open>The page arithmetic\<close>

text \<open>A page size is a power of two, below the largest address.\<close>

definition good_page :: "u64 \<Rightarrow> nat \<Rightarrow> bool" where
  "good_page ps k \<longleftrightarrow> ps = 2 ^ k \<and> k < 31"

lemma page_floor_plus:
  assumes "good_page ps k"
  shows "page_floor ps a + take_bit k a = a"
proof -
  have "ps - 1 = mask k" using assms by (simp add: good_page_def mask_eq_exp_minus_1)
  then have "page_floor ps a = push_bit k (drop_bit k a)"
    by (simp add: page_floor_def) (rule bit_eqI, auto simp: bit_simps)
  then show ?thesis by (simp add: bits_ident)
qed

lemma page_offset:
  assumes "good_page ps k"
  shows "a - page_floor ps a = take_bit k a"
  using page_floor_plus [OF assms, of a] by (metis add_diff_cancel_left')

lemma unat_take_bit_less: "unat (take_bit k (a :: u64)) < 2 ^ k"
  by (simp add: unsigned_take_bit_eq)

lemma page_floor_le:
  assumes "good_page ps k"
  shows "unat (page_floor ps a) + unat (take_bit k a) = unat a" and "2 ^ k dvd unat (page_floor ps a)"
proof -
  have "ps - 1 = mask k" using assms by (simp add: good_page_def mask_eq_exp_minus_1)
  then have pf: "page_floor ps a = push_bit k (drop_bit k a)"
    by (simp add: page_floor_def) (rule bit_eqI, auto simp: bit_simps)
  have "unat (push_bit k (drop_bit k a)) = push_bit k (drop_bit k (unat a))"
  proof -
    have "push_bit k (drop_bit k (unat a)) \<le> unat a" using bits_ident [of k "unat a"] by linarith
    also have "unat a < 2 ^ 64" using unsigned_less [of a, where ?'a = nat] by simp
    finally have "push_bit k (drop_bit k (unat a)) < 2 ^ 64" .
    moreover have "take_bit 64 (unat a) = unat a"
      using unsigned_less [of a, where ?'a = nat] by (simp add: take_bit_nat_eq_self_iff)
    ultimately show ?thesis
      by (simp add: unsigned_push_bit_eq unsigned_drop_bit_eq take_bit_nat_eq_self)
  qed
  then show "unat (page_floor ps a) + unat (take_bit k a) = unat a" "2 ^ k dvd unat (page_floor ps a)"
    using bits_ident [of k "unat a"] by (simp_all add: pf unsigned_take_bit_eq push_bit_eq_mult)
qed

lemma page_ceil_bounds:
  assumes "good_page ps k" and "unat n < 2 ^ 63"
  shows "unat n \<le> unat (page_ceil ps n)" and "unat (page_ceil ps n) < unat n + 2 ^ k" and "2 ^ k dvd unat (page_ceil ps n)"
proof -
  have k2: "(2 :: nat) ^ k \<le> 2 ^ 30"
    using assms(1) by (intro power_increasing) (simp_all add: good_page_def)
  then have "unat (of_nat (2 ^ k) :: u64) = 2 ^ k"
    by (intro unat_of_nat64) simp
  then have k: "unat ps = 2 ^ k" "(2 :: nat) ^ k \<le> 2 ^ 30"
    using assms(1) k2 by (simp_all add: good_page_def)
  let ?q = "(unat n + 2 ^ k - 1) div 2 ^ k"
  have q: "?q * 2 ^ k \<le> unat n + 2 ^ k - 1" by simp
  have q': "?q * 2 ^ k < unat n + 2 ^ k" by (rule le_less_trans [OF q]) simp
  have "unat n + 2 ^ k - 1 < ?q * 2 ^ k + 2 ^ k"
    using mod_less_divisor [of "2 ^ k" "unat n + 2 ^ k - 1"] div_mult_mod_eq [of "unat n + 2 ^ k - 1" "2 ^ k"]
    by (smt (verit) nat_add_left_cancel_less zero_less_numeral zero_less_power)
  then have lo: "unat n \<le> ?q * 2 ^ k" by linarith
  have "unat (n + ps) = unat n + 2 ^ k"
    using k assms(2) by (subst unat_plus64) auto
  then have "unat (n + ps - 1) = unat n + 2 ^ k - 1"
    by (simp add: unat_sub_if' word_le_nat_alt Suc_le_eq add_pos_pos trans_less_add2)
  then have "unat (page_ceil ps n) = ?q * 2 ^ k mod 2 ^ 64"
    by (simp add: page_ceil_def unat_word_ariths unat_div k mod_mult_left_eq)
  also have "\<dots> = ?q * 2 ^ k"
    using q k assms(2) by (intro mod_less le_less_trans [OF q]) simp
  finally show "unat n \<le> unat (page_ceil ps n)" "unat (page_ceil ps n) < unat n + 2 ^ k" "2 ^ k dvd unat (page_ceil ps n)"
    using lo q' by auto
qed

lemma to_off_t_small:
  assumes "unat a < 2 ^ 31" shows "to_off_t a = a"
proof -
  have "take_bit 31 a = a"
    using assms by (simp add: word_unat_eq_iff unsigned_take_bit_eq take_bit_nat_eq_self_iff)
  then have n: "bit a n \<Longrightarrow> n < 31" for n by (metis bit_take_bit_iff)
  then have "\<not> bit a 31" by blast
  with n show ?thesis
    unfolding to_off_t_def by (intro bit_eqI) (auto simp: bit_simps min_def dest: n)
qed


section \<open>What is mapped and transferred\<close>

lemma region_store_region:
  "length bs \<le> 2 ^ 32 \<Longrightarrow> region (store_region m a bs) a (length bs) = bs"
  by (intro nth_equalityI) (simp_all add: region_def store_region_def unat_of_nat)

lemma length_region [simp]: "length (region m a n) = n"
  by (simp add: region_def)

text \<open>The offset of the region in the mapping, and the mapping's length.\<close>

lemma map_memory_window:
  assumes "good_page (page_size env) k" and "unat (wp_length w) \<le> 2 ^ 31" and "map_memory env w = Some w'"
  shows "unat (vaddr w' - vaddr_base w') = unat (take_bit k (start_phy_addr w))"
    and "unat (wp_length w) + unat (take_bit k (start_phy_addr w)) \<le> unat (map_length w')"
    and "unat (map_length w') < 2 ^ 32" and "2 ^ k dvd unat (map_length w')"
    and "wp_length w' = wp_length w" and "start_phy_addr w' = start_phy_addr w"
proof -
  let ?d = "take_bit k (start_phy_addr w)"
  have k2: "(2 :: nat) ^ k \<le> 2 ^ 30"
    using assms(1) by (intro power_increasing) (simp_all add: good_page_def)
  have d: "unat ?d < 2 ^ 30" using unat_take_bit_less [of k "start_phy_addr w"] k2 by linarith
  have n: "unat (wp_length w + ?d) = unat (wp_length w) + unat ?d"
    using assms(2) d by (intro unat_plus64) simp
  have w': "vaddr w' = vaddr_base w' + ucast ?d" "map_length w' = page_ceil (page_size env) (wp_length w + ?d)"
    "wp_length w' = wp_length w" "start_phy_addr w' = start_phy_addr w"
    using assms(3) by (auto simp: map_memory_def Let_def page_offset [OF assms(1)] split: option.splits)
  show "unat (vaddr w' - vaddr_base w') = unat ?d"
    using w'(1) d by (simp add: unat_ucast_down)
  have "unat (wp_length w + ?d) < 2 ^ 63" using n assms(2) d by simp
  note c = page_ceil_bounds [OF assms(1) this]
  show "unat (wp_length w) + unat ?d \<le> unat (map_length w')" "unat (map_length w') < 2 ^ 32"
    "2 ^ k dvd unat (map_length w')"
    using c n w'(2) assms(2) d k2 by simp_all
  show "wp_length w' = wp_length w" "start_phy_addr w' = start_phy_addr w" by (rule w')+
qed

lemma phys_of_start:
  assumes "good_page (page_size env) k" and "unat (wp_length w) \<le> 2 ^ 31" and "map_memory env w = Some w'"
    and "unat (start_phy_addr w) < 2 ^ 31"
  shows "phys_of env w' (vaddr w') = start_phy_addr w"
proof -
  note win = map_memory_window [OF assms(1-3)]
  have "ucast (vaddr w' - vaddr_base w') = take_bit k (start_phy_addr w)"
    using win(1) by (simp add: word_unat_eq_iff unat_ucast_up)
  moreover have "unat (page_floor (page_size env) (start_phy_addr w)) < 2 ^ 31"
    using page_floor_le(1) [OF assms(1), of "start_phy_addr w"] assms(4) by linarith
  ultimately show ?thesis
    using win(6) page_floor_plus [OF assms(1), of "start_phy_addr w"]
    by (simp add: phys_of_def to_off_t_small)
qed

lemma inside_region:
  assumes "good_page (page_size env) k" and "unat (wp_length w) \<le> 2 ^ 31" and "map_memory env w = Some w'"
  shows "inside w' (unat (wp_length w))"
proof -
  note win = map_memory_window [OF assms]
  have "unat (ucast (map_length w') :: u32) = unat (map_length w')"
    using win(3) by (rule unat_ucast_down)
  then show ?thesis using win(1,2) by (simp add: inside_def)
qed

lemma size_t_length: "unat (n :: u64) \<le> 2 ^ 31 \<Longrightarrow> unat (ucast n :: u32) = unat n"
  by (rule unat_ucast_down) simp

text \<open>
  C33. The mapping covers the region: its offset and length are whole pages, the region lies inside it,
  and for addresses below 2 GiB the pointer the transfers use stands for the first byte of the region.
\<close>

theorem memutil_window:
  assumes "good_page (page_size env) k" and "unat (wp_length w) \<le> 2 ^ 31" and "map_memory env w = Some w'"
    and "unat (start_phy_addr w) < 2 ^ 31"
  shows "2 ^ k dvd unat (page_floor (page_size env) (start_phy_addr w)) \<and> 2 ^ k dvd unat (map_length w') \<and>
    inside w' (unat (wp_length w)) \<and> phys_of env w' (vaddr w') = start_phy_addr w"
  using page_floor_le(2) [OF assms(1)] map_memory_window(4) [OF assms(1-3)] inside_region [OF assms(1-3)]
    phys_of_start [OF assms] by blast

definition sample_env :: mem_env where
  "sample_env = \<lparr>page_size = 4096, open_mem = True, mmap64 = \<lambda>len off. Some 0x40000000, open_file = True\<rparr>"

definition sample_params :: working_params where
  "sample_params = working_params0\<lparr>start_phy_addr := 0x1234, wp_length := 3, save_to_file := True, file_path := Some ''f''\<rparr>"

lemma sample_page: "good_page (page_size sample_env) 12"
  by (simp add: good_page_def sample_env_def)

theorem memutil_window_witness:
  "\<exists>w'. map_memory sample_env sample_params = Some w' \<and> 2 ^ 12 dvd unat (map_length w') \<and> inside w' 3 \<and>
    phys_of sample_env w' (vaddr w') = 0x1234"
proof -
  obtain w' where w: "map_memory sample_env sample_params = Some w'"
    by (simp add: map_memory_def map_memory_fixed_def sample_env_def Let_def)
  then show ?thesis
    using memutil_window [OF sample_page _ w] by (simp add: sample_params_def working_params0_def)
qed

text \<open>Beyond 2 GiB the offset that \<^verbatim>\<open>mmap64\<close> gets is another one: the cast to \<^verbatim>\<open>off_t\<close> sign-extends it.\<close>

lemma to_off_t_high:
  assumes "2 ^ 31 \<le> unat a" and "unat a < 2 ^ 32" shows "to_off_t a \<noteq> a"
proof
  assume eq: "to_off_t a = a"
  have "take_bit 32 a = a"
    using assms(2) by (simp add: word_unat_eq_iff unsigned_take_bit_eq take_bit_nat_eq_self_iff)
  then have n: "bit a n \<Longrightarrow> n < 32" for n by (metis bit_take_bit_iff)
  have "bit (to_off_t a) 63 \<longleftrightarrow> bit a 31" by (simp add: to_off_t_def bit_simps)
  with eq n have "\<not> bit a 31" by force
  then have "bit a n \<Longrightarrow> n < 31" for n using n [of n] by (cases "n = 31") auto
  then have "take_bit 31 a = a" by (intro bit_eqI) (auto simp: bit_take_bit_iff)
  then have "unat a < 2 ^ 31" using unat_take_bit_less [of 31 a] by simp
  with assms(1) show False by simp
qed

text \<open>Saving, once the region is mapped: what is left is the write loop on the region's bytes.\<close>

lemma save_eq:
  assumes "good_page (page_size env) k" and "unat (wp_length w) \<le> 2 ^ 31" and "map_memory env w = Some w'"
    and "unat (start_phy_addr w) < 2 ^ 31" and "open_file env"
  shows "save_mem_region_to_file env ws m w =
    (case safe_write ws (region m (start_phy_addr w) (unat (wp_length w))) of
       None \<Rightarrow> None
     | Some (wr_cnt, out, ws) \<Rightarrow>
         if wr_cnt < 0 then Some (- 1, Some out)
         else if wr_cnt \<noteq> int (unat (wp_length w)) then Some (- 1, Some out)
         else Some (0, Some out))"
  using assms(3,5) phys_of_start [OF assms(1-4)] inside_region [OF assms(1-3)]
    map_memory_window(5) [OF assms(1-3)] size_t_length [OF assms(2)]
  by (simp add: save_mem_region_to_file_def Let_def)

lemma save_exact:
  assumes "good_page (page_size env) k" and "unat (wp_length w) \<le> 2 ^ 31" and "map_memory env w = Some w'"
    and "unat (start_phy_addr w) < 2 ^ 31" and "open_file env"
    and "save_mem_region_to_file env ws m w = Some (0, f)"
  shows "f = Some (region m (start_phy_addr w) (unat (wp_length w)))"
  using assms(6) mem_sink.wr_full [of ws "region m (start_phy_addr w) (unat (wp_length w))"]
  by (auto simp: save_eq [OF assms(1-5)] split: option.splits if_splits)

text \<open>
  A save that returns 0 has written the whole region to the file and nothing else; a file that
  takes bytes gets it, however the writes are split and interrupted.
\<close>

theorem memutil_save:
  assumes "good_page (page_size env) k" and "unat (wp_length w) \<le> 2 ^ 31" and "map_memory env w = Some w'"
    and "unat (start_phy_addr w) < 2 ^ 31" and "open_file env"
  shows "(\<forall>f. save_mem_region_to_file env ws m w = Some (0, f) \<longrightarrow>
      f = Some (region m (start_phy_addr w) (unat (wp_length w)))) \<and>
    (willing (\<lambda>e. e = EINTR) ws \<and> unat (wp_length w) \<le> accepted ws \<longrightarrow>
      save_mem_region_to_file env ws m w = Some (0, Some (region m (start_phy_addr w) (unat (wp_length w)))))"
proof (intro conjI allI impI)
  fix f assume "save_mem_region_to_file env ws m w = Some (0, f)"
  with assms show "f = Some (region m (start_phy_addr w) (unat (wp_length w)))" by (rule save_exact)
next
  assume "willing (\<lambda>e. e = EINTR) ws \<and> unat (wp_length w) \<le> accepted ws"
  then obtain ws' where "safe_write ws (region m (start_phy_addr w) (unat (wp_length w))) =
      Some (int (unat (wp_length w)), region m (start_phy_addr w) (unat (wp_length w)), ws')"
    using mem_sink.wr_complete [of ws "region m (start_phy_addr w) (unat (wp_length w))"] by auto
  then show "save_mem_region_to_file env ws m w = Some (0, Some (region m (start_phy_addr w) (unat (wp_length w))))"
    by (simp add: save_eq [OF assms])
qed

theorem memutil_save_witness:
  "save_mem_region_to_file sample_env [Io_ok 1, Io_err EINTR, Io_ok 2] (\<lambda>a. ucast a) sample_params = Some (0, Some [0x34, 0x35, 0x36])"
proof -
  obtain w' where w: "map_memory sample_env sample_params = Some w'"
    by (simp add: map_memory_def map_memory_fixed_def sample_env_def Let_def)
  have p: "unat (wp_length sample_params) = 3" "start_phy_addr sample_params = 0x1234" "open_file sample_env"
    by (simp_all add: sample_params_def working_params0_def sample_env_def)
  have r: "region (\<lambda>a. ucast a) 0x1234 3 = [0x34, 0x35, 0x36]" by (simp add: region_def upt_rec)
  show ?thesis
    using conjunct2 [OF memutil_save [OF sample_page _ w _ p(3), of "[Io_ok 1, Io_err EINTR, Io_ok 2]" "\<lambda>a. ucast a"]] p r
    by simp
qed



section \<open>The file\<close>

text \<open>
  The files by their names. Opening for writing creates the file or empties it; what is written is appended. The first
  argument says whether the system allows the access.
\<close>

type_synonym files = "string \<Rightarrow> u8 list option"

definition open_new_file_for_write :: "bool \<Rightarrow> string \<Rightarrow> files \<Rightarrow> int \<times> files" where
  "open_new_file_for_write allowed file fls = (if allowed then (3, fls(file \<mapsto> [])) else (- 1, fls))"

definition open_file_for_read :: "bool \<Rightarrow> string \<Rightarrow> files \<Rightarrow> int" where
  "open_file_for_read allowed file fls = (if allowed \<and> fls file \<noteq> None then 3 else - 1)"

definition save_to :: "mem_env \<Rightarrow> io_ret list \<Rightarrow> phys \<Rightarrow> string \<Rightarrow> working_params \<Rightarrow> files \<Rightarrow> (int \<times> files) option" where
  "save_to env ws m file w fls =
     (let (fd, opened) = open_new_file_for_write (open_file env) file fls in
      map_option (\<lambda>(r, out). (r, case out of None \<Rightarrow> if map_memory env w = None then fls else opened
          | Some bs \<Rightarrow> opened(file \<mapsto> the (opened file) @ bs)))
        (save_mem_region_to_file (env\<lparr>open_file := 0 \<le> fd\<rparr>) ws m w))"

definition load_from :: "mem_env \<Rightarrow> read_ret list \<Rightarrow> phys \<Rightarrow> string \<Rightarrow> working_params \<Rightarrow> files \<Rightarrow> (int \<times> phys) option" where
  "load_from env rs m file w fls =
     load_mem_region_from_file (env\<lparr>open_file := 0 \<le> open_file_for_read (open_file env) file fls\<rparr>) rs m w"

text \<open>
  A successful save leaves the file with exactly the region, whatever it held before, and touches no other file. A save that
  cannot open the file or map the memory changes nothing. Loading a file that is not there changes no memory.
\<close>

theorem memutil_file:
  assumes "good_page (page_size env) k" and "unat (wp_length w) \<le> 2 ^ 31" and "map_memory env w = Some w'"
    and "unat (start_phy_addr w) < 2 ^ 31"
  shows "(save_to env ws m file w fls = Some (0, fls') \<longrightarrow>
      fls' = fls(file \<mapsto> region m (start_phy_addr w) (unat (wp_length w)))) \<and>
    (\<not> open_file env \<longrightarrow> save_to env ws m file w fls = Some (- 1, fls)) \<and>
    (fls file = None \<longrightarrow> load_from env rs m file w fls = Some (- 1, m))"
proof (intro conjI impI)
  have mm: "map_memory (env\<lparr>open_file := b\<rparr>) w = map_memory env w" for b
    by (simp add: map_memory_def map_memory_fixed_def Let_def)
  assume s: "save_to env ws m file w fls = Some (0, fls')"
  then have o: "open_file env" using assms(3) mm
    by (cases "open_file env") (auto simp: save_to_def open_new_file_for_write_def save_mem_region_to_file_def)
  from s obtain f where f: "save_mem_region_to_file (env\<lparr>open_file := True\<rparr>) ws m w = Some (0, f)"
    "fls' = (case f of None \<Rightarrow> fls(file \<mapsto> []) | Some bs \<Rightarrow> fls(file \<mapsto> bs))"
    using o assms(3) by (auto simp: save_to_def open_new_file_for_write_def split: option.splits)
  have "f = Some (region m (start_phy_addr w) (unat (wp_length w)))"
    using save_exact [of "env\<lparr>open_file := True\<rparr>" k w w' ws m f] assms f(1) mm by simp
  with f(2) show "fls' = fls(file \<mapsto> region m (start_phy_addr w) (unat (wp_length w)))" by simp
next
  have mm: "map_memory (env\<lparr>open_file := b\<rparr>) w = map_memory env w" for b
    by (simp add: map_memory_def map_memory_fixed_def Let_def)
  show "save_to env ws m file w fls = Some (- 1, fls)" if "\<not> open_file env"
    using that mm assms(3) by (simp add: save_to_def open_new_file_for_write_def save_mem_region_to_file_def)
  show "load_from env rs m file w fls = Some (- 1, m)" if "fls file = None"
    using that mm assms(3) by (simp add: load_from_def open_file_for_read_def load_mem_region_from_file_def)
qed

end
