(* ===== verification/Mem_Tools.thy ===== *)
theory Mem_Tools
  imports Memutil
begin

unbundle bit_operations_syntax

text \<open>
  The small memory tools of \<^verbatim>\<open>src/test_suite\<close>: \<^verbatim>\<open>asciidump.c\<close> prints a region of the physical memory,
  \<^verbatim>\<open>dump_memory_to_file.c\<close> writes one to a file, and \<^verbatim>\<open>clearmem.c\<close> fills one with a pattern.
\<close>

section \<open>asciidump: one line\<close>

definition hex :: "nat \<Rightarrow> nat \<Rightarrow> string" where
  "hex w n = zero_pad w (radix 16 n)"

definition isprint :: "u8 \<Rightarrow> bool" where
  "isprint c \<longleftrightarrow> 32 \<le> c \<and> c \<le> 126"

text \<open>
  \<^verbatim>\<open>print_hex_ascii_line\<close>: the physical address when a base is given, the offset, the bytes in
  hexadecimal with a gap in the middle, filled up to sixteen columns, and the printable characters.
\<close>

definition hex_column :: "nat \<Rightarrow> u8 \<Rightarrow> string" where
  "hex_column i c = hex 2 (unat c) @ '' '' @ (if i = 7 then '' '' else [])"

definition hex_part :: "u8 list \<Rightarrow> string" where
  "hex_part buf =
     concat (map (\<lambda>i. hex_column i (buf ! i)) [0..<length buf]) @
     (if length buf < 8 then '' '' else []) @
     (if length buf < 16 then concat (replicate (16 - length buf) ''   '') else []) @ ''   ''"

definition print_hex_ascii_line :: "u64 option \<Rightarrow> u8 list \<Rightarrow> nat \<Rightarrow> string" where
  "print_hex_ascii_line base buf offset =
     (case base of
        None \<Rightarrow> []
      | Some b \<Rightarrow>
          (let a = b + of_nat offset in
           ''0x'' @ hex 1 (unat (ucast (drop_bit 32 a) :: u32)) @ ''_'' @ hex 8 (unat (ucast a :: u32)) @ '' '')) @
     ''0x'' @ hex 8 offset @ ''  '' @ hex_part buf @
     map (\<lambda>c. if isprint c then char_of (unat c) else CHR ''.'') buf @ [CHR 0x0A]"

section \<open>asciidump: the whole buffer\<close>

text \<open>
  \<^verbatim>\<open>print_buf\<close>. The length of a line is computed as \<^verbatim>\<open>line_width % len_rem\<close>. The lines are a list, in the
  order they are printed.
\<close>

function print_lines :: "u64 option \<Rightarrow> u8 list \<Rightarrow> nat \<Rightarrow> nat \<Rightarrow> string list" where
  "print_lines base ch len_rem offset =
    (let line_len = 16 mod len_rem;
         out = print_hex_ascii_line base (take line_len ch) offset;
         len_rem' = len_rem - line_len;
         ch = drop line_len ch;
         offset = offset + 16 in
     if len_rem' \<le> 16 then [out, print_hex_ascii_line base (take len_rem' ch) offset]
     else out # print_lines base ch len_rem' offset)"
  by pat_completeness auto
termination
proof (relation "measure (\<lambda>(base, ch, len_rem, offset). len_rem)")
  fix base :: "u64 option" and ch :: "u8 list" and len_rem offset line_len out len_rem' ch' offset'
  assume "line_len = 16 mod len_rem" "len_rem' = len_rem - line_len" "\<not> len_rem' \<le> (16 :: nat)"
  then show "((base, ch', len_rem', offset'), base, ch, len_rem, offset) \<in> measure (\<lambda>(base, ch, len_rem, offset). len_rem)"
    by simp
qed simp

declare print_lines.simps [simp del]

definition print_buf :: "u64 option \<Rightarrow> u8 list \<Rightarrow> int \<Rightarrow> string list" where
  "print_buf base buf len =
     (if len \<le> 0 then []
      else if len \<le> 16 then [print_hex_ascii_line base (take (nat len) buf) 0]
      else print_lines base buf (nat len) 0)"

text \<open>
  \<^verbatim>\<open>show\<close>: the region is mapped from the start of its page, and the size, an \<^verbatim>\<open>unsigned long\<close>, is passed as
  an \<^verbatim>\<open>int\<close>. Without \<^verbatim>\<open>/dev/mem\<close> or the mapping the program exits; a byte beyond the mapping kills it, as
  does a mapping whose length has wrapped around. This file is built with 64-bit offsets.
\<close>

datatype show_result = Show_exit | Show_killed | Show_lines "string list"

definition show_mem :: "mem_env \<Rightarrow> phys \<Rightarrow> u64 \<Rightarrow> u32 \<Rightarrow> show_result" where
  "show_mem env m paddr sz =
     (let addr = paddr AND NOT 0xFFF; offset = (ucast paddr :: u32) AND 0xFFF in
      if \<not> open_mem env then Show_exit
      else
        (case mmap64 env (sz + offset) addr of
           None \<Rightarrow> Show_exit
         | Some va \<Rightarrow>
             if sint sz \<le> 0 then Show_lines []
             else if unat offset + unat sz \<le> unat (sz + offset)
             then Show_lines (print_buf (Some paddr) (region m (addr + ucast offset) (unat sz)) (sint sz))
             else Show_killed))"

definition asciidump_main :: "mem_env \<Rightarrow> phys \<Rightarrow> string list \<Rightarrow> show_result" where
  "asciidump_main env m argv =
     (if length argv < 3 then Show_exit
      else show_mem env m (fst (strtoull 16 (argv ! 1))) (strtoul 10 (argv ! 2)))"

section \<open>The dump is the reference dump\<close>

text \<open>Sixteen bytes at a time.\<close>

fun chunks :: "u8 list \<Rightarrow> u8 list list" where
  "chunks [] = []"
| "chunks (c # cs) = take 16 (c # cs) # chunks (drop 16 (c # cs))"

fun numbered :: "u64 option \<Rightarrow> nat \<Rightarrow> u8 list list \<Rightarrow> string list" where
  "numbered base off [] = []"
| "numbered base off (cs # css) = print_hex_ascii_line base cs off # numbered base (off + 16) css"

lemma chunks_step: "cs \<noteq> [] \<Longrightarrow> chunks cs = take 16 cs # chunks (drop 16 cs)"
  by (cases cs) simp_all

lemma chunks_short: "cs \<noteq> [] \<Longrightarrow> length cs \<le> 16 \<Longrightarrow> chunks cs = [cs]"
  by (simp add: chunks_step)

lemma print_lines_numbered:
  "16 < n \<Longrightarrow> length ch = n \<Longrightarrow> print_lines base ch n off = numbered base off (chunks ch)"
proof (induction n arbitrary: ch off rule: less_induct)
  case (less n)
  have m: "16 mod n = 16" using less.prems by simp
  have c: "chunks ch = take 16 ch # chunks (drop 16 ch)" using less.prems by (intro chunks_step) auto
  show ?case
  proof (cases "n - 16 \<le> 16")
    case True
    then have "chunks (drop 16 ch) = [drop 16 ch]" using less.prems by (intro chunks_short) auto
    then show ?thesis using True less.prems m c by (subst print_lines.simps) (simp add: Let_def)
  next
    case False
    then have "print_lines base (drop 16 ch) (n - 16) (off + 16) = numbered base (off + 16) (chunks (drop 16 ch))"
      using less.prems by (intro less.IH) auto
    then show ?thesis using False m c by (subst print_lines.simps) (simp add: Let_def)
  qed
qed

text \<open>
  \<^verbatim>\<open>print_buf\<close> terminates and prints the buffer sixteen bytes to a line, each line with the offset of
  its first byte, the last one with what is left: no byte is left out or printed twice, although the
  length of a line is computed with a remainder.
\<close>

theorem print_buf_correct:
  assumes "int (length buf) = len"
  shows "print_buf base buf len = numbered base 0 (chunks buf) \<and> concat (chunks buf) = buf"
proof
  show "print_buf base buf len = numbered base 0 (chunks buf)"
    using assms chunks_short [of buf] print_lines_numbered [of "nat len" buf base 0]
    by (cases "buf = []") (auto simp: print_buf_def)
  show "concat (chunks buf) = buf"
    by (induction buf rule: chunks.induct) (simp_all only: chunks.simps concat.simps append_take_drop_id)
qed

theorem print_buf_correct_witness:
  "length (print_buf None (replicate 40 0) 40) = 3"
proof -
  have "chunks (replicate 40 0) = [replicate 16 0, replicate 16 0, replicate 8 0]"
    by (simp add: chunks_step)
  then show ?thesis using print_buf_correct [of "replicate 40 0" 40 None] by simp
qed

lemma length_hex2: "length (hex 2 (unat (c :: u8))) = 2"
proof -
  have "unat c < 16 ^ 2" using unsigned_less [of c, where ?'a = nat] by simp
  then have "length (radix 16 (unat c)) \<le> 2" by (intro length_radix) auto
  then show ?thesis by (simp add: hex_def length_zero_pad max_def)
qed

lemma length_columns:
  "length (concat (map (\<lambda>i. hex_column i (buf ! i)) [0..<n])) = 3 * n + (if 7 < n then 1 else 0)"
  by (induction n) (auto simp: hex_column_def length_hex2)

text \<open>
  The columns are aligned: whatever the bytes and however many of them a line has, the characters
  start 52 columns after the hexadecimal part begins.
\<close>

theorem dump_columns_aligned:
  assumes "length buf \<le> 16" shows "length (hex_part buf) = 52"
proof -
  have "length (concat (replicate n ''   '')) = 3 * n" for n by (induction n) simp_all
  then show ?thesis using assms by (auto simp: hex_part_def length_columns)
qed

theorem dump_columns_aligned_witness: "length (hex_part [1, 2, 3]) = 52"
  by (rule dump_columns_aligned) simp

section \<open>dump\_memory\_to\_file\<close>

text \<open>
  \<^verbatim>\<open>readNumFromStr\<close>: the number, or \<open>None\<close> when the program exits because the number is out of range or
  there are no digits.
\<close>

definition readNumFromStr :: "string \<Rightarrow> nat \<Rightarrow> u64 option" where
  "readNumFromStr str b =
     (let (v, has, range) = strtoull b str in
      if range then None else if \<not> has then None else Some v)"

text \<open>
  The write is repeated while it fails with \<^verbatim>\<open>EAGAIN\<close>; its result, however many bytes it wrote, ends
  the loop. \<open>None\<close> means that it is still waiting.
\<close>

fun dump_write :: "io_ret list \<Rightarrow> u8 list \<Rightarrow> (bool \<times> u8 list) option" where
  "dump_write [] bs = None"
| "dump_write (Io_err e # ws) bs = (if e = EAGAIN then dump_write ws bs else Some (False, []))"
| "dump_write (Io_ok n # ws) bs = Some (True, take n bs)"

text \<open>
  The main program: the exit status and the contents of the file, when it was created. The size is
  passed on as a \<^verbatim>\<open>size_t\<close> and the address as an \<^verbatim>\<open>off_t\<close>; \<open>open_file\<close> is the result of \<^verbatim>\<open>creat\<close>.
\<close>

definition dump_main :: "mem_env \<Rightarrow> io_ret list \<Rightarrow> phys \<Rightarrow> string list \<Rightarrow> (int \<times> u8 list option) option" where
  "dump_main env ws m argv =
     (if length argv \<noteq> 4 then Some (1, None)
      else
        (case readNumFromStr (argv ! 1) 0 of
           None \<Rightarrow> Some (1, None)
         | Some fromPhyMem \<Rightarrow>
        (case readNumFromStr (argv ! 2) 0 of
           None \<Rightarrow> Some (1, None)
         | Some sz \<Rightarrow>
             if sint sz < 0 then Some (1, None)
             else if \<not> open_file env then Some (1, None)
             else if \<not> open_mem env then Some (1, Some [])
             else
               (case mmap64 env (ucast sz) (to_off_t fromPhyMem) of
                  None \<Rightarrow> Some (1, Some [])
                | Some va \<Rightarrow>
                    map_option (\<lambda>(ok, out). (if ok then 0 else 1, Some out))
                      (dump_write ws (region m (to_off_t fromPhyMem) (unat (ucast sz :: u32))))))))"

section \<open>clearmem\<close>

text \<open>
  \<^verbatim>\<open>strtoll\<close>, with its result converted to \<^verbatim>\<open>unsigned long long\<close>; the result of \<^verbatim>\<open>mmap\<close> is not checked, and without a mapping the program
  is killed, \<open>None\<close>. The check reads one \<^verbatim>\<open>unsigned long\<close> from the start. The memory beyond the filled size is
  still mapped up to the end of its page.
\<close>

definition strtoll :: "string \<Rightarrow> u64" where
  "strtoll cs =
     (let (neg, n, has) = c_number 0 cs in
      if neg then (if 2 ^ 63 < n then 2 ^ 63 else - of_nat n)
      else if 2 ^ 63 \<le> n then 2 ^ 63 - 1 else of_nat n)"

datatype clear_result = Clear_usage | Clear_failed | Clear_done bool phys

definition clear_pattern :: "string list \<Rightarrow> u8" where
  "clear_pattern argv = (if 4 \<le> length argv then ucast (strtoll (argv ! 3)) else 0x0a)"

definition clearmem_main :: "mem_env \<Rightarrow> phys \<Rightarrow> string list \<Rightarrow> clear_result option" where
  "clearmem_main env m argv =
     (if length argv < 3 then Some Clear_usage
      else
        (let start = strtoll (argv ! 1);
             sz = (ucast (strtoll (argv ! 2)) :: u32);
             pattern = clear_pattern argv in
         if \<not> open_mem env then Some Clear_failed
         else
           (case mmap64 env sz (to_off_t start) of
              None \<Rightarrow> None
            | Some va \<Rightarrow>
                (let m = store_region m (to_off_t start) (replicate (unat sz) pattern) in
                 Some (Clear_done (region m (to_off_t start) 4 = replicate 4 pattern) m)))))"

lemmas number_text = c_number_def base_prefix_def digit_val_def c_space_def number_def

section \<open>What the two tools do\<close>

lemma dump_write_prefix:
  "dump_write ws bs = Some (ok, out) \<Longrightarrow> \<exists>k. out = take k bs"
  by (induction ws bs rule: dump_write.induct) (auto split: if_splits intro: exI [of _ "0 :: nat"])

text \<open>
  The dump tool reports success for a short write: when the first \<^verbatim>\<open>write\<close> takes only \<open>n\<close> bytes, the file
  holds just these and the exit status is 0. It is complete only when that write took everything.
\<close>

theorem dump_short_write:
  assumes "open_file env" and "open_mem env" and "mmap64 env (ucast sz) (to_off_t a) = Some va"
    and "readNumFromStr s1 0 = Some a" and "readNumFromStr s2 0 = Some sz" and "0 \<le> sint sz"
  shows "dump_main env (replicate k (Io_err EAGAIN) @ [Io_ok n]) m [p, s1, s2, f] =
    Some (0, Some (region m (to_off_t a) (min n (unat (ucast sz :: u32)))))"
proof -
  have "dump_write (replicate k (Io_err EAGAIN) @ [Io_ok n]) bs = Some (True, take n bs)" for bs
    by (induction k) simp_all
  moreover have "take n (region m x l) = region m x (min n l)" for x l
    by (cases "n \<le> l") (simp_all add: region_def take_map)
  ultimately show ?thesis using assms by (simp add: dump_main_def)
qed

theorem dump_short_write_witness:
  "dump_main sample_env [Io_ok 1] (\<lambda>a. ucast a) [''dump'', ''0x10'', ''4096'', ''f''] = Some (0, Some [0x10])"
proof -
  have n: "readNumFromStr ''0x10'' 0 = Some 0x10" "readNumFromStr ''4096'' 0 = Some 4096"
    by (simp_all add: readNumFromStr_def strtoull_def number_text)
  have "to_off_t 0x10 = 0x10" by (simp add: to_off_t_small)
  then show ?thesis
    using dump_short_write [of sample_env 4096 "0x10" "0x40000000" "''0x10''" "''4096''" 0 1 "\<lambda>a. ucast a" "''dump''" "''f''"] n
    by (simp add: sample_env_def region_def)
qed

text \<open>
  After the clear tool has run, exactly the bytes of the region hold the pattern. Its own check is
  right for four bytes and more; for one to three bytes it also looks at bytes it did not
  clear and can deny a success.
\<close>

theorem clearmem_clears:
  assumes "3 \<le> length argv" and "open_mem env"
    and "mmap64 env (ucast (strtoll (argv ! 2))) (to_off_t (strtoll (argv ! 1))) = Some va"
  shows "\<exists>ok m'. clearmem_main env m argv = Some (Clear_done ok m') \<and>
    (let a = to_off_t (strtoll (argv ! 1)); n = unat (ucast (strtoll (argv ! 2)) :: u32) in
     (\<forall>x. m' x = (if unat (x - a) < n then clear_pattern argv else m x)) \<and>
     (4 \<le> n \<longrightarrow> ok) \<and> (n < 4 \<longrightarrow> (ok \<longleftrightarrow> (\<forall>i \<in> {n..<4}. m (a + of_nat i) = clear_pattern argv))))"
proof -
  let ?a = "to_off_t (strtoll (argv ! 1))" and ?n = "unat (ucast (strtoll (argv ! 2)) :: u32)"
  let ?m = "store_region m ?a (replicate ?n (clear_pattern argv))"
  have m: "?m x = (if unat (x - ?a) < ?n then clear_pattern argv else m x)" for x
    by (simp add: store_region_def)
  have four: "region ?m ?a 4 = replicate 4 (clear_pattern argv) \<longleftrightarrow>
      (\<forall>i < 4. i < ?n \<or> m (?a + of_nat i) = clear_pattern argv)"
    by (auto simp: list_eq_iff_nth_eq region_def store_region_def unat_of_nat)
  have "clearmem_main env m argv = Some (Clear_done (region ?m ?a 4 = replicate 4 (clear_pattern argv)) ?m)"
    using assms by (simp add: clearmem_main_def Let_def)
  then show ?thesis
    unfolding four by (intro exI conjI) (auto simp: Let_def store_region_def)
qed

theorem clearmem_clears_witness:
  "\<exists>m'. clearmem_main sample_env (\<lambda>a. 0) [''clearmem'', ''0x10'', ''1''] = Some (Clear_done False m') \<and> m' 0x10 = 0x0a \<and> m' 0x11 = 0"
proof -
  have n: "strtoll ''0x10'' = 0x10" "strtoll ''1'' = 1" by (simp_all add: strtoll_def number_text)
  have o: "to_off_t 0x10 = 0x10" by (simp add: to_off_t_small)
  obtain ok m' where c: "clearmem_main sample_env (\<lambda>a. 0) [''clearmem'', ''0x10'', ''1''] = Some (Clear_done ok m')"
    and m: "\<forall>x. m' x = (if unat (x - 0x10) < 1 then 0x0a else 0)"
    and ok: "ok \<longleftrightarrow> (\<forall>i \<in> {1..<4 :: nat}. (0 :: u8) = 0x0a)"
    using clearmem_clears [of "[''clearmem'', ''0x10'', ''1'']" sample_env "0x40000000" "\<lambda>a. 0"] n o
    by (auto simp: sample_env_def clear_pattern_def Let_def)
  from ok have "ok = False" by auto
  with c m show ?thesis by simp
qed

end
