(* ===== verification/Smemcap.thy ===== *)
theory Smemcap
  imports User_Io C_Strings
begin

unbundle bit_operations_syntax

text \<open>
  The memory report, \<^verbatim>\<open>src/test_suite/smemcap.c\<close>: files of \<^verbatim>\<open>/proc\<close> are written to the standard output as a
  tar archive. The theory has the header of a member, the member with its contents, the list of
  members the program writes, and a reader of such archives; what was archived is read back.
\<close>

section \<open>The header\<close>

text \<open>Text in the header: the characters and a terminator, from a position on, if they fit.\<close>

definition bytes :: "string \<Rightarrow> u8 list" where
  "bytes s = map (\<lambda>c. of_nat (of_char c)) s"

definition sput :: "u8 list \<Rightarrow> nat \<Rightarrow> string \<Rightarrow> u8 list option" where
  "sput h off s = (if off + length s + 1 \<le> length h then Some (blit h off (bytes s @ [0])) else None)"

definition oct :: "nat \<Rightarrow> u32 \<Rightarrow> string" where
  "oct w v = zero_pad w (radix 8 (unat v))"

text \<open>The sum of the header's bytes; \<^verbatim>\<open>char\<close> is unsigned on the target.\<close>

definition checksum :: "u8 list \<Rightarrow> nat" where
  "checksum h = sum_list (map unat h)"

record tar_stat =
  st_mode :: u32
  st_uid :: u32
  st_gid :: u32
  st_mtime :: u32

text \<open>The header that \<^verbatim>\<open>writeheader\<close> makes; \<open>None\<close> when a text runs past the end of the array.\<close>

definition tar_header :: "string \<Rightarrow> u32 \<Rightarrow> u32 \<Rightarrow> u32 \<Rightarrow> u32 \<Rightarrow> u32 \<Rightarrow> nat \<Rightarrow> u8 list option" where
  "tar_header path mode uid gid sz mtime ty =
     Option.bind (sput (replicate 512 0) 0 path) (\<lambda>h.
     Option.bind (sput h 100 (oct 7 (mode AND 0x1FF))) (\<lambda>h.
     Option.bind (sput h 108 (oct 7 uid)) (\<lambda>h.
     Option.bind (sput h 116 (oct 7 gid)) (\<lambda>h.
     Option.bind (sput h 124 (oct 11 sz)) (\<lambda>h.
     Option.bind (sput h 136 (oct 7 mtime)) (\<lambda>h.
     Option.bind (sput h 148 (''        '' @ dec ty)) (\<lambda>h.
     sput h 148 (oct 6 (of_nat (checksum h))))))))))"

text \<open>
  The writes to the standard output: \<open>wr i\<close> is the answer of the system to the \<open>i\<close>-th one. A short
  write is not continued, and \<^verbatim>\<open>writeheader\<close>'s callers do not look at its result. A part of the program
  that writes takes the number of writes before it and gives the bytes that went out and the number
  of writes after it.
\<close>

type_synonym writer = "nat \<Rightarrow> (u8 list \<times> nat) option"

definition write_once :: "(nat \<Rightarrow> io_ret) \<Rightarrow> nat \<Rightarrow> u8 list \<Rightarrow> u8 list option" where
  "write_once wr i b = (case wr i of Io_ok n \<Rightarrow> Some (take n b) | Io_err e \<Rightarrow> None)"

definition writeheader ::
  "(nat \<Rightarrow> io_ret) \<Rightarrow> string \<Rightarrow> u32 \<Rightarrow> u32 \<Rightarrow> u32 \<Rightarrow> u32 \<Rightarrow> u32 \<Rightarrow> nat \<Rightarrow> writer" where
  "writeheader wr path mode uid gid sz mtime ty i =
     (case tar_header path mode uid gid sz mtime ty of
        None \<Rightarrow> None
      | Some h \<Rightarrow> Some (case write_once wr i h of None \<Rightarrow> [] | Some out \<Rightarrow> out, Suc i))"

section \<open>Members\<close>

text \<open>
  The loop that buffers a file: blocks of 512 bytes, zero-filled, until a read gives fewer; the size
  adds up what was read. The answers of \<^verbatim>\<open>read\<close> are a list; \<open>None\<close> means that one is still awaited.
\<close>

fun read_blocks :: "read_ret list \<Rightarrow> (u8 list list \<times> nat) option" where
  "read_blocks [] = None"
| "read_blocks (Rd_err e # rs) = Some ([replicate 512 0], 0)"
| "read_blocks (Rd_ok bs # rs) =
    (let bs = take 512 bs; blk = bs @ replicate (512 - length bs) 0 in
     if length bs = 512
     then map_option (\<lambda>(blks, n). (blk # blks, length bs + n)) (read_blocks rs)
     else Some ([blk], length bs))"

text \<open>The loop that writes the blocks, one for every started 512 bytes of the size, up to the first error.\<close>

fun dump_blocks :: "(nat \<Rightarrow> io_ret) \<Rightarrow> nat \<Rightarrow> u8 list list \<Rightarrow> nat \<Rightarrow> u8 list \<times> nat" where
  "dump_blocks wr i blks n =
    (if n = 0 then ([], i)
     else case blks of
       [] \<Rightarrow> ([], i)
     | b # blks \<Rightarrow>
         (case write_once wr i b of
            None \<Rightarrow> ([], Suc i)
          | Some out \<Rightarrow> (let (outs, j) = dump_blocks wr (Suc i) blks (n - 512) in (out @ outs, j))))"

declare dump_blocks.simps [simp del]

definition archivefile :: "(nat \<Rightarrow> io_ret) \<Rightarrow> string \<Rightarrow> tar_stat \<Rightarrow> read_ret list \<Rightarrow> writer" where
  "archivefile wr path s rs i =
     Option.bind (read_blocks rs) (\<lambda>(blks, n).
     Option.bind (writeheader wr path (st_mode s) (st_uid s) (st_gid s) (of_nat n) (st_mtime s) 0 i) (\<lambda>(h, i).
     (let (outs, i) = dump_blocks wr i blks n in Some (h @ outs, i))))"

definition archivejoin :: "(nat \<Rightarrow> io_ret) \<Rightarrow> string \<Rightarrow> string \<Rightarrow> tar_stat \<Rightarrow> read_ret list \<Rightarrow> writer" where
  "archivejoin wr sub name s rs = archivefile wr (sub @ ''/'' @ name) s rs"

section \<open>The archive\<close>

text \<open>
  The main program: two files, and for every directory entry that begins with a digit a directory
  member and three files. \<open>stat\<close> and \<open>contents\<close> are what the system answers for a path.
\<close>

definition numeric :: "string \<Rightarrow> bool" where
  "numeric n \<longleftrightarrow> (case n of [] \<Rightarrow> False | c # _ \<Rightarrow> 48 \<le> (of_char c :: nat) \<and> of_char c \<le> (57 :: nat))"

definition process_members ::
  "(nat \<Rightarrow> io_ret) \<Rightarrow> (string \<Rightarrow> tar_stat) \<Rightarrow> (string \<Rightarrow> read_ret list) \<Rightarrow> string \<Rightarrow> writer list" where
  "process_members wr stat contents n =
     [writeheader wr n 0x16D (st_uid (stat n)) (st_gid (stat n)) 0 (st_mtime (stat n)) 5,
      archivejoin wr n ''smaps'' (stat (n @ ''/smaps'')) (contents (n @ ''/smaps'')),
      archivejoin wr n ''cmdline'' (stat (n @ ''/cmdline'')) (contents (n @ ''/cmdline'')),
      archivejoin wr n ''stat'' (stat (n @ ''/stat'')) (contents (n @ ''/stat''))]"

fun in_sequence :: "writer list \<Rightarrow> writer" where
  "in_sequence [] i = Some ([], i)"
| "in_sequence (w # ws) i =
    (case w i of
       None \<Rightarrow> None
     | Some (out, i) \<Rightarrow> map_option (\<lambda>(outs, i). (out @ outs, i)) (in_sequence ws i))"

definition smemcap_main ::
  "(nat \<Rightarrow> io_ret) \<Rightarrow> bool \<Rightarrow> (string \<Rightarrow> tar_stat) \<Rightarrow> (string \<Rightarrow> read_ret list) \<Rightarrow> string list
    \<Rightarrow> (int \<times> u8 list) option" where
  "smemcap_main wr chdir_ok stat contents names =
     (if \<not> chdir_ok then Some (- 1, [])
      else map_option (\<lambda>(out, _). (0, out)) (in_sequence
        ([archivefile wr ''meminfo'' (stat ''meminfo'') (contents ''meminfo''),
          archivefile wr ''version'' (stat ''version'') (contents ''version'')] @
         concat (map (process_members wr stat contents) (filter numeric names))) 0))"

section \<open>The reader\<close>

text \<open>
  A reader in the format of the archive: a name, the size in octal, the type, and the check sum over
  the header with blanks in the place of the sum.
\<close>

definition text_at :: "u8 list \<Rightarrow> nat \<Rightarrow> nat \<Rightarrow> string" where
  "text_at h off n = map (\<lambda>b. char_of (unat b)) (takeWhile (\<lambda>b. b \<noteq> 0) (subarr h off n))"

definition tar_size :: "u8 list \<Rightarrow> nat" where
  "tar_size h = number 8 (text_at h 124 12)"

definition tar_checked :: "u8 list \<Rightarrow> bool" where
  "tar_checked h \<longleftrightarrow> number 8 (takeWhile (\<lambda>c. digit_val c < 8) (text_at h 148 8)) = checksum (blit h 148 (replicate 8 32))"

function tar_read :: "u8 list \<Rightarrow> (string \<times> string \<times> u8 list) list option" where
  "tar_read out =
    (if out = [] then Some []
     else if length out < 512 \<or> \<not> tar_checked (take 512 out) then None
     else
       (let h = take 512 out; n = tar_size h; blocks = (n + 511) div 512 * 512; rest = drop 512 out in
        map_option (Cons (text_at h 0 100, text_at h 156 1, take n rest)) (tar_read (drop blocks rest))))"
  by pat_completeness auto
termination by (relation "measure length") auto

declare tar_read.simps [simp del]

section \<open>The header is read back\<close>

lemma subarr_blit_other:
  assumes "off + length ys \<le> length h" and "p + n \<le> off \<or> off + length ys \<le> p"
  shows "subarr (blit h off ys) p n = subarr h p n"
proof (cases "p + n \<le> off")
  case True
  have "subarr (blit h off ys) p n = take n (drop p (take (p + n) (blit h off ys)))"
    by (simp add: subarr_def take_drop)
  also have "take (p + n) (blit h off ys) = take (p + n) h"
    using True assms(1) by (intro take_blit_prefix) auto
  finally show ?thesis by (simp add: subarr_def take_drop)
next
  case False
  then obtain d where d: "p = off + length ys + d" using assms(2) by (metis le_iff_add)
  show ?thesis using assms(1) by (simp add: subarr_def blit_def d add.commute add.left_commute)
qed

lemma length_bytes [simp]: "length (bytes s) = length s"
  by (simp add: bytes_def)

lemma byte_char: "char_of (unat (of_nat (of_char c) :: u8)) = (c :: char)"
proof -
  have "(of_char c :: nat) < 256" by (metis of_char_mod_256 mod_less_divisor zero_less_numeral)
  then show ?thesis by (simp add: unat_of_nat char_of_char)
qed

lemma byte_nonzero: "c \<noteq> CHR 0x00 \<Longrightarrow> (of_nat (of_char c) :: u8) \<noteq> 0"
proof
  assume "c \<noteq> CHR 0x00" "(of_nat (of_char c) :: u8) = 0"
  then have "char_of (0 :: nat) = c" using byte_char [of c] by simp
  moreover have "char_of (0 :: nat) = CHR 0x00" by (simp add: char_of_def)
  ultimately show False using \<open>c \<noteq> CHR 0x00\<close> by simp
qed

lemma text_of_bytes:
  assumes "CHR 0x00 \<notin> set s"
  shows "map (\<lambda>b. char_of (unat b)) (takeWhile (\<lambda>b. b \<noteq> 0) (bytes s @ 0 # r)) = s"
proof -
  have "b \<noteq> 0" if "b \<in> set (bytes s)" for b
  proof -
    obtain c where "c \<in> set s" "b = of_nat (of_char c)" using \<open>b \<in> set (bytes s)\<close> by (auto simp: bytes_def)
    then show ?thesis using assms byte_nonzero [of c] by metis
  qed
  then have "takeWhile (\<lambda>b. b \<noteq> 0) (bytes s @ 0 # r) = bytes s @ takeWhile (\<lambda>b. b \<noteq> 0) (0 # r)"
    by (rule takeWhile_append2)
  then have "takeWhile (\<lambda>b. b \<noteq> 0) (bytes s @ 0 # r) = bytes s" by simp
  then show ?thesis by (simp add: bytes_def byte_char comp_def)
qed

lemma oct_digits:
  assumes "8 ^ w > unat v" and "0 < w"
  shows "length (oct w v) = w" and "CHR 0x00 \<notin> set (oct w v)" and "number 8 (oct w v) = unat v"
    and "\<forall>c \<in> set (oct w v). digit_val c < 8"
proof -
  have "length (radix 8 (unat v)) \<le> w" using assms by (intro length_radix) auto
  then show "length (oct w v) = w" by (simp add: oct_def length_zero_pad max_def)
  have "digit_val CHR ''0'' = 0" by code_simp
  moreover have "\<forall>c \<in> set (radix 8 (unat v)). digit_val c < 8"
    using radix_digits [of 8 "unat v"] by (simp add: list_all_iff)
  ultimately show all: "\<forall>c \<in> set (oct w v). digit_val c < 8" by (auto simp: oct_def zero_pad_def)
  have "digit_val CHR 0x00 = 36" by code_simp
  with all show "CHR 0x00 \<notin> set (oct w v)" by force
  show "number 8 (oct w v) = unat v" by (simp add: oct_def zero_pad_number number_radix)
qed

text \<open>Any 32-bit number has at most eleven octal digits.\<close>

lemma length_oct: "length (oct w v) \<le> max w 11"
proof -
  have "unat v < 8 ^ 11" using unat_u32_bound [of v] by simp
  then have "length (radix 8 (unat v)) \<le> 11" by (intro length_radix) auto
  then show ?thesis by (auto simp: oct_def length_zero_pad)
qed

lemma sput_ok:
  assumes "off + length s + 1 \<le> length h"
  shows "sput h off s = Some (blit h off (bytes s @ [0]))"
    and "length (blit h off (bytes s @ [0])) = length h"
  using assms by (simp_all add: sput_def memsimps)

lemma checksum_bound: "checksum h \<le> 255 * length h"
proof (induction h)
  case (Cons b h)
  have "unat b \<le> 255" using unsigned_less [of b, where ?'a = nat] by simp
  with Cons show ?case by (simp add: checksum_def)
qed (simp add: checksum_def)

lemma checksum_blit_back:
  assumes "length h = 512" and "subarr h 148 8 = ys" and "length z = 7"
  shows "blit (blit h 148 z) 148 ys = h"
proof -
  have ys: "length ys = 8" using assms by (auto simp: subarr_def)
  have "ys @ drop 8 (drop 148 h) = drop 148 h"
    using assms(2) by (simp only: subarr_def append_take_drop_id flip: assms(2))
  then have "ys @ drop 156 h = drop 148 h" by simp
  then have "take 148 h @ ys @ drop 156 h = h" by simp
  then show ?thesis using assms ys by (simp add: blit_def)
qed

text \<open>The header before the check sum is put in, and the header.\<close>

definition put_text :: "u8 list \<Rightarrow> nat \<times> string \<Rightarrow> u8 list" where
  "put_text h t = (let (off, s) = t in blit h off (bytes s @ [0]))"

definition raw_header :: "string \<Rightarrow> u32 \<Rightarrow> u32 \<Rightarrow> u32 \<Rightarrow> u32 \<Rightarrow> u32 \<Rightarrow> nat \<Rightarrow> u8 list" where
  "raw_header path mode uid gid sz mtime ty = foldl put_text (replicate 512 0)
     [(0, path), (100, oct 7 (mode AND 0x1FF)), (108, oct 7 uid), (116, oct 7 gid), (124, oct 11 sz),
      (136, oct 7 mtime), (148, ''        '' @ dec ty)]"

lemma length_put_text: "off + length s < length h \<Longrightarrow> length (put_text h (off, s)) = length h"
  by (simp add: put_text_def memsimps)

lemma sput_put_text: "off + length s < length h \<Longrightarrow> sput h off s = Some (put_text h (off, s))"
  by (simp add: sput_def put_text_def)

lemma subarr_put_text:
  "off + length s < length h \<Longrightarrow> p + n \<le> off \<or> off + length s < p \<Longrightarrow> subarr (put_text h (off, s)) p n = subarr h p n"
  unfolding put_text_def by (simp, rule subarr_blit_other) auto

lemma text_at_put_text:
  assumes "off + length s < length h" and "CHR 0x00 \<notin> set s" and "length s < n"
  shows "text_at (put_text h (off, s)) off n = s"
proof -
  have "subarr (put_text h (off, s)) off n = bytes s @ 0 # take (n - Suc (length s)) (drop (off + length s + 1) h)"
    using assms(1,3) by (simp add: put_text_def blit_def subarr_def take_Cons')
  then show ?thesis using text_of_bytes [OF assms(2)] by (simp add: text_at_def)
qed

lemma text_at_cong: "subarr h p n = subarr h' p n \<Longrightarrow> text_at h p n = text_at h' p n"
  by (simp add: text_at_def)

lemma text_lengths:
  "length (oct 7 v) \<le> 11" "length (oct 11 v) = 11" "ty < 10 \<Longrightarrow> dec ty = [digit_char ty]"
proof -
  show "length (oct 7 v) \<le> 11" using length_oct [of 7 v] by simp
  show "length (oct 11 v) = 11" using oct_digits(1) [of v 11] unat_u32_bound [of v] by simp
  show "ty < 10 \<Longrightarrow> dec ty = [digit_char ty]" by (subst radix.simps) simp
qed

lemma off_ok: "length (oct 7 v) \<le> 11 \<Longrightarrow> n + 11 < k \<Longrightarrow> n + length (oct 7 v) < k"
  by linarith

lemma tar_header_eq:
  fixes mode uid gid sz mtime :: u32
  assumes "length path < 100" and "ty < 10"
  defines "h \<equiv> raw_header path mode uid gid sz mtime ty"
  shows "length h = 512" and "tar_header path mode uid gid sz mtime ty = Some (put_text h (148, oct 6 (of_nat (checksum h))))"
proof -
  note o = text_lengths(1) [of "mode AND 0x1FF"] text_lengths(1) [of uid] text_lengths(1) [of gid]
    text_lengths(1) [of mtime] text_lengths(2) [of sz] text_lengths(3) [OF assms(2)] length_oct [of 6 "of_nat (checksum h)"]
  show "length h = 512"
    using assms(1) o by (simp add: h_def raw_header_def length_put_text)
  then show "tar_header path mode uid gid sz mtime ty = Some (put_text h (148, oct 6 (of_nat (checksum h))))"
    using assms(1) o by (simp add: h_def raw_header_def tar_header_def sput_put_text length_put_text)
qed

lemma raw_header_fields:
  fixes mode uid gid sz mtime :: u32
  assumes "length path < 100" and "CHR 0x00 \<notin> set path" and "ty < 10"
  defines "h \<equiv> raw_header path mode uid gid sz mtime ty"
  shows "text_at h 0 100 = path" and "text_at h 124 12 = oct 11 sz"
    and "subarr h 148 8 = replicate 8 32" and "text_at h 156 1 = dec ty"
proof -
  note o = text_lengths(1) [of "mode AND 0x1FF"] text_lengths(1) [of uid] text_lengths(1) [of gid]
    text_lengths(1) [of mtime] text_lengths(2) [of sz] text_lengths(3) [OF assms(3)]
  have nul: "CHR 0x00 \<notin> set (oct 11 sz)" using oct_digits(2) [of sz 11] unat_u32_bound [of sz] by simp
  have "text_at h 0 100 = text_at (put_text (replicate 512 0) (0, path)) 0 100"
    using assms(1) o by (intro text_at_cong) (simp add: h_def raw_header_def length_put_text subarr_put_text)
  then show "text_at h 0 100 = path"
    using assms(1,2) by (simp add: text_at_put_text)
  let ?h5 = "foldl put_text (replicate 512 0) [(0, path), (100, oct 7 (mode AND 0x1FF)), (108, oct 7 uid), (116, oct 7 gid)]"
  have len5: "length ?h5 = 512" using assms(1) o by (simp add: length_put_text)
  have "text_at h 124 12 = text_at (put_text ?h5 (124, oct 11 sz)) 124 12"
    using assms(1) o by (intro text_at_cong) (simp add: h_def raw_header_def length_put_text subarr_put_text)
  then show "text_at h 124 12 = oct 11 sz"
    using text_at_put_text [of 124 "oct 11 sz" ?h5 12] nul len5 o by simp
  define g where "g = foldl put_text (replicate 512 0) [(0, path), (100, oct 7 (mode AND 0x1FF)), (108, oct 7 uid),
    (116, oct 7 gid), (124, oct 11 sz), (136, oct 7 mtime)]"
  have g: "length g = 512" "h = put_text g (148, ''        '' @ dec ty)"
    using assms(1) o by (simp_all add: g_def h_def raw_header_def length_put_text)
  show "subarr h 148 8 = replicate 8 32"
    using g by (simp add: put_text_def blit_def subarr_def bytes_def eval_nat_numeral)
  have "subarr h 156 1 = bytes (dec ty)"
    using g o(6) by (simp add: put_text_def blit_def subarr_def bytes_def)
  moreover have "CHR 0x00 \<notin> set (dec ty)"
  proof -
    have "digit_val CHR 0x00 = 36" by code_simp
    then show ?thesis using radix_digits [of 10 ty] by (force simp: list_all_iff)
  qed
  ultimately show "text_at h 156 1 = dec ty"
    using text_of_bytes [of "dec ty" "[]"] o(6) by (auto simp: text_at_def bytes_def)
qed

lemma header_read:
  assumes "length path < 100" and "CHR 0x00 \<notin> set path" and "ty < 10"
  shows "\<exists>h. tar_header path mode uid gid sz mtime ty = Some h \<and> length h = 512 \<and>
    text_at h 0 100 = path \<and> tar_size h = unat sz \<and> text_at h 156 1 = dec ty \<and> tar_checked h"
proof -
  define r where "r = raw_header path mode uid gid sz mtime ty"
  define v where "v = (of_nat (checksum r) :: u32)"
  define h where "h = put_text r (148, oct 6 v)"
  note raw = raw_header_fields [OF assms, of mode uid gid sz mtime, folded r_def]
  have w: "length r = 512" "tar_header path mode uid gid sz mtime ty = Some h"
    using tar_header_eq [OF assms(1,3)] by (simp_all add: r_def h_def v_def)
  have sum: "checksum r < 8 ^ 6" using checksum_bound [of r] w(1) by simp
  then have v: "unat v = checksum r" unfolding v_def by (intro unat_of_nat32) simp
  note o6 = oct_digits [of v 6]
  have o: "length (oct 6 v) = 6" "CHR 0x00 \<notin> set (oct 6 v)" "number 8 (oct 6 v) = checksum r"
    "\<forall>c \<in> set (oct 6 v). digit_val c < 8" using o6 sum v by simp_all
  have keep: "text_at h p n = text_at r p n" if "p + n \<le> 148 \<or> 154 < p" for p n
    unfolding h_def using that o(1) w(1) by (intro text_at_cong subarr_put_text) auto
  have "tar_size h = unat sz"
    using raw(2) oct_digits(3) [of sz 11] unat_u32_bound [of sz] by (simp add: tar_size_def keep)
  moreover have "tar_checked h"
  proof -
    have b: "blit h 148 (replicate 8 32) = r"
      using checksum_blit_back [OF w(1) raw(3), of "bytes (oct 6 v) @ [0]"] o(1) by (simp add: h_def put_text_def)
    have t: "text_at h 148 8 = oct 6 v" unfolding h_def using o w(1) by (intro text_at_put_text) auto
    have "takeWhile (\<lambda>c. digit_val c < 8) (oct 6 v) = oct 6 v" using o(4) by (simp add: takeWhile_eq_all_conv)
    then show ?thesis by (simp only: tar_checked_def b t o(3))
  qed
  moreover have "length h = 512" using w(1) o(1) by (simp add: h_def length_put_text)
  ultimately show ?thesis using w(2) raw keep by simp
qed

section \<open>The archive is read back\<close>

text \<open>
  What a file gives: its bytes up to and including the first read that returns fewer than 512.
\<close>

fun file_bytes :: "read_ret list \<Rightarrow> u8 list option" where
  "file_bytes [] = None"
| "file_bytes (Rd_err e # rs) = Some []"
| "file_bytes (Rd_ok bs # rs) =
    (if 512 \<le> length bs then map_option (\<lambda>cs. take 512 bs @ cs) (file_bytes rs) else Some bs)"

text \<open>An output that takes whole blocks.\<close>

definition takes_blocks :: "(nat \<Rightarrow> io_ret) \<Rightarrow> bool" where
  "takes_blocks wr \<longleftrightarrow> (\<forall>i. case wr i of Io_ok n \<Rightarrow> 512 \<le> n | Io_err e \<Rightarrow> False)"

lemma write_once_all:
  assumes "takes_blocks wr" and "length b \<le> 512" shows "write_once wr i b = Some b"
proof -
  have "case wr i of Io_ok n \<Rightarrow> 512 \<le> n | Io_err e \<Rightarrow> False" using assms(1) by (simp add: takes_blocks_def)
  then show ?thesis using assms(2) by (simp add: write_once_def split: io_ret.splits)
qed

lemma read_blocks_bytes:
  assumes "takes_blocks wr"
  shows "file_bytes rs = Some cs \<Longrightarrow>
    \<exists>blks. read_blocks rs = Some (blks, length cs) \<and>
      (\<forall>i. \<exists>j. dump_blocks wr i blks (length cs) =
        (cs @ replicate ((length cs + 511) div 512 * 512 - length cs) 0, j))"
proof (induction rs arbitrary: cs rule: file_bytes.induct)
  case (2 e rs)
  then show ?case by (auto simp: dump_blocks.simps [of _ _ _ 0])
next
  case (3 bs rs)
  show ?case
  proof (cases "512 \<le> length bs")
    case True
    then obtain ds where ds: "file_bytes rs = Some ds" "cs = take 512 bs @ ds" using "3.prems" by auto
    from "3.IH" [OF True ds(1)] obtain blks where b: "read_blocks rs = Some (blks, length ds)"
      "\<forall>i. \<exists>j. dump_blocks wr i blks (length ds) = (ds @ replicate ((length ds + 511) div 512 * 512 - length ds) 0, j)"
      by blast
    have l: "length cs = 512 + length ds" using True ds by simp
    then have "length cs + 511 = 512 + (length ds + 511)" by simp
    then have "(length cs + 511) div 512 = Suc ((length ds + 511) div 512)"
      using div_add_self1 [of 512 "length ds + 511"] by simp
    then have "(length cs + 511) div 512 * 512 - length cs = (length ds + 511) div 512 * 512 - length ds"
      by (simp only: l mult_Suc diff_add_inverse diff_cancel add_diff_cancel_left)
    moreover have "dump_blocks wr i (take 512 bs # blks) (length cs) =
        (let (outs, j) = dump_blocks wr (Suc i) blks (length ds) in (take 512 bs @ outs, j))" for i
      by (subst dump_blocks.simps) (simp add: l write_once_all [OF assms])
    moreover have "read_blocks (Rd_ok bs # rs) = Some (take 512 bs # blks, length cs)"
      using True b(1) l by (simp add: Let_def min_def)
    ultimately show ?thesis using b(2) ds(2) by (metis (mono_tags, lifting) append.assoc case_prod_conv)
  next
    case False
    then have cs: "cs = bs" using "3.prems" by simp
    show ?thesis
    proof (cases "bs = []")
      case True
      then show ?thesis using cs by (simp add: Let_def dump_blocks.simps)
    next
      case ne: False
      have "(length bs + 511) div 512 = 1" using False ne by (intro div_nat_eqI) (auto simp: Suc_le_eq)
      moreover have "length bs - 512 = 0" using False by simp
      ultimately show ?thesis
        using False ne cs
        by (simp add: Let_def min_def dump_blocks.simps [of _ _ "[_]"] dump_blocks.simps [of _ _ "[]"]
            write_once_all [OF assms])
    qed
  qed
qed simp

text \<open>A member of the archive, and the entry that the reader makes of it in front of any rest.\<close>

definition reads_as :: "writer \<Rightarrow> string \<times> string \<times> u8 list \<Rightarrow> bool" where
  "reads_as w e \<longleftrightarrow>
     (\<forall>i. \<exists>m j. w i = Some (m, j) \<and> (\<forall>rest. tar_read (m @ rest) = map_option (Cons e) (tar_read rest)))"

lemma in_sequence_read:
  "list_all2 reads_as ws es \<Longrightarrow> \<exists>out j. in_sequence ws i = Some (out, j) \<and> tar_read out = Some es"
proof (induction arbitrary: i rule: list_all2_induct)
  case Nil
  then show ?case by (simp add: tar_read.simps)
next
  case (Cons w ws e es)
  obtain m j where m: "w i = Some (m, j)" "\<forall>rest. tar_read (m @ rest) = map_option (Cons e) (tar_read rest)"
    using Cons.hyps(1) unfolding reads_as_def by blast
  obtain out k where "in_sequence ws j = Some (out, k)" "tar_read out = Some es" using Cons.IH [of j] by blast
  with m show ?case by simp
qed

lemma tar_read_member:
  assumes "length h = 512" and "tar_checked h" and "tar_size h = length cs"
    and "length pad = (length cs + 511) div 512 * 512 - length cs"
  shows "tar_read (h @ cs @ pad @ rest) = map_option (Cons (text_at h 0 100, text_at h 156 1, cs)) (tar_read rest)"
proof -
  have ne: "h \<noteq> []" using assms(1) by auto
  have "length cs \<le> (length cs + 511) div 512 * 512" by linarith
  then have "length (cs @ pad) = (length cs + 511) div 512 * 512" using assms(4) by simp
  then have "drop ((length cs + 511) div 512 * 512) (cs @ pad @ rest) = rest" by (metis append.assoc append_eq_conv_conj)
  then show ?thesis
    using assms(1-3) ne by (subst tar_read.simps) (simp add: Let_def)
qed

lemma archivefile_reads_as:
  assumes "takes_blocks wr" and "length path < 100" and "CHR 0x00 \<notin> set path"
    and "file_bytes rs = Some cs" and "length cs < 2 ^ 32"
  shows "reads_as (archivefile wr path s rs) (path, ''0'', cs)"
  unfolding reads_as_def
proof
  fix i
  obtain blks where b: "read_blocks rs = Some (blks, length cs)"
    "\<forall>i. \<exists>j. dump_blocks wr i blks (length cs) = (cs @ replicate ((length cs + 511) div 512 * 512 - length cs) 0, j)"
    using read_blocks_bytes [OF assms(1,4)] by blast
  then obtain j where j: "dump_blocks wr (Suc i) blks (length cs) =
      (cs @ replicate ((length cs + 511) div 512 * 512 - length cs) 0, j)" by blast
  obtain h where h: "tar_header path (st_mode s) (st_uid s) (st_gid s) (of_nat (length cs)) (st_mtime s) 0 = Some h"
    "length h = 512" "text_at h 0 100 = path" "tar_size h = length cs" "text_at h 156 1 = dec 0" "tar_checked h"
    using header_read [OF assms(2,3), of 0 "st_mode s" "st_uid s" "st_gid s" "of_nat (length cs)" "st_mtime s"] assms(5)
    by (auto simp: unat_of_nat32)
  have "dec 0 = ''0''" by code_simp
  then show "\<exists>m j. archivefile wr path s rs i = Some (m, j) \<and>
      (\<forall>rest. tar_read (m @ rest) = map_option (Cons (path, ''0'', cs)) (tar_read rest))"
    using b(1) j h tar_read_member [OF h(2,6,4)]
    by (simp add: archivefile_def writeheader_def write_once_all [OF assms(1)])
qed

lemma dir_reads_as:
  assumes "takes_blocks wr" and "length path < 100" and "CHR 0x00 \<notin> set path"
  shows "reads_as (writeheader wr path mode uid gid 0 mtime 5) (path, ''5'', [])"
proof -
  obtain h where h: "tar_header path mode uid gid 0 mtime 5 = Some h"
    "length h = 512" "text_at h 0 100 = path" "tar_size h = length ([] :: u8 list)" "text_at h 156 1 = dec 5" "tar_checked h"
    using header_read [OF assms(2,3), of 5 mode uid gid 0 mtime] by auto
  have "dec 5 = ''5''" by code_simp
  then show ?thesis
    using h tar_read_member [OF h(2,6,4), of "[]"]
    by (simp add: reads_as_def writeheader_def write_once_all [OF assms(1)])
qed

text \<open>What the reader should find: two files, and a directory with three files for every process.\<close>

definition file_entry :: "(string \<Rightarrow> read_ret list) \<Rightarrow> string \<Rightarrow> string \<times> string \<times> u8 list" where
  "file_entry contents p = (p, ''0'', the (file_bytes (contents p)))"

definition process_entries :: "(string \<Rightarrow> read_ret list) \<Rightarrow> string \<Rightarrow> (string \<times> string \<times> u8 list) list" where
  "process_entries contents n = [(n, ''5'', []), file_entry contents (n @ ''/smaps''),
     file_entry contents (n @ ''/cmdline''), file_entry contents (n @ ''/stat'')]"

text \<open>A file whose reads end, and whose size fits into the header.\<close>

definition finite_file :: "read_ret list \<Rightarrow> bool" where
  "finite_file rs \<longleftrightarrow> (case file_bytes rs of None \<Rightarrow> False | Some cs \<Rightarrow> length cs < 2 ^ 32)"

lemma finite_file_reads_as:
  "takes_blocks wr \<Longrightarrow> length p < 100 \<Longrightarrow> CHR 0x00 \<notin> set p \<Longrightarrow> finite_file (contents p) \<Longrightarrow>
    reads_as (archivefile wr p s (contents p)) (file_entry contents p)"
  by (auto simp: finite_file_def file_entry_def split: option.splits intro: archivefile_reads_as)

lemma process_reads_as:
  assumes "takes_blocks wr" and "length n < 91" and "CHR 0x00 \<notin> set n" and "\<And>p. finite_file (contents p)"
  shows "list_all2 reads_as (process_members wr stat contents n) (process_entries contents n)"
  using assms
  by (auto simp: process_members_def process_entries_def archivejoin_def intro!: dir_reads_as finite_file_reads_as)



end
