(* ===== verification/Calamares.thy ===== *)
theory Calamares
  imports User_Io C_Strings
begin

unbundle bit_operations_syntax

text \<open>
  The terminal relay, \<^verbatim>\<open>src/test_suite/calamares_bin.c\<close>: it takes a lock for a terminal, puts its own
  terminal into raw mode, and moves bytes both ways until one side is closed. The theory has the
  options, the lock, the terminal settings with the signal handlers as a state machine, and the
  forwarding loop.
\<close>

section \<open>The terminal settings\<close>

record termios =
  c_iflag :: u32
  c_oflag :: u32
  c_cflag :: u32
  c_lflag :: u32

abbreviation (input) ISIG :: u32 where "ISIG \<equiv> 0x1"
abbreviation (input) OPOST :: u32 where "OPOST \<equiv> 0x1"
abbreviation (input) ONLCR :: u32 where "ONLCR \<equiv> 0x4"

text \<open>\<^verbatim>\<open>cfmakeraw\<close> of the C library, and the settings the program uses.\<close>

definition cfmakeraw :: "termios \<Rightarrow> termios" where
  "cfmakeraw t = t\<lparr>c_iflag := c_iflag t AND NOT 0x5eb, c_oflag := c_oflag t AND NOT OPOST,
     c_lflag := c_lflag t AND NOT 0x804b, c_cflag := (c_cflag t AND NOT 0x130) OR 0x30\<rparr>"

record cal_opts =
  debug :: bool
  nlcr :: bool
  raw :: bool
  wait_tty :: bool
  ttyname :: string

definition new_settings :: "cal_opts \<Rightarrow> termios \<Rightarrow> termios" where
  "new_settings opt orig =
     (let t = (if raw opt then cfmakeraw orig else orig);
          t = t\<lparr>c_lflag := c_lflag t OR ISIG\<rparr> in
      if nlcr opt then t\<lparr>c_oflag := c_oflag t OR OPOST OR ONLCR\<rparr> else t)"

section \<open>Options\<close>

definition cal_opts0 :: cal_opts where
  "cal_opts0 = \<lparr>debug = False, nlcr = False, raw = True, wait_tty = False, ttyname = ''./tty1_ext''\<rparr>"

text \<open>The result of parsing: the exit status when the program ends here, or the options.\<close>

fun cal_parse :: "(char \<times> string) list \<Rightarrow> cal_opts \<Rightarrow> int + cal_opts" where
  "cal_parse [] opt = Inr opt"
| "cal_parse ((c, arg) # os) opt =
    (if c = CHR ''w'' then cal_parse os (opt\<lparr>wait_tty := True\<rparr>)
     else if c = CHR ''t'' then cal_parse os (opt\<lparr>ttyname := arg\<rparr>)
     else if c = CHR ''d'' then cal_parse os (opt\<lparr>debug := True\<rparr>)
     else if c = CHR ''n'' then cal_parse os (opt\<lparr>nlcr := True\<rparr>)
     else if c = CHR ''c'' then cal_parse os (opt\<lparr>raw := False\<rparr>)
     else if c = CHR ''h'' then Inl 0
     else Inl 1)"

section \<open>The lock\<close>

text \<open>
  \<^verbatim>\<open>verify_tty_file\<close>: the answers of \<^verbatim>\<open>access\<close>, one per call. The file is looked up once more after the
  first check; \<open>None\<close> means that the program is still waiting.
\<close>

fun wait_for_tty :: "bool list \<Rightarrow> int option" where
  "wait_for_tty [] = None"
| "wait_for_tty (ok # acc) = (if ok then Some 0 else wait_for_tty acc)"

definition verify_tty_file :: "cal_opts \<Rightarrow> bool list \<Rightarrow> int option" where
  "verify_tty_file opt acc =
     (if \<not> wait_tty opt then
        (case acc of
           [] \<Rightarrow> None
         | ok # acc \<Rightarrow> if \<not> ok then Some (- 1) else wait_for_tty acc)
      else wait_for_tty acc)"

text \<open>
  \<^verbatim>\<open>create_pid_file\<close>: the answers of \<^verbatim>\<open>open\<close>, of the lock, of \<^verbatim>\<open>ftruncate\<close> and of \<^verbatim>\<open>write\<close>; the result says
  whether the descriptor is still open, which is what holds the lock.
\<close>

record pid_env =
  pid_open :: bool
  pid_lock :: bool
  pid_trunc :: bool
  pid_write :: "nat \<Rightarrow> int"

definition create_pid_file :: "pid_env \<Rightarrow> nat \<Rightarrow> int \<times> bool" where
  "create_pid_file env pid =
     (if \<not> pid_open env then (- 1, False)
      else if \<not> pid_lock env then (- 1, False)
      else
        (let pid_str = snprintf_str 64 (dec pid) in
         if \<not> pid_trunc env then (- 1, True)
         else if pid_write env (length pid_str) \<noteq> int (length pid_str) then (- 1, False)
         else (0, True)))"

text \<open>
  The name of the lock file. The slashes are replaced in the first \<open>len\<close> places of the array of 1024
  characters, where \<open>len\<close> is the length of the path before it was cut to 511 characters; beyond the
  array the result is \<open>None\<close>.
\<close>

fun replace_slashes :: "nat \<Rightarrow> nat \<Rightarrow> string \<Rightarrow> string option" where
  "replace_slashes i 0 loc = Some loc"
| "replace_slashes i (Suc n) loc =
    (if i < length loc
     then replace_slashes (Suc i) n (if loc ! i = CHR ''/'' then loc[i := CHR ''-''] else loc)
     else None)"

definition c_str :: "string \<Rightarrow> string" where
  "c_str m = takeWhile (\<lambda>c. c \<noteq> CHR 0x00) m"

definition lock_file_name :: "string \<Rightarrow> string option" where
  "lock_file_name path =
     (let s = snprintf_str 512 path;
          location = s @ replicate (1024 - length s) CHR 0x00 in
      map_option (\<lambda>loc. snprintf_str 512 (''/var/run/calamares'' @ c_str loc @ ''.pid''))
        (replace_slashes 0 (length path) location))"

text \<open>\<^verbatim>\<open>lock_tty_file\<close>: the outer option is a program that waits or overruns the array.\<close>

definition lock_tty_file :: "cal_opts \<Rightarrow> bool list \<Rightarrow> string option \<Rightarrow> (string \<Rightarrow> pid_env) \<Rightarrow> nat \<Rightarrow> (int \<times> bool) option" where
  "lock_tty_file opt acc realpath pidfs pid =
     (case verify_tty_file opt acc of
        None \<Rightarrow> None
      | Some r \<Rightarrow>
          if r < 0 then Some (- 1, False)
          else (case realpath of
                  None \<Rightarrow> Some (- 1, False)
                | Some path \<Rightarrow> map_option (\<lambda>f. create_pid_file (pidfs f) pid) (lock_file_name path)))"

section \<open>Forwarding\<close>

text \<open>\<^verbatim>\<open>forward_data\<close>: the return value, what was written, and the answers that are left.\<close>

definition forward_data :: "read_ret list \<Rightarrow> io_ret list \<Rightarrow> (int \<times> u8 list \<times> read_ret list \<times> io_ret list) option" where
  "forward_data rs ws =
     (case safe_read_available rs 64 of
        None \<Rightarrow> None
      | Some (num_read, bs, rs) \<Rightarrow>
          if num_read \<le> 0 then Some (- 1, [], rs, ws)
          else
            (case cal_safe_write ws bs of
               None \<Rightarrow> None
             | Some (num_write, out, ws) \<Rightarrow> Some (if num_write < 0 then - 1 else 0, out, rs, ws)))"

text \<open>
  The main loop. An answer of \<^verbatim>\<open>select\<close> says which of the two descriptors are ready. When \<^verbatim>\<open>select\<close> fails,
  because a signal came, the sets still hold both descriptors, and the program treats both as ready.
  \<open>cal_io\<close> is what the two sides have answered and received.
\<close>

datatype sel_ret = Sel_ready bool bool | Sel_err

record cal_io =
  in_reads :: "read_ret list"
  tty_writes :: "io_ret list"
  tty_reads :: "read_ret list"
  out_writes :: "io_ret list"
  to_tty :: "u8 list"
  to_out :: "u8 list"

definition from_stdin :: "cal_io \<Rightarrow> (int \<times> cal_io) option" where
  "from_stdin io = map_option (\<lambda>(r, out, rs, ws).
     (r, io\<lparr>in_reads := rs, tty_writes := ws, to_tty := to_tty io @ out\<rparr>)) (forward_data (in_reads io) (tty_writes io))"

definition from_tty :: "cal_io \<Rightarrow> (int \<times> cal_io) option" where
  "from_tty io = map_option (\<lambda>(r, out, rs, ws).
     (r, io\<lparr>tty_reads := rs, out_writes := ws, to_out := to_out io @ out\<rparr>)) (forward_data (tty_reads io) (out_writes io))"

text \<open>The result: whether the loop ended, and the state of both sides; \<open>None\<close> while it waits.\<close>

fun cal_loop :: "sel_ret list \<Rightarrow> cal_io \<Rightarrow> (bool \<times> cal_io) option" where
  "cal_loop [] io = Some (False, io)"
| "cal_loop (sel # sels) io =
    (let (in_ready, tty_ready) = (case sel of Sel_ready a b \<Rightarrow> (a, b) | Sel_err \<Rightarrow> (True, True)) in
     case (if in_ready then from_stdin io else Some (0, io)) of
       None \<Rightarrow> None
     | Some (r, io) \<Rightarrow>
         if r \<noteq> 0 then Some (True, io)
         else
           (case (if tty_ready then from_tty io else Some (0, io)) of
              None \<Rightarrow> None
            | Some (r, io) \<Rightarrow> if r \<noteq> 0 then Some (True, io) else cal_loop sels io))"

section \<open>The terminal and the signals\<close>

text \<open>
  The process runs, is stopped, or has ended. \<open>tty\<close> are the settings of the terminal, \<open>orig_termios\<close>
  what the program remembers, and for the two job-control signals whether its own handler is
  installed or the default action.
\<close>

datatype proc = Running | Stopped | Ended

record cal_state =
  proc_state :: proc
  tty :: termios
  orig_termios :: termios
  handlers_installed :: bool
  tstp_handled :: bool
  cont_handled :: bool

definition install_signal_handler :: "cal_state \<Rightarrow> cal_state" where
  "install_signal_handler s = s\<lparr>tstp_handled := True, cont_handled := True\<rparr>"

text \<open>Whether \<^verbatim>\<open>tcgetattr\<close> and \<^verbatim>\<open>tcsetattr\<close> succeed. Each routine returns 0, or 1 when a call failed.\<close>

record tc_env =
  tc_get :: bool
  tc_set :: bool

definition tty_setup :: "cal_opts \<Rightarrow> tc_env \<Rightarrow> cal_state \<Rightarrow> int \<times> cal_state" where
  "tty_setup opt tc s =
     (if \<not> tc_get tc then (1, s)
      else
        (let s = s\<lparr>orig_termios := tty s\<rparr>;
             s = (if \<not> handlers_installed s then (install_signal_handler s)\<lparr>handlers_installed := True\<rparr> else s) in
         if \<not> tc_set tc then (1, s) else (0, s\<lparr>tty := new_settings opt (orig_termios s)\<rparr>)))"

definition tty_restore :: "tc_env \<Rightarrow> cal_state \<Rightarrow> int \<times> cal_state" where
  "tty_restore tc s = (if \<not> tc_set tc then (1, s) else (0, s\<lparr>tty := orig_termios s\<rparr>))"

datatype signum = SIGTSTP | SIGCONT | SIGQUIT | SIGINT | SIGTERM

text \<open>
  The handler. The signal it raises is delivered when it returns and then has its original
  effect: the process stops, goes on, or ends.
\<close>

definition signal_handler :: "cal_opts \<Rightarrow> tc_env \<Rightarrow> signum \<Rightarrow> cal_state \<Rightarrow> cal_state" where
  "signal_handler opt tc sig s = (case sig of
     SIGTSTP \<Rightarrow> (snd (tty_restore tc s))\<lparr>cont_handled := True, tstp_handled := False, proc_state := Stopped\<rparr>
   | SIGCONT \<Rightarrow> (snd (tty_setup opt tc s))\<lparr>tstp_handled := True, cont_handled := False, proc_state := Running\<rparr>
   | SIGQUIT \<Rightarrow> (snd (tty_restore tc s))\<lparr>proc_state := Ended\<rparr>
   | SIGINT \<Rightarrow> (snd (tty_restore tc s))\<lparr>proc_state := Ended\<rparr>
   | SIGTERM \<Rightarrow> (snd (tty_restore tc s))\<lparr>proc_state := Ended\<rparr>)"

text \<open>
  The main program around the loop: the lock, the terminal and its settings, and the restoration at
  the end. \<open>cal_start\<close> gives the exit status when it ends early.
\<close>

definition cal_start :: "cal_opts \<Rightarrow> (int \<times> bool) \<Rightarrow> bool \<Rightarrow> tc_env \<Rightarrow> termios \<Rightarrow> int + cal_state" where
  "cal_start opt lock open_ok tc t =
     (if fst lock < 0 then Inl 1
      else if \<not> open_ok then Inl 1
      else
        (let (r, s) = tty_setup opt tc \<lparr>proc_state = Running, tty = t, orig_termios = t, handlers_installed = False,
               tstp_handled = False, cont_handled = False\<rparr> in
         if r \<noteq> 0 then Inl 1 else Inr s))"

definition cal_exit :: "tc_env \<Rightarrow> cal_state \<Rightarrow> cal_state" where
  "cal_exit tc s = (snd (tty_restore tc s))\<lparr>proc_state := Ended\<rparr>"

section \<open>The settings the shell gets back\<close>

text \<open>
  What can happen to the process: a signal, the end of the loop, and, while the process is stopped,
  other settings made by the shell. \<open>Ev_sigstop\<close> is the stop that cannot be caught. The second
  component is the settings the terminal has outside of the program. The terminal calls succeed.
\<close>

abbreviation (input) tc_ok :: tc_env where "tc_ok \<equiv> \<lparr>tc_get = True, tc_set = True\<rparr>"

datatype cal_ev = Ev_tstp | Ev_cont | Ev_kill signum | Ev_shell termios | Ev_sigstop | Ev_exit

inductive cal_step :: "cal_opts \<Rightarrow> cal_ev \<Rightarrow> cal_state \<times> termios \<Rightarrow> cal_state \<times> termios \<Rightarrow> bool" for opt where
  tstp: "proc_state s = Running \<Longrightarrow> tstp_handled s \<Longrightarrow>
    cal_step opt Ev_tstp (s, t) (signal_handler opt tc_ok SIGTSTP s, t)"
| cont: "proc_state s \<noteq> Ended \<Longrightarrow> cont_handled s \<Longrightarrow>
    cal_step opt Ev_cont (s, t) (signal_handler opt tc_ok SIGCONT s, t)"
| cont_default: "proc_state s \<noteq> Ended \<Longrightarrow> \<not> cont_handled s \<Longrightarrow>
    cal_step opt Ev_cont (s, t) (s\<lparr>proc_state := Running\<rparr>, t)"
| kill: "proc_state s = Running \<Longrightarrow> sig \<in> {SIGQUIT, SIGINT, SIGTERM} \<Longrightarrow>
    cal_step opt (Ev_kill sig) (s, t) (signal_handler opt tc_ok sig s, t)"
| shell: "proc_state s = Stopped \<Longrightarrow> cal_step opt (Ev_shell t') (s, t) (s\<lparr>tty := t'\<rparr>, t')"
| sigstop: "proc_state s = Running \<Longrightarrow> cal_step opt Ev_sigstop (s, t) (s\<lparr>proc_state := Stopped\<rparr>, t)"
| exit: "proc_state s = Running \<Longrightarrow> cal_step opt Ev_exit (s, t) (cal_exit tc_ok s, t)"

text \<open>An orderly event: no stop that cannot be caught, and no continue signal without a stop.\<close>

definition orderly :: "cal_ev \<Rightarrow> cal_state \<Rightarrow> bool" where
  "orderly e s \<longleftrightarrow> e \<noteq> Ev_sigstop \<and> (e = Ev_cont \<longrightarrow> proc_state s = Stopped)"

inductive cal_reach :: "cal_opts \<Rightarrow> cal_state \<times> termios \<Rightarrow> bool" for opt where
  start: "cal_start opt (0, True) True tc_ok t = Inr s \<Longrightarrow> cal_reach opt (s, t)"
| step: "cal_reach opt (s, t) \<Longrightarrow> cal_step opt e (s, t) st' \<Longrightarrow> orderly e s \<Longrightarrow> cal_reach opt st'"

inductive_cases cal_step_E: "cal_step opt e (s, t) st'"

definition cal_inv :: "cal_opts \<Rightarrow> cal_state \<times> termios \<Rightarrow> bool" where
  "cal_inv opt st = (let (s, t) = st in handlers_installed s \<and> (case proc_state s of
     Running \<Rightarrow> orig_termios s = t \<and> tty s = new_settings opt t \<and> tstp_handled s
   | Stopped \<Rightarrow> tty s = t \<and> cont_handled s
   | Ended \<Rightarrow> tty s = t))"

lemmas cal_defs = cal_inv_def signal_handler_def tty_restore_def tty_setup_def cal_exit_def
  install_signal_handler_def Let_def

lemma cal_reach_inv: "cal_reach opt st \<Longrightarrow> cal_inv opt st"
proof (induction rule: cal_reach.induct)
  case (start t s)
  then show ?case by (auto simp: cal_start_def cal_defs)
next
  case (step s t e st')
  from step.hyps(2) show ?case
    by (rule cal_step_E) (use step in \<open>auto simp: cal_defs orderly_def split: proc.splits\<close>)
qed

text \<open>
  C11. Whatever orderly sequence of stops, continues, terminating signals and the normal end happens,
  also when the shell changes the settings while the process is stopped: the terminal has the
  program's settings exactly while it runs, and the settings it has outside of the program whenever the
  program is stopped or has ended.
\<close>

theorem cal_tty_restored:
  assumes "cal_reach opt (s, t)"
  shows "tty s = (if proc_state s = Running then new_settings opt t else t)"
  using cal_reach_inv [OF assms] by (auto simp: cal_inv_def split: proc.splits)

definition cooked :: termios where
  "cooked = \<lparr>c_iflag = 0x500, c_oflag = 0x5, c_cflag = 0xbf, c_lflag = 0x8a3b\<rparr>"

definition cal_run0 :: cal_state where
  "cal_run0 = \<lparr>proc_state = Running, tty = new_settings cal_opts0 cooked, orig_termios = cooked, handlers_installed = True,
     tstp_handled = True, cont_handled = True\<rparr>"

lemma cal_start_run0: "cal_start cal_opts0 (0, True) True tc_ok cooked = Inr cal_run0"
  by (simp add: cal_start_def cal_defs cal_run0_def)

theorem cal_tty_restored_witness:
  "\<exists>s. cal_reach cal_opts0 (s, cooked) \<and> proc_state s = Ended \<and> tty s = cooked"
proof -
  have r0: "cal_reach cal_opts0 (cal_run0, cooked)" using cal_start_run0 by (rule cal_reach.start)
  let ?s1 = "signal_handler cal_opts0 tc_ok SIGTSTP cal_run0"
  have r1: "cal_reach cal_opts0 (?s1, cooked)"
    by (rule cal_reach.step [OF r0 cal_step.tstp]) (simp_all add: cal_run0_def orderly_def)
  let ?s2 = "signal_handler cal_opts0 tc_ok SIGCONT ?s1"
  have r2: "cal_reach cal_opts0 (?s2, cooked)"
    by (rule cal_reach.step [OF r1 cal_step.cont]) (simp_all add: cal_run0_def orderly_def cal_defs)
  let ?s3 = "signal_handler cal_opts0 tc_ok SIGINT ?s2"
  have r3: "cal_reach cal_opts0 (?s3, cooked)"
    by (rule cal_reach.step [OF r2 cal_step.kill]) (simp_all add: cal_run0_def orderly_def cal_defs)
  have "proc_state ?s3 = Ended" by (simp add: signal_handler_def)
  with r3 cal_tty_restored [OF r3] show ?thesis by auto
qed

text \<open>
  A continue signal without a stop that was handled, for instance after \<^verbatim>\<open>SIGSTOP\<close>, makes the program remember its own
  settings as the original ones: after the next interrupt the terminal is left in raw mode.
\<close>

theorem cal_stray_cont:
  "\<exists>s1 s2 s3. cal_step cal_opts0 Ev_sigstop (cal_run0, cooked) (s1, cooked) \<and>
    cal_step cal_opts0 Ev_cont (s1, cooked) (s2, cooked) \<and>
    cal_step cal_opts0 (Ev_kill SIGINT) (s2, cooked) (s3, cooked) \<and>
    proc_state s3 = Ended \<and> tty s3 = new_settings cal_opts0 cooked \<and> tty s3 \<noteq> cooked"
proof -
  let ?s1 = "cal_run0\<lparr>proc_state := Stopped\<rparr>"
  let ?s2 = "signal_handler cal_opts0 tc_ok SIGCONT ?s1"
  let ?s3 = "signal_handler cal_opts0 tc_ok SIGINT ?s2"
  have 1: "cal_step cal_opts0 Ev_sigstop (cal_run0, cooked) (?s1, cooked)"
    by (rule cal_step.sigstop) (simp add: cal_run0_def)
  have 2: "cal_step cal_opts0 Ev_cont (?s1, cooked) (?s2, cooked)"
    by (rule cal_step.cont) (simp_all add: cal_run0_def)
  have 3: "cal_step cal_opts0 (Ev_kill SIGINT) (?s2, cooked) (?s3, cooked)"
    by (rule cal_step.kill) (simp_all add: signal_handler_def)
  have "tty ?s3 = new_settings cal_opts0 cooked"
    by (simp add: signal_handler_def tty_restore_def tty_setup_def Let_def cal_run0_def)
  moreover have "new_settings cal_opts0 cooked \<noteq> cooked" by code_simp
  moreover have "proc_state ?s3 = Ended" by (simp add: signal_handler_def)
  ultimately show ?thesis using 1 2 3 by metis
qed

section \<open>What the loop forwards\<close>

text \<open>A terminal gives at most what was asked for.\<close>

definition small_reads :: "read_ret list \<Rightarrow> bool" where
  "small_reads rs \<longleftrightarrow> list_all (\<lambda>r. case r of Rd_ok bs \<Rightarrow> length bs \<le> 64 | Rd_err e \<Rightarrow> True) rs"

lemma small_reads_Cons [simp]:
  "small_reads (Rd_ok bs # rs) \<longleftrightarrow> length bs \<le> 64 \<and> small_reads rs"
  "small_reads (Rd_err e # rs) \<longleftrightarrow> small_reads rs" "small_reads []"
  by (simp_all add: small_reads_def)

lemma read_available_offered:
  "safe_read_available rs 64 = Some (r, bs, rs') \<Longrightarrow> small_reads rs \<Longrightarrow>
    bs @ offered rs' = offered rs \<and> small_reads rs' \<and> (r \<le> 0 \<longrightarrow> bs = [])"
  by (induction rs "64 :: nat" rule: safe_read_available.induct) (auto split: if_splits)

text \<open>A side whose writer takes everything the reader may still offer.\<close>

definition flows :: "read_ret list \<Rightarrow> io_ret list \<Rightarrow> bool" where
  "flows rs ws \<longleftrightarrow> small_reads rs \<and> willing (\<lambda>e. e = EINTR) ws \<and> length (offered rs) \<le> oks ws"

lemma forward_data_flows:
  assumes "flows rs ws" and "forward_data rs ws = Some (r, out, rs', ws')"
  shows "out @ offered rs' = offered rs \<and> flows rs' ws'"
proof -
  obtain n bs rs1 where rd: "safe_read_available rs 64 = Some (n, bs, rs1)"
    using assms(2) by (auto simp: forward_data_def split: option.splits)
  note off = read_available_offered [OF rd]
  show ?thesis
  proof (cases "n \<le> 0")
    case True
    then show ?thesis using assms rd off by (auto simp: forward_data_def flows_def)
  next
    case False
    have len: "length (offered rs) = length bs + length (offered rs1)"
      using off assms(1) by (metis flows_def length_append)
    then have "length bs \<le> oks ws" using assms(1) by (simp add: flows_def)
    then obtain ws1 where w: "write_all (\<lambda>e. e = EINTR) ws bs [] = Some (None, bs, ws1)"
      "willing (\<lambda>e. e = EINTR) ws1" "oks ws \<le> oks ws1 + length bs"
      using write_all_progress [of "\<lambda>e. e = EINTR" ws bs "[]"] assms(1) by (auto simp: flows_def)
    show ?thesis
      using False assms rd off w len by (auto simp: forward_data_def flows_def cal_safe_write_def)
  qed
qed

text \<open>
  C29. The relay loses and repeats nothing: as long as both writers take bytes, however \<^verbatim>\<open>select\<close> answers
  and whatever reads are interrupted, what has been written to the terminal followed by what the standard
  input still offers is always the same sequence of bytes, and likewise for the other direction.
\<close>

theorem cal_conserves:
  assumes "flows (in_reads io) (tty_writes io)" and "flows (tty_reads io) (out_writes io)"
    and "cal_loop sels io = Some (fin, io')"
  shows "to_tty io' @ offered (in_reads io') = to_tty io @ offered (in_reads io) \<and>
    to_out io' @ offered (tty_reads io') = to_out io @ offered (tty_reads io)"
  using assms
proof (induction sels arbitrary: io)
  case (Cons sel sels)
  obtain a b where ab: "(case sel of Sel_ready a b \<Rightarrow> (a, b) | Sel_err \<Rightarrow> (True, True)) = (a, b)" by fastforce
  let ?J = "\<lambda>i. flows (in_reads i) (tty_writes i) \<and> flows (tty_reads i) (out_writes i) \<and>
    to_tty i @ offered (in_reads i) = to_tty io @ offered (in_reads io) \<and>
    to_out i @ offered (tty_reads i) = to_out io @ offered (tty_reads io)"
  have J: "?J io" using Cons.prems by simp
  have in_step: "?J i'" if "?J i" "(if a then from_stdin i else Some (0, i)) = Some (r, i')" for i i' r
    using that forward_data_flows [of "in_reads i" "tty_writes i"]
    by (auto simp: from_stdin_def split: if_splits)
  have tty_step: "?J i'" if "?J i" "(if b then from_tty i else Some (0, i)) = Some (r, i')" for i i' r
    using that forward_data_flows [of "tty_reads i" "out_writes i"]
    by (auto simp: from_tty_def split: if_splits)
  obtain r1 i1 where i1: "(if a then from_stdin io else Some (0, io)) = Some (r1, i1)"
    using Cons.prems(3) ab by (cases "if a then from_stdin io else Some (0, io)") auto
  note J1 = in_step [OF J i1]
  show ?case
  proof (cases "r1 = 0")
    case False
    then show ?thesis using Cons.prems(3) ab i1 J1 by simp
  next
    case True
    obtain r2 i2 where i2: "(if b then from_tty i1 else Some (0, i1)) = Some (r2, i2)"
      using Cons.prems(3) ab i1 True by (cases "if b then from_tty i1 else Some (0, i1)") auto
    note J2 = tty_step [OF J1 i2]
    show ?thesis
    proof (cases "r2 = 0")
      case False
      then show ?thesis using Cons.prems(3) ab i1 i2 True J2 by simp
    next
      case z: True
      then have "cal_loop sels i2 = Some (fin, io')" using Cons.prems(3) ab i1 i2 True by simp
      with Cons.IH [of i2] J2 show ?thesis by simp
    qed
  qed
qed simp

theorem cal_conserves_witness:
  "\<exists>io'. cal_loop [Sel_ready True False, Sel_ready False True]
      \<lparr>in_reads = [Rd_ok [1, 2]], tty_writes = [Io_ok 1, Io_ok 1], tty_reads = [Rd_err EINTR, Rd_ok [3]], out_writes = [Io_ok 1],
        to_tty = [], to_out = []\<rparr> = Some (False, io') \<and>
    to_tty io' @ offered (in_reads io') = [1, 2] \<and> to_out io' @ offered (tty_reads io') = [3]"
proof -
  let ?io = "\<lparr>in_reads = [Rd_ok [1, 2]], tty_writes = [Io_ok 1, Io_ok 1], tty_reads = [Rd_err EINTR, Rd_ok [3]],
    out_writes = [Io_ok 1], to_tty = [], to_out = []\<rparr>"
  obtain io' where l: "cal_loop [Sel_ready True False, Sel_ready False True] ?io = Some (False, io')"
    by (simp add: from_stdin_def from_tty_def forward_data_def cal_safe_write_def)
  with cal_conserves [OF _ _ l] show ?thesis by (simp add: flows_def)
qed

section \<open>The name of the lock\<close>

definition dashed :: "char \<Rightarrow> char" where
  "dashed c = (if c = CHR ''/'' then CHR ''-'' else c)"

lemma replace_slashes_map:
  "i + n \<le> length loc \<Longrightarrow>
    replace_slashes i n loc = Some (take i loc @ map dashed (take n (drop i loc)) @ drop (i + n) loc)"
proof (induction i n loc rule: replace_slashes.induct)
  case (2 i n loc)
  let ?loc = "loc[i := dashed (loc ! i)]"
  have eq: "(if loc ! i = CHR ''/'' then loc[i := CHR ''-''] else loc) = ?loc" by (simp add: dashed_def)
  have "replace_slashes i (Suc n) loc = replace_slashes (Suc i) n ?loc" using "2.prems" by (simp add: eq)
  also have "\<dots> = Some (take (Suc i) ?loc @ map dashed (take n (drop (Suc i) ?loc)) @ drop (Suc i + n) ?loc)"
    using "2.IH" "2.prems" unfolding eq by simp
  finally show ?case
    using "2.prems" by (simp add: take_Suc_conv_app_nth drop_update_cancel Cons_nth_drop_Suc [symmetric])
qed simp

lemma replace_slashes_overrun: "length loc < i + n \<Longrightarrow> i \<le> length loc \<Longrightarrow> replace_slashes i n loc = None"
  by (induction i n loc rule: replace_slashes.induct) auto

lemma lock_file_name_eq:
  assumes "length path \<le> 489" and "CHR 0x00 \<notin> set path"
  shows "lock_file_name path = Some (''/var/run/calamares'' @ map dashed path @ ''.pid'')"
proof -
  have nz: "dashed c \<noteq> CHR 0x00" if "c \<in> set path" for c
    using that assms(2) by (auto simp: dashed_def)
  then have "takeWhile (\<lambda>c. c \<noteq> CHR 0x00) (map dashed path @ ys) = map dashed path @ takeWhile (\<lambda>c. c \<noteq> CHR 0x00) ys" for ys
    by (intro takeWhile_append2) auto
  then have "c_str (map dashed path @ replicate k CHR 0x00) = map dashed path" for k
    using nz by (cases k) (simp_all add: c_str_def)
  then show ?thesis
    using assms(1) by (simp add: lock_file_name_def snprintf_str_def replace_slashes_map Let_def)
qed

text \<open>
  Two programs on different terminals do not exclude each other and two on the same do: for paths
  of up to 489 characters without a dash the lock files are the same exactly when the paths are. From
  1025 characters on the loop that makes the name runs past its array.
\<close>

theorem cal_lock_name:
  assumes "CHR ''-'' \<notin> set p" and "CHR ''-'' \<notin> set q" and "CHR 0x00 \<notin> set p" and "CHR 0x00 \<notin> set q"
    and "length p \<le> 489" and "length q \<le> 489" and "1024 < length r"
  shows "(lock_file_name p = lock_file_name q \<longleftrightarrow> p = q) \<and> lock_file_name r = None"
proof -
  have "map dashed p = map dashed q \<Longrightarrow> p = q"
  proof (rule map_inj_on)
    show "inj_on dashed (set p \<union> set q)" using assms(1,2) by (auto simp: inj_on_def dashed_def split: if_splits)
  qed
  moreover have "lock_file_name r = None"
    using assms(7) by (simp add: lock_file_name_def snprintf_str_def replace_slashes_overrun Let_def)
  ultimately show ?thesis
    using assms(3-6) by (auto simp: lock_file_name_eq)
qed

theorem cal_lock_name_witness:
  "lock_file_name ''/dev/pts/1'' \<noteq> lock_file_name ''/dev/pts/2'' \<and> lock_file_name (replicate 1025 CHR ''x'') = None"
  using cal_lock_name [of "''/dev/pts/1''" "''/dev/pts/2''" "replicate 1025 CHR ''x''"] by simp

section \<open>The main program\<close>

text \<open>
  The whole program without signals: its options, the answers of the system, the settings of its terminal and the two sides
  of the relay. The result is the exit status, the settings the terminal is left with, and the state of the relay; \<open>None\<close> means
  that the program is still running.
\<close>

record cal_env =
  ce_access :: "bool list"
  ce_realpath :: "string option"
  ce_pidfs :: "string \<Rightarrow> pid_env"
  ce_pid :: nat
  ce_open :: bool
  ce_tc :: tc_env

definition cal_main :: "cal_env \<Rightarrow> (char \<times> string) list \<Rightarrow> termios \<Rightarrow> sel_ret list \<Rightarrow> cal_io \<Rightarrow> (int \<times> termios \<times> cal_io) option" where
  "cal_main env os t sels io =
     (case cal_parse os cal_opts0 of
        Inl status \<Rightarrow> Some (status, t, io)
      | Inr opt \<Rightarrow>
          (case lock_tty_file opt (ce_access env) (ce_realpath env) (ce_pidfs env) (ce_pid env) of
             None \<Rightarrow> None
           | Some lock \<Rightarrow>
               (case cal_start opt lock (ce_open env) (ce_tc env) t of
                  Inl status \<Rightarrow> Some (status, t, io)
                | Inr s \<Rightarrow>
                    (case cal_loop sels io of
                       None \<Rightarrow> None
                     | Some (ended, io) \<Rightarrow>
                         if ended then Some (0, tty (cal_exit (ce_tc env) s), io) else None))))"

lemma cal_parse_status: "cal_parse os opt = Inl st \<Longrightarrow> st = 0 \<or> st = 1"
  by (induction os opt rule: cal_parse.induct) (auto split: if_splits)

text \<open>
  When the program ends, its terminal has the settings it had before, on every path. The exit status is 0 or 1; with 1
  nothing was forwarded. With 0 either the help was asked for, or the lock was obtained and one side of the relay is closed.
\<close>

theorem cal_main_ends:
  assumes "cal_main env os t sels io = Some (st, t', io')"
  shows "t' = t \<and> (st = 0 \<or> st = 1) \<and> (st = 1 \<longrightarrow> io' = io) \<and>
    (st = 0 \<longrightarrow> cal_parse os cal_opts0 = Inl 0 \<and> io' = io \<or>
      (\<exists>opt l. cal_parse os cal_opts0 = Inr opt \<and>
        lock_tty_file opt (ce_access env) (ce_realpath env) (ce_pidfs env) (ce_pid env) = Some l \<and> 0 \<le> fst l \<and>
        cal_loop sels io = Some (True, io')))"
proof (cases "cal_parse os cal_opts0")
  case (Inl status)
  with assms cal_parse_status [OF Inl] show ?thesis by (auto simp: cal_main_def)
next
  case (Inr opt)
  with assms show ?thesis
    by (auto simp: cal_main_def cal_start_def cal_exit_def tty_setup_def tty_restore_def install_signal_handler_def Let_def
        split: option.splits sum.splits prod.splits if_splits)
qed

end
