(* ===== verification/Uio.thy ===== *)
theory Uio
  imports Ldd_Prelude
begin

text \<open>
  The user-space I/O driver, \<^verbatim>\<open>src/uio/uio.c\<close>, and the interrupt example,
  \<^verbatim>\<open>src/simple_interrupt/simple_interrup.c\<close>: what they acquire and what they release again.
\<close>

section \<open>The UIO driver\<close>

text \<open>
  What the kernel answers, and what the driver holds: the allocations bound to the device, the
  mapped registers, the registered UIO devices and the driver data.
\<close>

record uio_kernel =
  kz_platdata :: bool
  kz_uioinfo :: bool
  kz_name :: bool
  of_resource :: "(u32 \<times> u32) option"
  of_iomap :: "u32 option"
  of_irq :: int
  uio_register :: int

record uio_info =
  ui_name :: string
  ui_version :: string
  ui_irq :: int
  mem_addr :: u32
  mem_size :: u32
  internal_addr :: "u32 option"

datatype uio_alloc = A_platdata | A_uioinfo | A_name

record uio_sys =
  allocs :: "uio_alloc list"
  mapped :: "u32 list"
  uio_devs :: "uio_info list"
  uio_drvdata :: "uio_info option"

text \<open>The handlers only print a message; the interrupt is handled, the control call succeeds.\<close>

abbreviation (input) IRQ_HANDLED :: int where "IRQ_HANDLED \<equiv> 1"

definition ldd_uio_irq_handler :: "int \<Rightarrow> int" where
  "ldd_uio_irq_handler irq = IRQ_HANDLED"

definition ldd_uio_irqcontrol :: "int \<Rightarrow> int" where
  "ldd_uio_irqcontrol irq_on = 0"

text \<open>The common end of a failing probe: the allocations that succeeded are freed.\<close>

definition uio_fail :: "uio_sys \<Rightarrow> int \<times> uio_sys" where
  "uio_fail s = (- ENODEV, s\<lparr>allocs := filter (\<lambda>a. a \<notin> {A_platdata, A_uioinfo, A_name}) (allocs s)\<rparr>)"

definition ldd_uio_probe :: "uio_kernel \<Rightarrow> int \<Rightarrow> uio_sys \<Rightarrow> int \<times> uio_sys" where
  "ldd_uio_probe k uio_irq s =
     (let s = (if kz_platdata k then s\<lparr>allocs := A_platdata # allocs s\<rparr> else s);
          s = (if kz_uioinfo k then s\<lparr>allocs := A_uioinfo # allocs s\<rparr> else s);
          s = (if kz_name k then s\<lparr>allocs := A_name # allocs s\<rparr> else s) in
      if \<not> kz_uioinfo k \<or> \<not> kz_platdata k \<or> \<not> kz_name k then uio_fail s
      else
        (case of_resource k of
           None \<Rightarrow> uio_fail s
         | Some (start, end') \<Rightarrow>
             (case of_iomap k of
                None \<Rightarrow> uio_fail s
              | Some va \<Rightarrow>
                  (let s = s\<lparr>mapped := va # mapped s\<rparr>;
                       irq = (if 0 < uio_irq then uio_irq else of_irq k);
                       info = \<lparr>ui_name = take 15 ''ldd_uio_drv'', ui_version = ''0.0.1'', ui_irq = irq,
                         mem_addr = start, mem_size = end' - start + 1, internal_addr = Some va\<rparr>;
                       s = s\<lparr>uio_drvdata := Some info\<rparr> in
                   if uio_register k \<noteq> 0 then uio_fail s
                   else (0, s\<lparr>uio_devs := info # uio_devs s\<rparr>)))))"

text \<open>
  \<^verbatim>\<open>remove\<close>. The driver core then frees what is still bound to the device, \<open>devm_release\<close>, as it also
  does after a failing probe.
\<close>

definition ldd_uio_remove :: "uio_sys \<Rightarrow> (int \<times> uio_sys) option" where
  "ldd_uio_remove s =
     (case uio_drvdata s of
        None \<Rightarrow> None
      | Some info \<Rightarrow>
          Some (0, s\<lparr>uio_devs := remove1 info (uio_devs s),
                     mapped := (case internal_addr info of None \<Rightarrow> mapped s | Some va \<Rightarrow> remove1 va (mapped s)),
                     allocs := remove1 A_uioinfo (allocs s)\<rparr>))"

definition devm_release :: "uio_sys \<Rightarrow> uio_sys" where
  "devm_release s = s\<lparr>allocs := []\<rparr>"

definition ldd_uio_init :: "int \<Rightarrow> int" where
  "ldd_uio_init platform_driver_register = platform_driver_register"

section \<open>The interrupt example\<close>

text \<open>The interrupt lines that are requested, each with the address that identifies the handler.\<close>

definition intr_handler :: "int \<Rightarrow> int" where
  "intr_handler irq = IRQ_HANDLED"

definition simple_interrupt_init :: "int \<Rightarrow> int \<Rightarrow> (int \<times> string) list \<Rightarrow> int \<times> (int \<times> string) list" where
  "simple_interrupt_init request_ret the_irq irqs =
     (request_ret, if request_ret = 0 then (the_irq, ''the_irq'') # irqs else irqs)"

definition simple_interrupt_exit :: "int \<Rightarrow> (int \<times> string) list \<Rightarrow> (int \<times> string) list" where
  "simple_interrupt_exit the_irq irqs = remove1 (the_irq, ''the_irq'') irqs"

section \<open>The theorems\<close>

definition uio_idle :: uio_sys where
  "uio_idle = \<lparr>allocs = [], mapped = [], uio_devs = [], uio_drvdata = None\<rparr>"

text \<open>
  Probing either fails with \<^verbatim>\<open>-ENODEV\<close> and no allocation left, or registers one UIO device that
  shows exactly the device's registers, with the interrupt of the module parameter if it is
  positive and that of the device tree otherwise. Removing it gives everything back. When only the registration fails,
  the registers stay mapped.
\<close>

theorem uio_lifecycle:
  "(let (r, s) = ldd_uio_probe k uio_irq uio_idle in
    if r = 0 then
      \<exists>info start end'. of_resource k = Some (start, end') \<and> uio_devs s = [info] \<and> mem_addr info = start \<and>
        mem_addr info + (mem_size info - 1) = end' \<and>
        ui_irq info = (if 0 < uio_irq then uio_irq else of_irq k) \<and>
        (\<exists>s'. ldd_uio_remove s = Some (0, s') \<and> uio_devs s' = [] \<and> mapped s' = [] \<and> allocs (devm_release s') = [])
    else r = - ENODEV \<and> uio_devs s = [] \<and> allocs s = [] \<and>
      (mapped s \<noteq> [] \<longleftrightarrow> kz_platdata k \<and> kz_uioinfo k \<and> kz_name k \<and> of_resource k \<noteq> None \<and> of_iomap k \<noteq> None \<and>
        uio_register k \<noteq> 0))"
  by (auto simp: ldd_uio_probe_def ldd_uio_remove_def uio_fail_def uio_idle_def devm_release_def Let_def split: option.splits)

text \<open>
  The shared interrupt is released again by the module's exit, and only that one.
\<close>

lemma simple_interrupt_lifecycle:
  "simple_interrupt_init r irq irqs = (0, irqs') \<Longrightarrow> simple_interrupt_exit irq irqs' = irqs"
  by (auto simp: simple_interrupt_init_def simple_interrupt_exit_def)

end
