(* ===== verification/Netlink.thy ===== *)
theory Netlink
  imports Ldd_Prelude
begin

unbundle bit_operations_syntax

text \<open>
  The netlink example: the kernel module \<^verbatim>\<open>src/netlink/netlink.c\<close>, which answers every message, and the
  program \<^verbatim>\<open>src/test_suite/netlink.c\<close>, which sends one and prints the answers.
\<close>

section \<open>Messages\<close>

text \<open>
  A message in memory: the header of sixteen bytes with the total length first and the sender's port
  last, the low byte of each number first, then the payload.
\<close>

definition le32_bytes :: "u32 \<Rightarrow> u8 list" where
  "le32_bytes v = [ucast v, ucast (drop_bit 8 v), ucast (drop_bit 16 v), ucast (drop_bit 24 v)]"

definition le32_at :: "u8 list \<Rightarrow> nat \<Rightarrow> u32" where
  "le32_at m i = ucast (m ! i) OR push_bit 8 (ucast (m ! (i + 1))) OR push_bit 16 (ucast (m ! (i + 2))) OR
     push_bit 24 (ucast (m ! (i + 3)))"

abbreviation (input) NLMSG_HDRLEN :: nat where "NLMSG_HDRLEN \<equiv> 16"
abbreviation (input) MAX_MSGSIZE :: nat where "MAX_MSGSIZE \<equiv> 1024"

definition nlmsg :: "u32 \<Rightarrow> u32 \<Rightarrow> u8 list \<Rightarrow> u8 list" where
  "nlmsg len pid payload = le32_bytes len @ replicate 8 0 @ le32_bytes pid @ payload"

definition ascii :: "string \<Rightarrow> u8 list" where
  "ascii s = map (\<lambda>c. of_nat (of_char c)) s"

definition c_text :: "u8 list \<Rightarrow> u8 list" where
  "c_text bs = takeWhile (\<lambda>b. b \<noteq> 0) bs"

section \<open>The kernel module\<close>

text \<open>
  A socket buffer with its reference count. \<open>fresh\<close> is the memory of a newly allocated buffer, or
  nothing. What is sent goes to a port.
\<close>

record sk_buff =
  skb_data :: "u8 list"
  skb_users :: nat

definition skb_get :: "sk_buff \<Rightarrow> sk_buff" where
  "skb_get skb = skb\<lparr>skb_users := skb_users skb + 1\<rparr>"

definition kfree_skb :: "sk_buff \<Rightarrow> sk_buff" where
  "kfree_skb skb = skb\<lparr>skb_users := skb_users skb - 1\<rparr>"

text \<open>
  \<^verbatim>\<open>send_netlink_data\<close>: \<^verbatim>\<open>nlmsg_put\<close> writes the header and leaves the payload as it is; the text and its
  terminator are copied to the start of the payload.
\<close>

definition send_netlink_data :: "u8 list option \<Rightarrow> u32 \<Rightarrow> u8 list \<Rightarrow> nat \<Rightarrow> (u32 \<times> u8 list) option" where
  "send_netlink_data fresh pid message len =
     (case fresh of
        None \<Rightarrow> None
      | Some junk \<Rightarrow>
          (let payload = take MAX_MSGSIZE (drop NLMSG_HDRLEN junk);
               payload = blit payload 0 (take (len + 1) message) in
           Some (pid, nlmsg (of_nat (NLMSG_HDRLEN + MAX_MSGSIZE)) 0 payload)))"

definition k_msg :: "u8 list" where
  "k_msg = ascii ''from kernel messages!'' @ [0]"

definition recv_netlink_data :: "u8 list option \<Rightarrow> sk_buff \<Rightarrow> (u32 \<times> u8 list) option \<times> sk_buff" where
  "recv_netlink_data fresh skb =
     (let k_msg_len = length (c_text k_msg);
          skb = skb_get skb in
      if length (skb_data skb) < NLMSG_HDRLEN then (None, kfree_skb skb)
      else (send_netlink_data fresh (le32_at (skb_data skb) 12) k_msg k_msg_len, kfree_skb skb))"

text \<open>Loading and unloading: the socket, and the return value, which is positive when it cannot be created.\<close>

definition netlink_init :: "bool \<Rightarrow> int \<times> bool" where
  "netlink_init create_ok = (if create_ok then (0, True) else (1, False))"

definition netlink_exit :: "bool \<Rightarrow> bool" where
  "netlink_exit nl_sk = False"

section \<open>The program\<close>

text \<open>
  The message it sends: the allocated memory with the header fields it sets and the text; and what it
  prints for each answer of \<^verbatim>\<open>recvmsg\<close>, which overwrites the start of the same buffer. An error leaves the buffer alone.
\<close>

definition netlink_request :: "u8 list \<Rightarrow> u32 \<Rightarrow> u8 list" where
  "netlink_request junk pid =
     (let m = blit junk 0 (le32_bytes (of_nat (NLMSG_HDRLEN + MAX_MSGSIZE)));
          m = blit m 12 (le32_bytes pid);
          m = blit m 6 [0, 0] in
      blit m NLMSG_HDRLEN (ascii ''connect to kernel'' @ [0]))"

fun netlink_receive :: "u8 list option list \<Rightarrow> u8 list \<Rightarrow> u8 list list" where
  "netlink_receive [] m = []"
| "netlink_receive (None # rs) m = c_text (drop NLMSG_HDRLEN m) # netlink_receive rs m"
| "netlink_receive (Some r # rs) m =
    (let m = blit m 0 (take (length m) r) in c_text (drop NLMSG_HDRLEN m) # netlink_receive rs m)"

section \<open>The theorems\<close>

lemma le32_roundtrip: "le32_at (xs @ le32_bytes v @ ys) (length xs) = v"
  unfolding le32_at_def le32_bytes_def
  apply (rule bit_eqI)
  apply (auto simp: nth_append bit_simps not_less dest: bit_imp_le_length)
  subgoal for n by (cases "24 \<le> n") auto
  done

lemma length_le32 [simp]: "length (le32_bytes v) = 4"
  by (simp add: le32_bytes_def)

lemma request_port:
  assumes "length junk = 1040"
  shows "le32_at (netlink_request junk pid) 12 = pid" and "length (netlink_request junk pid) = 1040"
proof -
  have "\<exists>xs ys. length xs = 12 \<and> netlink_request junk pid = xs @ le32_bytes pid @ ys"
    using assms by (intro exI [of _ "take 12 (netlink_request junk pid)"] exI [of _ "drop 16 (netlink_request junk pid)"])
      (simp add: netlink_request_def Let_def blit_def ascii_def le32_bytes_def)
  then show "le32_at (netlink_request junk pid) 12 = pid" using le32_roundtrip by metis
  show "length (netlink_request junk pid) = 1040"
    using assms by (simp add: netlink_request_def Let_def blit_def ascii_def)
qed

lemma k_msg_text: "length k_msg = 22" "c_text (k_msg @ r) = ascii ''from kernel messages!''"
  by (simp_all add: k_msg_def ascii_def c_text_def)

text \<open>
  C40. Request and answer: the module answers the program's message at the port it was sent from, and
  the program prints the module's text. The reference count of the message is what it was, and
  what is left of the answer's payload is memory of the kernel that was never written.
\<close>

theorem netlink_exchange:
  assumes "length ujunk = 1040" and "length kjunk = 1040" and "length m = 1040"
  shows "\<exists>r. recv_netlink_data (Some kjunk) \<lparr>skb_data = netlink_request ujunk pid, skb_users = u\<rparr> =
      (Some (pid, r), \<lparr>skb_data = netlink_request ujunk pid, skb_users = u\<rparr>) \<and>
    netlink_receive [Some r] m = [ascii ''from kernel messages!''] \<and>
    drop 38 r = drop 38 kjunk"
proof -
  have len: "length (c_text k_msg) = 21" using k_msg_text(2) [of "[]"] by (simp add: ascii_def)
  let ?rest = "drop 38 kjunk"
  let ?r = "nlmsg (of_nat (NLMSG_HDRLEN + MAX_MSGSIZE)) 0 (k_msg @ ?rest)"
  have "blit (take MAX_MSGSIZE (drop NLMSG_HDRLEN kjunk)) 0 (take 22 k_msg) = k_msg @ ?rest"
    using assms(2) k_msg_text(1) by (simp add: blit_def)
  then have "recv_netlink_data (Some kjunk) \<lparr>skb_data = netlink_request ujunk pid, skb_users = u\<rparr> =
      (Some (pid, ?r), \<lparr>skb_data = netlink_request ujunk pid, skb_users = u\<rparr>)"
    using request_port [OF assms(1), of pid] len
    by (simp add: recv_netlink_data_def send_netlink_data_def skb_get_def kfree_skb_def Let_def)
  moreover have "drop 16 (blit m 0 (take 1040 ?r)) = k_msg @ ?rest"
    using assms k_msg_text(1) by (simp add: nlmsg_def blit_def le32_bytes_def)
  then have "netlink_receive [Some ?r] m = [ascii ''from kernel messages!'']"
    using assms(3) k_msg_text(2) [of ?rest] by (simp add: Let_def)
  moreover have "drop 38 ?r = ?rest"
    using k_msg_text(1) by (simp add: nlmsg_def le32_bytes_def)
  ultimately show ?thesis by blast
qed

theorem netlink_exchange_witness:
  "\<exists>r. recv_netlink_data (Some (replicate 1040 0xAA)) \<lparr>skb_data = netlink_request (replicate 1040 0) 4711, skb_users = 1\<rparr> =
      (Some (4711, r), \<lparr>skb_data = netlink_request (replicate 1040 0) 4711, skb_users = 1\<rparr>) \<and>
    netlink_receive [Some r] (replicate 1040 0) = [ascii ''from kernel messages!''] \<and>
    drop 38 r = drop 38 (replicate 1040 0xAA)"
  by (rule netlink_exchange) simp_all

text \<open>A message shorter than a header is dropped, with the reference count as before.\<close>

lemma recv_short:
  "length (skb_data skb) < 16 \<Longrightarrow> recv_netlink_data fresh skb = (None, skb)"
  by (simp add: recv_netlink_data_def skb_get_def kfree_skb_def Let_def)

section \<open>The whole program\<close>

text \<open>
  The program's answers from the system: the socket, its process number, whether \<^verbatim>\<open>bind\<close> succeeds, the port the kernel chooses
  for an unbound socket, and whether \<^verbatim>\<open>sendmsg\<close> succeeds. The results of \<^verbatim>\<open>bind\<close> and \<^verbatim>\<open>sendmsg\<close> do not stop the program. It
  ends only when there is no socket; otherwise it waits for ever, and \<open>Inr\<close> is what it prints. \<open>peer\<close> gives the messages
  that arrive at a port after a message was sent.
\<close>

record nl_env =
  nl_socket :: int
  nl_getpid :: u32
  nl_bind :: bool
  nl_autoport :: u32
  nl_send :: bool

definition nl_port :: "nl_env \<Rightarrow> u32" where
  "nl_port env = (if nl_bind env then nl_getpid env else nl_autoport env)"

definition netlink_main :: "nl_env \<Rightarrow> u8 list \<Rightarrow> (u32 \<Rightarrow> u8 list \<Rightarrow> u8 list option list) \<Rightarrow> int + u8 list list" where
  "netlink_main env junk peer =
     (if nl_socket env = - 1 then Inl (- 1)
      else
        (let request = netlink_request junk (nl_getpid env);
             answers = (if nl_send env then peer (nl_port env) request else []);
             nlh = replicate (NLMSG_HDRLEN + MAX_MSGSIZE) 0 in
         Inr (netlink_receive answers nlh)))"

text \<open>The module on the other side: its answer reaches the socket with the port it was sent to.\<close>

definition nl_module :: "u8 list option \<Rightarrow> u32 \<Rightarrow> u8 list \<Rightarrow> u8 list option list" where
  "nl_module fresh port request =
     (case recv_netlink_data fresh \<lparr>skb_data = request, skb_users = 1\<rparr> of
        (Some (pid, r), _) \<Rightarrow> if pid = port then [Some r] else []
      | (None, _) \<Rightarrow> [])"

text \<open>
  Program and module together: the program prints the text of the module exactly when its socket is bound to its own process
  number. When \<^verbatim>\<open>bind\<close> fails, which it does not check, the answer goes to another port and the program waits for ever.
\<close>

theorem netlink_together:
  assumes "length ujunk = 1040" and "length kjunk = 1040" and "nl_socket env \<noteq> - 1"
  shows "netlink_main env ujunk (nl_module (Some kjunk)) =
    Inr (if nl_send env \<and> nl_port env = nl_getpid env then [ascii ''from kernel messages!''] else [])"
proof -
  have len: "length (c_text k_msg) = 21" using k_msg_text(2) [of "[]"] by (simp add: ascii_def)
  let ?r = "nlmsg (of_nat (NLMSG_HDRLEN + MAX_MSGSIZE)) 0 (k_msg @ drop 38 kjunk)"
  have "blit (take MAX_MSGSIZE (drop NLMSG_HDRLEN kjunk)) 0 (take 22 k_msg) = k_msg @ drop 38 kjunk"
    using assms(2) k_msg_text(1) by (simp add: blit_def)
  then have r: "recv_netlink_data (Some kjunk) \<lparr>skb_data = netlink_request ujunk pid, skb_users = 1\<rparr> =
      (Some (pid, ?r), \<lparr>skb_data = netlink_request ujunk pid, skb_users = 1\<rparr>)" for pid
    using request_port [OF assms(1), of pid] len
    by (simp add: recv_netlink_data_def send_netlink_data_def skb_get_def kfree_skb_def Let_def)
  have "drop 16 (blit (replicate 1040 0) 0 (take 1040 ?r)) = k_msg @ drop 38 kjunk"
    using assms k_msg_text(1) by (simp add: nlmsg_def blit_def le32_bytes_def)
  then have "netlink_receive [Some ?r] (replicate 1040 0) = [ascii ''from kernel messages!'']"
    using k_msg_text(2) [of "drop 38 kjunk"] by (simp add: Let_def)
  with assms(3) r show ?thesis by (simp add: netlink_main_def nl_module_def Let_def)
qed

end
