(* ===== verification/Gfifo_Tests.thy ===== *)
theory Gfifo_Tests
  imports Gfifo_Core User_Io
begin

text \<open>
  The test programs of the FIFO drivers: \<^verbatim>\<open>src/test_suite/gfifo_poll.c\<close> and \<^verbatim>\<open>gfifo_poll_n.c\<close> wait for the
  FIFOs with \<^verbatim>\<open>select\<close> or \<^verbatim>\<open>epoll\<close>, \<^verbatim>\<open>gfifo_signal.c\<close> with SIGIO. They are modelled on top of the drivers' \<^verbatim>\<open>poll\<close>
  handler, and the theorems say when what they print about the FIFOs is true.
\<close>

section \<open>select\<close>

text \<open>
  What \<^verbatim>\<open>select\<close> leaves in the two sets for a file whose \<^verbatim>\<open>poll\<close> handler gives a mask. When it fails, here
  \<open>None\<close>, it leaves the sets as they were filled.
\<close>

abbreviation (input) POLLIN_SET :: u32 where "POLLIN_SET \<equiv> 0xd9"
abbreviation (input) POLLOUT_SET :: u32 where "POLLOUT_SET \<equiv> 0x30c"

definition select_sets :: "u32 option \<Rightarrow> bool \<times> bool" where
  "select_sets m = (case m of
     None \<Rightarrow> (True, True)
   | Some m \<Rightarrow> (m AND POLLIN_SET \<noteq> 0, m AND POLLOUT_SET \<noteq> 0))"

text \<open>What the programs print, with the name of the device where there is one.\<close>

datatype poll_msg =
    Clear_failed string | Can_read string | Can_write string | Not_empty string | No_data | Sys_failed
  | Usage | Open_failed string

definition poll_lines :: "string \<Rightarrow> u32 option \<Rightarrow> poll_msg list" where
  "poll_lines name m =
     (let (r, w) = select_sets m in
      (if r then [Can_read name] else []) @ (if w then [Can_write name] else []))"

text \<open>
  \<^verbatim>\<open>poll_body\<close> of \<^verbatim>\<open>gfifo_poll.c\<close>: the result of the ioctl, and for each round of the endless loop what
  \<^verbatim>\<open>select\<close> answers.
\<close>

definition poll_body :: "int \<Rightarrow> u32 option list \<Rightarrow> poll_msg list" where
  "poll_body ioctl_ret rounds =
     (if ioctl_ret \<noteq> 0 then [Clear_failed []] else []) @ concat (map (poll_lines []) rounds)"

text \<open>
  \<^verbatim>\<open>poll_body\<close> of \<^verbatim>\<open>gfifo_poll_n.c\<close>: for each device the result of its ioctl; in each round the masks of all
  devices, or a failed \<^verbatim>\<open>select\<close>. The descriptors were opened in ascending order, so that the range given to
  \<^verbatim>\<open>select\<close>, up to the last one, holds them all.
\<close>

definition poll_round_n :: "string list \<Rightarrow> u32 list option \<Rightarrow> poll_msg list" where
  "poll_round_n devs r =
     concat (map (\<lambda>i. poll_lines (devs ! i) (map_option (\<lambda>ms. ms ! i) r)) [0..<length devs])"

definition poll_body_n :: "string list \<Rightarrow> int list \<Rightarrow> u32 list option list \<Rightarrow> poll_msg list" where
  "poll_body_n devs ioctl_rets rounds =
     concat (map (\<lambda>i. if ioctl_rets ! i \<noteq> 0 then [Clear_failed (devs ! i)] else []) [0..<length devs]) @
     concat (map (poll_round_n devs) rounds)"

section \<open>epoll\<close>

text \<open>
  \<^verbatim>\<open>epoll\<close> reports a file when its mask has one of the requested events, or an error or hang-up, which are always
  requested.
\<close>

definition epoll_ready :: "u32 \<Rightarrow> u32 \<Rightarrow> bool" where
  "epoll_ready events m \<longleftrightarrow> m AND (events OR 0x18) \<noteq> 0"

record ep_env =
  ep_create :: bool
  ep_add :: "nat \<Rightarrow> bool"
  ep_wait_ok :: bool
  ep_del :: "nat \<Rightarrow> bool"

text \<open>\<^verbatim>\<open>epoll_body\<close> of \<^verbatim>\<open>gfifo_poll.c\<close>: the requested events are zero. The result and what is printed.\<close>

definition epoll_body :: "ep_env \<Rightarrow> int \<Rightarrow> u32 \<Rightarrow> int \<times> poll_msg list" where
  "epoll_body env ioctl_ret m =
     (let out = (if ioctl_ret \<noteq> 0 then [Clear_failed []] else []) in
      if \<not> ep_create env then (ioctl_ret, out @ [Sys_failed])
      else if \<not> ep_add env 0 then (- 1, out @ [Sys_failed])
      else
        (let events = 0;
             out = out @ (if \<not> ep_wait_ok env then [Sys_failed]
                          else if epoll_ready events m then [Not_empty []] else [No_data]) in
         if \<not> ep_del env 0 then (- 1, out @ [Sys_failed]) else (0, out)))"

text \<open>
  \<^verbatim>\<open>epoll_body\<close> of \<^verbatim>\<open>gfifo_poll_n.c\<close>: the devices are added one after the other, up to the first that
  cannot be; then those that are ready are printed, and all are deleted again.
\<close>

fun ep_add_all :: "ep_env \<Rightarrow> string list \<Rightarrow> int list \<Rightarrow> nat \<Rightarrow> nat \<Rightarrow> bool \<times> poll_msg list" where
  "ep_add_all env devs rets i 0 = (True, [])"
| "ep_add_all env devs rets i (Suc n) =
    (let out = (if rets ! i \<noteq> 0 then [Clear_failed (devs ! i)] else []) in
     if ep_add env i then (let (ok, out') = ep_add_all env devs rets (Suc i) n in (ok, out @ out'))
     else (False, out @ [Sys_failed]))"

definition epoll_body_n :: "ep_env \<Rightarrow> string list \<Rightarrow> int list \<Rightarrow> u32 list \<Rightarrow> int \<times> poll_msg list" where
  "epoll_body_n env devs rets ms =
     (if \<not> ep_create env then (- 1, [Sys_failed])
      else
        (let (ok, out) = ep_add_all env devs rets 0 (length devs) in
         if \<not> ok then (- 1, out)
         else
           (let events = 0x3;
                ready = filter (\<lambda>i. epoll_ready events (ms ! i)) [0..<length devs];
                out = out @ (if \<not> ep_wait_ok env then [Sys_failed]
                             else if ready = [] then [No_data] else map (\<lambda>i. Not_empty (devs ! i)) ready) in
            if list_all (ep_del env) [0..<length devs] then (0, out) else (- 1, out @ [Sys_failed]))))"

section \<open>The programs\<close>

text \<open>
  The main programs. They install a handler for the interrupt, open the devices, and run the body that
  the second character of the option selects: \<open>None\<close> for an empty option, where that character is
  outside the string. What happens: the exit status, or \<open>Polling\<close> for the endless loop; what is
  printed; and the descriptors that are closed.
\<close>

datatype poll_end = Polling | Exited int

datatype poll_action = Act_poll | Act_epoll | Act_nothing

definition poll_option :: "string \<Rightarrow> poll_action option" where
  "poll_option arg =
     (if arg = [] then None
      else if length arg = 1 then Some Act_nothing
      else if arg ! 1 = CHR ''P'' \<or> arg ! 1 = CHR ''p'' then Some Act_poll
      else if arg ! 1 = CHR ''E'' \<or> arg ! 1 = CHR ''e'' then Some Act_epoll
      else Some Act_nothing)"

text \<open>\<^verbatim>\<open>signal_init\<close>: the result of \<^verbatim>\<open>sigaction\<close> is passed on; a failure ends the program.\<close>

definition signal_init :: "int \<Rightarrow> int \<times> poll_msg list" where
  "signal_init sigaction_ret = (sigaction_ret, if sigaction_ret < 0 then [Sys_failed] else [])"

definition signal_init_n :: "int \<Rightarrow> int \<times> poll_msg list" where
  "signal_init_n sigaction_ret = (sigaction_ret, if sigaction_ret < 0 then [Sys_failed] else [])"

definition gfifo_poll_main ::
  "int \<Rightarrow> ep_env \<Rightarrow> int \<Rightarrow> int \<Rightarrow> u32 option list \<Rightarrow> u32 \<Rightarrow> string list
    \<Rightarrow> (poll_end \<times> poll_msg list \<times> int list) option" where
  "gfifo_poll_main sigaction_ret env fd ioctl_ret rounds m argv =
     (let (ret, out) = signal_init sigaction_ret in
      if ret < 0 then Some (Exited 1, out, [])
      else if length argv < 3 then Some (Exited (- 1), [Usage], [])
      else if fd = - 1 then Some (Exited 0, [Open_failed []], [])
      else case poll_option (argv ! 1) of
        None \<Rightarrow> None
      | Some Act_poll \<Rightarrow> Some (Polling, poll_body ioctl_ret rounds, [])
      | Some Act_epoll \<Rightarrow> Some (Exited 0, snd (epoll_body env ioctl_ret m), [fd])
      | Some Act_nothing \<Rightarrow> Some (Exited 0, [], [fd]))"

text \<open>
  \<^verbatim>\<open>gfifo_poll_n.c\<close> keeps the descriptors in an array of twenty; with more devices it writes past the array,
  \<open>None\<close>. It opens all devices before it gives up, and closes those that it could open.
\<close>

fun open_devices :: "(string \<Rightarrow> int) \<Rightarrow> string list \<Rightarrow> nat \<Rightarrow> int list \<Rightarrow> int list option" where
  "open_devices op [] i fds = Some fds"
| "open_devices op (d # ds) i fds = (if i < 20 then open_devices op ds (Suc i) (fds @ [op d]) else None)"

definition close_fds :: "int list \<Rightarrow> int list" where
  "close_fds fds = filter (\<lambda>fd. fd \<noteq> - 1) fds"

definition gfifo_poll_n_main ::
  "int \<Rightarrow> ep_env \<Rightarrow> (string \<Rightarrow> int) \<Rightarrow> int list \<Rightarrow> u32 list option list \<Rightarrow> u32 list \<Rightarrow> string list
    \<Rightarrow> (poll_end \<times> poll_msg list \<times> int list) option" where
  "gfifo_poll_n_main sigaction_ret env op ioctl_rets rounds ms argv =
     (let (ret, out) = signal_init_n sigaction_ret in
      if ret < 0 then Some (Exited 1, out, [])
      else if length argv < 3 then Some (Exited (- 1), [Usage], [])
      else
        (let devs = drop 2 argv in
         case open_devices op devs 0 [] of
           None \<Rightarrow> None
         | Some fds \<Rightarrow>
             if - 1 \<in> set fds
             then Some (Exited 0, map Open_failed (filter (\<lambda>d. op d = - 1) devs) @ [Open_failed []], close_fds fds)
             else (case poll_option (argv ! 1) of
                 None \<Rightarrow> None
               | Some Act_poll \<Rightarrow> Some (Polling, poll_body_n devs ioctl_rets rounds, [])
               | Some Act_epoll \<Rightarrow> Some (Exited 0, snd (epoll_body_n env devs ioctl_rets ms), close_fds fds)
               | Some Act_nothing \<Rightarrow> Some (Exited 0, [], close_fds fds))))"

text \<open>
  The SIGIO handler of \<^verbatim>\<open>gfifo_signal.c\<close>: up to 99 bytes are read into an array of 100 zero bytes and
  terminated; after a failed read the terminator goes before the start of the array, \<open>None\<close>.
\<close>

definition input_handler :: "read_ret \<Rightarrow> u8 list option" where
  "input_handler r = (case r of
     Rd_err e \<Rightarrow> None
   | Rd_ok bs \<Rightarrow>
       (let bs = take 99 bs; buf = blit (replicate 100 0) 0 bs; buf = buf[length bs := 0] in
        Some (takeWhile (\<lambda>b. b \<noteq> 0) buf)))"

abbreviation (input) FASYNC :: u32 where "FASYNC \<equiv> 0x2000"

text \<open>The start: the exit status when it cannot, or the flags that are set on the file.\<close>

definition gfifo_signal_main :: "string list \<Rightarrow> int \<Rightarrow> u32 \<Rightarrow> int + u32" where
  "gfifo_signal_main argv fd o_flags =
     (if length argv < 2 then Inl (- 1) else if fd = - 1 then Inl (- 2) else Inr (o_flags OR FASYNC))"

section \<open>The theorems\<close>

lemma mask_sets:
  assumes "gfifo_inv cfg dev"
  shows "gfifo_poll_mask cfg dev AND POLLIN_SET \<noteq> 0 \<longleftrightarrow> gfifo_queue dev \<noteq> []"
    and "gfifo_poll_mask cfg dev AND POLLOUT_SET \<noteq> 0 \<longleftrightarrow> length (gfifo_queue dev) < unat (GFIFO_SIZE cfg)"
    and "epoll_ready 0x3 (gfifo_poll_mask cfg dev) \<longleftrightarrow> gfifo_queue dev \<noteq> []"
    and "\<not> epoll_ready 0 (gfifo_poll_mask cfg dev)"
proof -
  have n: "cur_len dev = 0 \<longleftrightarrow> gfifo_queue dev = []"
    using gfifo_queue_Nil_iff [OF assms] by simp
  have f: "cur_len dev \<noteq> GFIFO_SIZE cfg \<longleftrightarrow> length (gfifo_queue dev) < unat (GFIFO_SIZE cfg)"
    using gfifo_queue_full_iff [OF assms] gfifo_queue_bound [OF assms] by auto
  show "gfifo_poll_mask cfg dev AND POLLIN_SET \<noteq> 0 \<longleftrightarrow> gfifo_queue dev \<noteq> []"
    "gfifo_poll_mask cfg dev AND POLLOUT_SET \<noteq> 0 \<longleftrightarrow> length (gfifo_queue dev) < unat (GFIFO_SIZE cfg)"
    "epoll_ready 0x3 (gfifo_poll_mask cfg dev) \<longleftrightarrow> gfifo_queue dev \<noteq> []"
    "\<not> epoll_ready 0 (gfifo_poll_mask cfg dev)"
    by (auto simp: gfifo_poll_mask_def epoll_ready_def n [symmetric] f [symmetric] Let_def)
qed

text \<open>
  In every round in which \<^verbatim>\<open>select\<close> succeeds, the program prints that a FIFO can be read exactly when
  bytes are stored in it, and that it can be written exactly when there is room.
\<close>

theorem poll_tests_truthful:
  assumes "list_all2 gfifo_inv cfgs ds" and "length devs = length ds"
  shows "set (poll_round_n devs (Some (map2 gfifo_poll_mask cfgs ds))) =
      {Can_read (devs ! i) | i. i < length ds \<and> gfifo_queue (ds ! i) \<noteq> []} \<union>
      {Can_write (devs ! i) | i. i < length ds \<and> length (gfifo_queue (ds ! i)) < unat (GFIFO_SIZE (cfgs ! i))}"
proof -
  have len: "length cfgs = length ds" and inv: "\<And>i. i < length ds \<Longrightarrow> gfifo_inv (cfgs ! i) (ds ! i)"
    using assms(1) by (auto simp: list_all2_conv_all_nth)
  have "set (poll_lines (devs ! i) (Some (map2 gfifo_poll_mask cfgs ds ! i))) =
      (if gfifo_queue (ds ! i) \<noteq> [] then {Can_read (devs ! i)} else {}) \<union>
      (if length (gfifo_queue (ds ! i)) < unat (GFIFO_SIZE (cfgs ! i)) then {Can_write (devs ! i)} else {})"
    if "i < length ds" for i
    using that len mask_sets [OF inv [OF that]] by (simp add: poll_lines_def select_sets_def)
  then show ?thesis
    using assms(2) by (auto simp: poll_round_n_def split: if_splits)
qed

definition cfg8 :: gfifo_cfg where
  "cfg8 = \<lparr>GFIFO_SIZE = 8, has_poll = True, has_async = False, fifo_memcpy = memcpy_fwd\<rparr>"

definition dev8 :: "u32 \<Rightarrow> gfifo_dev" where
  "dev8 n = \<lparr>fmem = replicate 8 1, fmutex = None, cur_len = n, r_wait = [], w_wait = [], async_queue = []\<rparr>"

theorem poll_tests_truthful_witness:
  "set (poll_round_n [''a'', ''b''] (Some (map2 gfifo_poll_mask [cfg8, cfg8] [dev8 0, dev8 8]))) =
    {Can_read ''b'', Can_write ''a''}"
proof -
  have inv: "list_all2 gfifo_inv [cfg8, cfg8] [dev8 0, dev8 8]" by (simp add: gfifo_inv_def cfg8_def dev8_def)
  have q: "gfifo_queue (dev8 0) = []" "length (gfifo_queue (dev8 8)) = 8" "gfifo_queue (dev8 8) \<noteq> []" "unat (GFIFO_SIZE cfg8) = 8"
    by (simp_all add: gfifo_queue_def cfg8_def dev8_def)
  have "{Can_read ([''a'', ''b''] ! i) | i. i < length [dev8 0, dev8 8] \<and> gfifo_queue ([dev8 0, dev8 8] ! i) \<noteq> []} = {Can_read ''b''}"
    using q by (auto simp: less_Suc_eq intro: exI [of _ "Suc 0"])
  moreover have "{Can_write ([''a'', ''b''] ! i) | i. i < length [dev8 0, dev8 8] \<and>
      length (gfifo_queue ([dev8 0, dev8 8] ! i)) < unat (GFIFO_SIZE ([cfg8, cfg8] ! i))} = {Can_write ''a''}"
    using q by (auto simp: less_Suc_eq intro: exI [of _ 0])
  ultimately show ?thesis
    using poll_tests_truthful [OF inv, of "[''a'', ''b'']"] by auto
qed

text \<open>
  With \<^verbatim>\<open>epoll\<close>, \<^verbatim>\<open>gfifo_poll\<close> never sees the FIFO ready: it asks for no event, so that it prints that no
  data came whatever the FIFO holds; \<^verbatim>\<open>gfifo_poll_n\<close>, which asks for input, reports the FIFO exactly when it
  holds bytes.
\<close>

theorem epoll_tests:
  assumes "gfifo_inv cfg dev"
  shows "epoll_body \<lparr>ep_create = True, ep_add = \<lambda>_. True, ep_wait_ok = True, ep_del = \<lambda>_. True\<rparr> 0
      (gfifo_poll_mask cfg dev) = (0, [No_data]) \<and>
    epoll_body_n \<lparr>ep_create = True, ep_add = \<lambda>_. True, ep_wait_ok = True, ep_del = \<lambda>_. True\<rparr> [name] [0]
      [gfifo_poll_mask cfg dev] = (0, [if gfifo_queue dev \<noteq> [] then Not_empty name else No_data])"
  using mask_sets(3,4) [OF assms] by (simp add: epoll_body_def epoll_body_n_def Let_def)

theorem epoll_tests_witness:
  "gfifo_queue (dev8 8) \<noteq> [] \<and>
   epoll_body \<lparr>ep_create = True, ep_add = \<lambda>_. True, ep_wait_ok = True, ep_del = \<lambda>_. True\<rparr> 0
      (gfifo_poll_mask cfg8 (dev8 8)) = (0, [No_data])"
  using epoll_tests [of cfg8 "dev8 8"] by (simp add: gfifo_inv_def cfg8_def dev8_def gfifo_queue_def)

text \<open>The array of descriptors is enough for twenty devices and no more.\<close>

lemma open_devices_bound: "open_devices op ds i fds = None \<longleftrightarrow> 20 < i + length ds \<and> ds \<noteq> []"
proof (induction op ds i fds rule: open_devices.induct)
  case (2 op d ds i fds)
  then show ?case by (cases ds) auto
qed simp

lemma open_devices_fds: "open_devices op ds i fds = Some gs \<Longrightarrow> gs = fds @ map op ds"
  by (induction op ds i fds rule: open_devices.induct) (auto split: if_splits)

text \<open>
  Every descriptor that was opened is closed exactly once when the program ends by itself.
\<close>

lemma poll_n_closes:
  assumes "gfifo_poll_n_main sr env op rets rounds ms argv = Some (Exited r, out, closed)" and "3 \<le> length argv" and "0 \<le> sr"
  shows "r = 0 \<and> closed = filter (\<lambda>fd. fd \<noteq> - 1) (map op (drop 2 argv))"
  using assms
  by (auto simp: gfifo_poll_n_main_def signal_init_def signal_init_n_def Let_def close_fds_def
      split: option.splits if_splits poll_action.splits dest!: open_devices_fds)

end
