(* ===== verification/Ga_Sched.thy ===== *)
theory Ga_Sched
  imports Generic_Access Monitor
begin

unbundle bit_operations_syntax

text \<open>
  Register access by several tasks at once. The macros of \<^verbatim>\<open>src/generic/generic_access.c\<close> take a lock,
  read the register, write it and release the lock; here these are separate steps. The theory shows
  that all accesses are atomic while the lock mode stays as it is, that drivers which share a register
  keep each other's bits, and what \<^verbatim>\<open>ga_set_lock_mode\<close> does to accesses under way.
\<close>

section \<open>The steps of an access\<close>

datatype ga_call =
    Write8 u32 u8 u8 u32 | Write16 u32 u16 u16 u32 | Write32 u32 u32 u32 u32
  | Read8 u32 u8 | Read16 u32 u16 | Read32 u32 u32

text \<open>
  After the lock: the first access to the register; then, if the macro got that far, the write of
  \<^verbatim>\<open>new_reg\<close>, here as a 32-bit number, with the result \<^verbatim>\<open>modified\<close>; and the release of the lock.
\<close>

datatype ga_label = G_access | G_store u32 int | G_unlock int

text \<open>The first access of a masked write: done, or \<^verbatim>\<open>new_reg\<close> is still to be written.\<close>

definition ga_write_access ::
    "(u32 \<Rightarrow> 's \<Rightarrow> 'a::len word \<times> 's) \<Rightarrow> ('a word \<Rightarrow> u32 \<Rightarrow> 's \<Rightarrow> 's) \<Rightarrow> 'a word \<Rightarrow>
     u32 \<Rightarrow> 'a word \<Rightarrow> 'a word \<Rightarrow> u32 \<Rightarrow> 's \<Rightarrow> ga_label \<times> 's" where
  "ga_write_access rd wr all addr msk value options s =
    (if options AND GA_WRITE \<noteq> 0 \<or> msk = all then (G_unlock GA_MODIFIED_MAYBE, wr (value AND msk) addr s)
     else if options AND (GA_READ_WRITE_CONDITIONAL OR GA_READ_WRITE_ALWAYS) \<noteq> 0 then
       (case rd addr s of
          (old_reg, s) \<Rightarrow>
            let new_reg = (old_reg AND NOT msk) OR (value AND msk);
                modified = (if old_reg \<noteq> new_reg then GA_MODIFIED_SURE else GA_MODIFIED_NONE)
            in (if options AND GA_READ_WRITE_ALWAYS \<noteq> 0 \<or> old_reg \<noteq> new_reg
                then G_store (ucast new_reg) modified else G_unlock modified, s))
     else (G_unlock GA_MODIFIED_NONE, s))"

text \<open>The first access of a call, and the second.\<close>

definition ga_access :: "'io iobus \<Rightarrow> ga_call \<Rightarrow> 'io ga_state \<Rightarrow> ga_label \<times> 'io ga_state" where
  "ga_access bus c s = (case c of
     Write8 a m v opts \<Rightarrow> ga_write_access (ga_raw_readb bus) (ga_raw_writeb bus) 0xff a m v opts s
   | Write16 a m v opts \<Rightarrow> ga_write_access (io_readw bus) (io_writew bus) 0xffff a m v opts s
   | Write32 a m v opts \<Rightarrow> ga_write_access (io_readl bus) (io_writel bus) 0xffffffff a m v opts s
   | Read8 a m \<Rightarrow> (case ga_reg_fetch (ga_raw_readb bus) a m s of (v, s) \<Rightarrow> (G_unlock (uint v), s))
   | Read16 a m \<Rightarrow> (case ga_reg_fetch (io_readw bus) a m s of (v, s) \<Rightarrow> (G_unlock (uint v), s))
   | Read32 a m \<Rightarrow> (case ga_reg_fetch (io_readl bus) a m s of (v, s) \<Rightarrow> (G_unlock (uint v), s)))"

definition ga_store :: "'io iobus \<Rightarrow> ga_call \<Rightarrow> u32 \<Rightarrow> 'io ga_state \<Rightarrow> 'io ga_state" where
  "ga_store bus c n s = (case c of
     Write8 a m v opts \<Rightarrow> ga_raw_writeb bus (ucast n) a s
   | Write16 a m v opts \<Rightarrow> io_writew bus (ucast n) a s
   | Write32 a m v opts \<Rightarrow> io_writel bus n a s
   | _ \<Rightarrow> s)"

definition ga_enter :: "(ga_call, ga_label, int, 'io ga_state) entry" where
  "ga_enter c s = map_option (\<lambda>s. Inr (G_access, s)) (LOCK s)"

definition ga_move :: "'io iobus \<Rightarrow> (ga_call, ga_label, int, 'io ga_state) move" where
  "ga_move bus c l s = (case l of
     G_access \<Rightarrow> (case ga_access bus c s of (l, s) \<Rightarrow> (Inl l, s))
   | G_store n r \<Rightarrow> (Inl (G_unlock r), ga_store bus c n s)
   | G_unlock r \<Rightarrow> (Inr r, UNLOCK s))"

text \<open>The same calls in one piece; the result of a read is the number that was read.\<close>

definition ga_atomic :: "'io iobus \<Rightarrow> ga_call \<Rightarrow> 'io ga_state \<Rightarrow> (int \<times> 'io ga_state) option" where
  "ga_atomic bus c s = (case c of
     Write8 a m v opts \<Rightarrow> ga_reg_write8 bus a m v opts s
   | Write16 a m v opts \<Rightarrow> ga_reg_write16 bus a m v opts s
   | Write32 a m v opts \<Rightarrow> ga_reg_write32 bus a m v opts s
   | Read8 a m \<Rightarrow> map_option (apfst uint) (ga_reg_read8 bus a m s)
   | Read16 a m \<Rightarrow> map_option (apfst uint) (ga_reg_read16 bus a m s)
   | Read32 a m \<Rightarrow> map_option (apfst uint) (ga_reg_read32 bus a m s))"

section \<open>Accesses are atomic\<close>

text \<open>What is left of an access.\<close>

definition ga_finish :: "'io iobus \<Rightarrow> ga_call \<Rightarrow> ga_label \<Rightarrow> 'io ga_state \<Rightarrow> int \<times> 'io ga_state" where
  "ga_finish bus c l s = (let (l, s) = (case l of G_access \<Rightarrow> ga_access bus c s | _ \<Rightarrow> (l, s)) in
     case l of G_access \<Rightarrow> (0, s) | G_store n r \<Rightarrow> (r, UNLOCK (ga_store bus c n s)) | G_unlock r \<Rightarrow> (r, UNLOCK s))"

lemma write_access_not_access: "ga_write_access rd wr all a m v opts s \<noteq> (G_access, x)"
  by (auto simp: ga_write_access_def Let_def split: if_splits prod.splits)

lemma access_not_access: "ga_access bus c s \<noteq> (G_access, x)"
  by (cases c) (auto simp: ga_access_def write_access_not_access split: prod.splits)

lemma write_access_update:
  assumes "\<And>n. ucast (ucast n :: u32) = (n :: 'a::len word)"
  shows "ga_reg_update rd wr all a (m :: 'a word) v opts s =
    (case ga_write_access rd wr all a m v opts s of
       (G_store n r, s) \<Rightarrow> (r, wr (ucast n) a s) | (G_unlock r, s) \<Rightarrow> (r, s) | (G_access, s) \<Rightarrow> (0, s))"
  by (simp add: ga_reg_update_def ga_write_access_def assms Let_def split: prod.splits)

lemma ucast_u32_back: "ucast (ucast b :: u32) = (b :: u8)" "ucast (ucast h :: u32) = (h :: u16)"
  "ucast (ucast w :: u32) = (w :: u32)"
  by (auto intro!: bit_word_eqI simp: bit_simps)

lemma ga_atomic_finish:
  "LOCK s = Some x \<Longrightarrow> ga_atomic bus c s = Some (ga_finish bus c G_access x)"
  by (cases c)
    (auto simp: ga_atomic_def ga_reg_write8_def ga_reg_write16_def ga_reg_write32_def ga_reg_read8_def ga_reg_read16_def
      ga_reg_read32_def locked_def ga_finish_def ga_access_def ga_store_def write_access_update ucast_u32_back
      write_access_not_access split: prod.splits ga_label.splits)

lemma same_locks_write_access:
  assumes "\<And>s v s'. rd a s = (v, s') \<Longrightarrow> same_locks s s'" and "\<And>v s. same_locks s (wr v a s)"
    and "ga_write_access rd wr all a msk v options s = (r, s')"
  shows "same_locks s s'"
  using assms by (auto simp: ga_write_access_def Let_def split: if_splits prod.splits)

lemma same_locks_access: "ga_access bus c s = (l, s') \<Longrightarrow> same_locks s s'"
  by (cases c)
    (auto simp: ga_access_def split: prod.splits
      intro: fetch_keeps same_locks_write_access [where rd = "ga_raw_readb bus" and wr = "ga_raw_writeb bus", OF same_locks_raw(1,2)]
        same_locks_write_access [where rd = "io_readw bus" and wr = "io_writew bus", OF same_locks_raw(3,4)]
        same_locks_write_access [where rd = "io_readl bus" and wr = "io_writel bus", OF same_locks_raw(5,6)])

lemma same_locks_store: "same_locks s (ga_store bus c n s)"
  by (cases c) (simp_all add: ga_store_def same_locks_raw)

lemma LOCK_held: "LOCK s = Some x \<Longrightarrow> \<not> lock_free x" "\<not> lock_free s \<Longrightarrow> LOCK s = None" "lock_free s \<Longrightarrow> LOCK s \<noteq> None"
  by (auto simp: LOCK_def lock_free_def split: if_splits)

interpretation ga: monitor ga_enter "ga_move bus" "ga_atomic bus" "ga_finish bus" "\<lambda>s. \<not> lock_free s" "\<lambda>_. True" "\<lambda>_. True" for bus
proof
  show "ga_enter c s = Some (Inl r) \<Longrightarrow> ga_atomic bus c x = Some (r, x)" for c s r x
    by (auto simp: ga_enter_def)
  show "ga_enter c s = Some (Inr (l, x)) \<Longrightarrow> ga_atomic bus c s = Some (ga_finish bus c l x) \<and> \<not> lock_free x \<and> True \<and> True" for c s l x
    by (auto simp: ga_enter_def ga_atomic_finish LOCK_held)
  show "\<not> lock_free s \<Longrightarrow> ga_enter c s \<noteq> Some (Inr y)" for c s y
    by (auto simp: ga_enter_def LOCK_held)
  show "\<not> \<not> lock_free s \<Longrightarrow> ga_enter c s \<noteq> None" for c s
    by (simp add: ga_enter_def LOCK_held)
  show "\<not> lock_free s \<Longrightarrow> ga_move bus c l s = (Inl l', x) \<Longrightarrow>
      ga_finish bus c l' x = ga_finish bus c l s \<and> \<not> lock_free x \<and> True" for c l l' s x
    using lock_free_same [OF same_locks_access [of bus c s]] access_not_access [of bus c s]
    by (cases l) (auto simp: ga_move_def ga_finish_def lock_free_same [OF same_locks_store] split: prod.splits ga_label.splits)
  show "\<not> lock_free s \<Longrightarrow> ga_move bus c l s = (Inr r, x) \<Longrightarrow> ga_finish bus c l s = (r, x) \<and> True" for c l r s x
    by (cases l) (auto simp: ga_move_def ga_finish_def split: prod.splits)
qed

lemma ga_atomic_balanced: "ga_atomic bus c s = Some (r, s') \<Longrightarrow> same_locks s s'"
proof -
  assume a: "ga_atomic bus c s = Some (r, s')"
  have u: "same_locks s s'" if "locked body s = Some (q, s')" "\<And>t r t'. body t = (r, t') \<Longrightarrow> same_locks t t'"
    for body :: "'a ga_state \<Rightarrow> 'b \<times> 'a ga_state" and q
    using locked_balanced [where body = body and s = s] that by blast
  from a show ?thesis
    by (cases c) (auto simp: ga_atomic_def ga_reg_write8_def ga_reg_write16_def ga_reg_write32_def ga_reg_read8_def
        ga_reg_read16_def ga_reg_read32_def intro: u update_keeps fetch_keeps locked_balanced)
qed

lemma ga_serially_balanced: "serially (ga_atomic bus) cs s = Some (rs, s') \<Longrightarrow> same_locks s s'"
  by (induction cs arbitrary: s rs)
    (auto split: option.splits dest!: ga_atomic_balanced intro: same_locks_trans)

text \<open>
  C7. Register accesses are atomic. In every interleaving of any number of tasks, whatever the hardware and the
  hooks do: at most one task is between its lock and its unlock; whenever none is, the accesses that have
  returned, executed one after the other in the order of their returns, give the same results and the same
  state; and a task that has started an access never waits for ever: some such task can go on.
\<close>

theorem ga_accesses_atomic:
  assumes "mon_reach ga_enter (ga_move bus) g s" and "lock_free g"
  shows "(\<forall>t u. is_inside (tasks s t) \<and> is_inside (tasks s u) \<longrightarrow> t = u) \<and>
    ((\<forall>t. \<not> is_inside (tasks s t)) \<longrightarrow>
      serially (ga_atomic bus) (map (fst \<circ> snd) (hist s)) g = Some (map (snd \<circ> snd) (hist s), shared s)) \<and>
    ((\<exists>t. tasks s t \<noteq> Outside) \<longrightarrow>
      (\<exists>t s'. tasks s t \<noteq> Outside \<and> mon_step ga_enter (ga_move bus) t s s'))"
proof (intro conjI impI)
  show "\<forall>t u. is_inside (tasks s t) \<and> is_inside (tasks s u) \<longrightarrow> t = u"
    using ga.exclusive [OF assms(1)] by blast
  show ser: "serially (ga_atomic bus) (map (fst \<circ> snd) (hist s)) g = Some (map (snd \<circ> snd) (hist s), shared s)"
    if "\<forall>t. \<not> is_inside (tasks s t)" using ga.serial [OF assms(1) TrueI that] .
  show "\<exists>t s'. tasks s t \<noteq> Outside \<and> mon_step ga_enter (ga_move bus) t s s'" if "\<exists>t. tasks s t \<noteq> Outside"
  proof -
    from that obtain t where "tasks s t \<noteq> Outside" ..
    then consider "\<exists>u s'. tasks s u \<noteq> Outside \<and> mon_step ga_enter (ga_move bus) u s s'"
      | "\<not> lock_free (shared s)" "\<forall>u. \<not> is_inside (tasks s u)"
      using ga.progress [where bus = bus] by blast
    then show ?thesis
      using ga_serially_balanced [OF ser] assms(2) lock_free_same by cases blast+
  qed
qed

section \<open>Drivers that share a register\<close>

text \<open>Registers that are independent of each other.\<close>

locale io_bytes = io_memory +
  assumes readb_other: "a \<noteq> b \<Longrightarrow> fst (raw_readb bus a (raw_writeb bus v b m)) = fst (raw_readb bus a m)"

interpretation ram_bytes: io_bytes ram_bus
  by unfold_locales (simp add: ram_bus_def)

text \<open>
  The bits \<open>m\<close> of register \<open>a\<close> belong to one driver: an access to the register either writes all of them or is a
  read-modify-write of other bits. \<open>last_bits\<close> are the bits that the last access of the owner has written.
\<close>

definition ga_respects :: "u32 \<Rightarrow> u8 \<Rightarrow> ga_call \<Rightarrow> bool" where
  "ga_respects a m c = (case c of
     Write8 b k v opts \<Rightarrow> opts AND 7 \<noteq> 0 \<and> (b = a \<longrightarrow> k AND m = m \<or> k AND m = 0 \<and> opts AND GA_WRITE = 0 \<and> k \<noteq> 0xff)
   | Read8 b k \<Rightarrow> True
   | _ \<Rightarrow> False)"

fun last_bits :: "u32 \<Rightarrow> u8 \<Rightarrow> u8 \<Rightarrow> ga_call list \<Rightarrow> u8" where
  "last_bits a m x [] = x"
| "last_bits a m x (Write8 b k v opts # cs) = last_bits a m (if b = a \<and> k AND m = m then v AND m else x) cs"
| "last_bits a m x (c # cs) = last_bits a m x cs"

context io_bytes
begin

lemma writeb_reads:
  assumes "unhooked s"
  shows "unhooked (ga_raw_writeb bus v b s)"
    and "fst (raw_readb bus a (io (ga_raw_writeb bus v b s))) = (if a = b then v else fst (raw_readb bus a (io s)))"
  using assms by (auto simp: ga_raw_writeb_def unhooked_def Option.is_none_def readb_writeb readb_other)

lemma readb_reads: "unhooked s \<Longrightarrow> ga_raw_readb bus a s = (fst (raw_readb bus a (io s)), s)"
  using readb_pure [of a "io s"] by (auto simp: ga_raw_readb_def unhooked_def Option.is_none_def split: prod.splits)

lemma mask_keep:
  assumes "k AND m = (0 :: u8)" shows "((x AND NOT k) OR (v AND k)) AND m = x AND m"
proof (rule bit_word_eqI)
  fix n
  have "bit (k AND m) n = bit (0 :: u8) n" using assms by simp
  then show "n < LENGTH(8) \<Longrightarrow> bit (((x AND NOT k) OR (v AND k)) AND m) n = bit (x AND m) n" by (auto simp: bit_simps)
qed

lemma mask_own:
  assumes "k AND m = (m :: u8)"
  shows "((x AND NOT k) OR (v AND k)) AND m = v AND m" and "(v AND k) AND m = v AND m"
proof -
  have b: "bit (k AND m) n = bit m n" for n using assms by simp
  show "((x AND NOT k) OR (v AND k)) AND m = v AND m"
    by (rule bit_word_eqI) (use b in \<open>auto simp: bit_simps\<close>)
  show "(v AND k) AND m = v AND m"
    by (rule bit_word_eqI) (use b in \<open>auto simp: bit_simps\<close>)
qed

lemma mask_same: "k AND m = m \<Longrightarrow> x = (x AND NOT k) OR (v AND k) \<Longrightarrow> x AND m = v AND (m :: u8)"
  by (metis mask_own(1))

lemma options_any: "opts AND 7 \<noteq> (0 :: u32) \<Longrightarrow> opts AND 1 = 0 \<Longrightarrow> opts AND 6 \<noteq> 0"
proof
  assume "opts AND 7 \<noteq> 0" "opts AND 1 = 0" "opts AND 6 = 0"
  moreover have "opts AND 7 = (opts AND 1) OR (opts AND 6)" by (simp flip: bit.conj_disj_distrib)
  ultimately show False by simp
qed

lemma update_respects:
  assumes "unhooked s" and "ga_respects a m (Write8 b k v opts)"
    and "ga_reg_update (ga_raw_readb bus) (ga_raw_writeb bus) 0xff b k v opts s = (r, s')"
  shows "unhooked s'" and "fst (raw_readb bus a (io s')) AND m =
    (if b = a \<and> k AND m = m then v AND m else fst (raw_readb bus a (io s)) AND m)"
  using assms options_any [of opts]
  by (auto simp: ga_reg_update_def Let_def ga_respects_def readb_reads writeb_reads mask_keep mask_own split: if_splits
      intro: mask_same)

text \<open>One access in one piece, and a sequence of them.\<close>

lemma atomic_respects:
  assumes "unhooked s" and "ga_respects a m c" and "ga_atomic bus c s = Some (r, s')"
  shows "unhooked s' \<and> fst (raw_readb bus a (io s')) AND m = last_bits a m (fst (raw_readb bus a (io s)) AND m) [c]"
proof -
  obtain x where x: "LOCK s = Some x" using assms(3) by (cases c) (auto simp: ga_atomic_def ga_reg_write8_def
        ga_reg_write16_def ga_reg_write32_def ga_reg_read8_def ga_reg_read16_def ga_reg_read32_def locked_def split: option.splits)
  have u: "unhooked x" "io x = io s" using x assms(1) by (auto simp: LOCK_def unhooked_def split: if_splits)
  have unl: "unhooked (UNLOCK y) = unhooked y" "io (UNLOCK y) = io y" for y :: "'a ga_state"
    by (auto simp: UNLOCK_def unhooked_def)
  show ?thesis
  proof (cases c)
    case (Write8 b k v opts)
    obtain q y where y: "ga_reg_update (ga_raw_readb bus) (ga_raw_writeb bus) 0xff b k v opts x = (q, y)" by fastforce
    with x assms(3) Write8 have "s' = UNLOCK y" by (auto simp: ga_atomic_def ga_reg_write8_def locked_def)
    with update_respects [OF u(1) assms(2) [unfolded Write8] y] u(2) Write8 show ?thesis by (simp add: unl)
  next
    case (Read8 b k)
    with x u assms(3) show ?thesis
      by (auto simp: ga_atomic_def ga_reg_read8_def locked_def ga_reg_fetch_def readb_reads unl)
  qed (use assms(2) in \<open>simp_all add: ga_respects_def\<close>)
qed

lemma last_bits_snoc: "last_bits a m x (cs @ [c]) = last_bits a m (last_bits a m x cs) [c]"
  by (induction a m x cs rule: last_bits.induct) auto

lemma serially_respects:
  "serially (ga_atomic bus) cs s = Some (rs, s') \<Longrightarrow> unhooked s \<Longrightarrow> list_all (ga_respects a m) cs \<Longrightarrow>
    unhooked s' \<and> fst (raw_readb bus a (io s')) AND m = last_bits a m (fst (raw_readb bus a (io s)) AND m) cs"
proof (induction cs arbitrary: s rs)
  case (Cons c cs)
  then obtain r y where y: "ga_atomic bus c s = Some (r, y)" by (auto split: option.splits)
  with Cons.prems have "\<exists>rs'. serially (ga_atomic bus) cs y = Some (rs', s')" by auto
  with Cons y atomic_respects [OF Cons.prems(2) _ y] have
    "unhooked s' \<and> fst (raw_readb bus a (io s')) AND m =
      last_bits a m (last_bits a m (fst (raw_readb bus a (io s)) AND m) [c]) cs" by auto
  moreover have "last_bits a m (last_bits a m z [c]) cs = last_bits a m z (c # cs)" for z by (cases c) simp_all
  ultimately show ?case by simp
qed simp

end

text \<open>
  C17. Drivers that share a register do not disturb each other. When every access to a register either writes all
  of the bits of a driver or is a read-modify-write of other bits, as the accesses of the LED and watchdog
  drivers are, then after any interleaving, whenever no access is under way, these bits are the ones of the last
  access of their owner: no update is lost.
\<close>

theorem ga_no_lost_update:
  assumes "io_bytes bus" and "unhooked g" and "mon_reach ga_enter (ga_move bus) g s"
    and "\<forall>t. \<not> is_inside (tasks s t)" and "list_all (ga_respects a m) (map (fst \<circ> snd) (hist s))"
  shows "fst (raw_readb bus a (io (shared s))) AND m =
    last_bits a m (fst (raw_readb bus a (io g)) AND m) (map (fst \<circ> snd) (hist s))"
  using io_bytes.serially_respects [OF assms(1) ga.serial [OF assms(3) TrueI assms(4)] assms(2,5)] by simp

text \<open>Two tasks set one bit each of the same register.\<close>

definition ga0 :: "(u32 \<Rightarrow> u8) ga_state" where
  "ga0 = \<lparr>addr_info = no_info, ga_lock_mode = GA_LM_SPINLOCK, ga_spinlock = False, ga_mutex = False, io = (\<lambda>_. 0)\<rparr>"

abbreviation (input) set_bit0 :: ga_call where "set_bit0 \<equiv> Write8 0x10 1 1 GA_READ_WRITE_ALWAYS"
abbreviation (input) set_bit1 :: ga_call where "set_bit1 \<equiv> Write8 0x10 2 2 GA_READ_WRITE_ALWAYS"

lemmas ga_run_defs = mon_next_def mon_start_def ga_enter_def ga_move_def ga_access_def ga_write_access_def ga_store_def
  LOCK_def UNLOCK_def ga_raw_readb_def ga_raw_writeb_def ram_bus_def ga0_def no_info_def no_ops_def lock_free_def
  ga_set_lock_mode_def

lemma two_setters:
  obtains s where "mon_reach ga_enter (ga_move ram_bus) ga0 s" "\<forall>t. \<not> is_inside (tasks s t)"
    "hist s = [(0, set_bit0, GA_MODIFIED_SURE), (1, set_bit1, GA_MODIFIED_SURE)]"
proof -
  have "\<exists>s. mon_exec ga_enter (ga_move ram_bus)
      [Call 0 set_bit0, Call 1 set_bit1, Go 0, Go 0, Go 0, Go 0, Go 1, Go 1, Go 1, Go 1] (mon_start ga0) = Some s \<and>
    (\<forall>t. \<not> is_inside (tasks s t)) \<and> hist s = [(0, set_bit0, GA_MODIFIED_SURE), (1, set_bit1, GA_MODIFIED_SURE)]"
    by (simp add: ga_run_defs)
  then show ?thesis by (elim exE conjE) (rule that [OF mon_exec_from_start])
qed

theorem ga_accesses_atomic_witness:
  "\<exists>s. mon_reach ga_enter (ga_move ram_bus) ga0 s \<and>
    serially (ga_atomic ram_bus) [set_bit0, set_bit1] ga0 = Some ([GA_MODIFIED_SURE, GA_MODIFIED_SURE], shared s)"
proof -
  obtain s where s: "mon_reach ga_enter (ga_move ram_bus) ga0 s" "\<forall>t. \<not> is_inside (tasks s t)"
    "hist s = [(0, set_bit0, GA_MODIFIED_SURE), (1, set_bit1, GA_MODIFIED_SURE)]"
    by (rule two_setters)
  moreover have "lock_free ga0" by (simp add: lock_free_def ga0_def)
  ultimately show ?thesis using ga_accesses_atomic [of ram_bus ga0 s] by auto
qed

theorem ga_no_lost_update_witness:
  "\<exists>s. mon_reach ga_enter (ga_move ram_bus) ga0 s \<and> io (shared s) 0x10 AND 1 = 1 \<and> io (shared s) 0x10 AND 2 = 2"
proof -
  obtain s where s: "mon_reach ga_enter (ga_move ram_bus) ga0 s" "\<forall>t. \<not> is_inside (tasks s t)"
    "hist s = [(0, set_bit0, GA_MODIFIED_SURE), (1, set_bit1, GA_MODIFIED_SURE)]"
    by (rule two_setters)
  have u: "unhooked ga0" by (simp add: unhooked_def ga0_def no_info_def no_ops_def)
  have r: "fst (raw_readb ram_bus 0x10 x) = x 0x10" for x by (simp add: ram_bus_def)
  have "io (shared s) 0x10 AND 1 = 1"
    using ga_no_lost_update [OF ram_bytes.io_bytes_axioms u s(1,2), where a = "0x10" and m = 1] s(3) by (simp add: ga_respects_def r)
  moreover have "io (shared s) 0x10 AND 2 = 2"
    using ga_no_lost_update [OF ram_bytes.io_bytes_axioms u s(1,2), where a = "0x10" and m = 2] s(3) by (simp add: ga_respects_def r)
  ultimately show ?thesis using s(1) by blast
qed

section \<open>Changing the lock mode\<close>

text \<open>
  \<^verbatim>\<open>LOCK\<close> and \<^verbatim>\<open>UNLOCK\<close> look at the mode independently, and \<^verbatim>\<open>ga_set_lock_mode\<close> takes no lock. When the mode
  changes between them, both tasks are inside, one of the two updates is lost, and the first lock is
  never released: an access in the old mode waits for ever.
\<close>

theorem ga_mode_switch:
  "\<exists>s1 s2. mon_exec ga_enter (ga_move ram_bus) [Call 0 set_bit0, Call 1 set_bit1, Go 0, Go 0] (mon_start ga0) = Some s1 \<and>
    mon_exec ga_enter (ga_move ram_bus) [Go 1, Go 1, Go 0, Go 1, Go 0, Go 1]
      (s1\<lparr>shared := ga_set_lock_mode GA_LM_MUTEX (shared s1)\<rparr>) = Some s2 \<and>
    (\<forall>t. tasks s2 t = Outside) \<and> io (shared s2) 0x10 = 2 \<and>
    (\<forall>c. ga_enter c (ga_set_lock_mode GA_LM_SPINLOCK (shared s2)) = None)"
  by (simp add: ga_run_defs)

end
