(* ===== verification/Gmem_Sched.thy ===== *)
theory Gmem_Sched
  imports Gmem Monitor
begin

text \<open>
  The memory devices used by several tasks at once. The transfers between the device and the users go
  byte by byte, so that tasks can meet in the middle of them. In \<^verbatim>\<open>src/gmem_mutex/gmem_mutex.c\<close> the mutex makes
  every handler atomic; in \<^verbatim>\<open>src/gmem/gmem.c\<close>, which has none, a read can return a mixture of an old and a
  new text.
\<close>

section \<open>The steps of a handler\<close>

text \<open>
  The calls: the reachable part of the user buffer, the size and the position of a read; the bytes, the
  size and the position of a write; the command. The results: the return value, the bytes the user has got,
  and the new position, which an ioctl does not have.
\<close>

datatype gm_op = GM_read nat u32 loff_t | GM_write "u8 list" u32 loff_t | GM_ioctl u32

type_synonym gm_ret = "int \<times> u8 list \<times> loff_t"

text \<open>The part of a handler before the mutex: a result, if it returns there.\<close>

definition gm_early :: "gm_op \<Rightarrow> gm_ret option" where
  "gm_early op = (case op of
     GM_read ulen sz pos \<Rightarrow> if GMEM_SIZE \<le> (ucast pos :: u32) then Some (0, [], pos) else None
   | GM_write ubuf sz pos \<Rightarrow> if GMEM_SIZE \<le> (ucast pos :: u32) then Some (0, [], pos) else None
   | GM_ioctl cmd \<Rightarrow> if cmd = MEM_CLEAR then None else Some (- EINVAL, [], 0))"

text \<open>
  The transfer. \<open>gm_from\<close> is the region a read copies out, as far as the user buffer is reachable; \<open>gm_into\<close>
  the place and the bytes that a write or the clearing stores. What the user memory does not provide is zero.
\<close>

definition gm_from :: "gm_op \<Rightarrow> nat \<times> nat" where
  "gm_from op = (case op of
     GM_read ulen sz pos \<Rightarrow> (unat (ucast pos :: u32), min (unat (gmem_count (ucast pos) sz)) ulen)
   | _ \<Rightarrow> (0, 0))"

definition gm_into :: "gm_op \<Rightarrow> nat \<times> u8 list" where
  "gm_into op = (case op of
     GM_write ubuf sz pos \<Rightarrow>
       (let n = unat (gmem_count (ucast pos) sz) in
        (unat (ucast pos :: u32), take n ubuf @ replicate (n - length ubuf) 0))
   | GM_ioctl cmd \<Rightarrow> (0, replicate (unat GMEM_SIZE) 0)
   | GM_read ulen sz pos \<Rightarrow> (0, []))"

text \<open>
  One byte of the transfer. The local state is the number of bytes done and, for a read, the bytes the user
  has got. The first component is \<open>None\<close> when the transfer is complete.
\<close>

definition gm_copy :: "gm_op \<Rightarrow> nat \<times> u8 list \<Rightarrow> 'a gmem_dev_scheme \<Rightarrow> (nat \<times> u8 list) option \<times> 'a gmem_dev_scheme" where
  "gm_copy op st d = (let (k, got) = st in
     case op of
       GM_read _ _ _ \<Rightarrow>
         (let (off, n) = gm_from op in
          if k < n then (Some (Suc k, got @ [mem d ! (off + k)]), d) else (None, d))
     | _ \<Rightarrow>
         (let (off, bs) = gm_into op in
          if k < length bs then (Some (Suc k, got), d\<lparr>mem := (mem d)[off + k := bs ! k]\<rparr>) else (None, d)))"

text \<open>Whether a part of the user memory could not be reached, and the result after the transfer.\<close>

definition gm_faults :: "gm_op \<Rightarrow> bool" where
  "gm_faults op = (case op of
     GM_read ulen sz pos \<Rightarrow> ulen < unat (gmem_count (ucast pos) sz)
   | GM_write ubuf sz pos \<Rightarrow> length ubuf < unat (gmem_count (ucast pos) sz)
   | GM_ioctl cmd \<Rightarrow> False)"

definition gm_result :: "gm_op \<Rightarrow> u8 list \<Rightarrow> gm_ret" where
  "gm_result op got = (case op of
     GM_read ulen sz pos \<Rightarrow>
       (if gm_faults op then (- EFAULT, got, pos)
        else (int (unat (gmem_count (ucast pos) sz)), got, pos + ucast (gmem_count (ucast pos) sz)))
   | GM_write ubuf sz pos \<Rightarrow>
       (if gm_faults op then (- EFAULT, [], pos)
        else (int (unat (gmem_count (ucast pos) sz)), [], pos + ucast (gmem_count (ucast pos) sz)))
   | GM_ioctl cmd \<Rightarrow> (0, [], 0))"

section \<open>The device with a mutex\<close>

text \<open>
  A call carries the task that makes it, which the mutex records. The write handler returns from a fault
  without releasing the mutex.
\<close>

definition gm_leaks :: "gm_op \<Rightarrow> bool" where
  "gm_leaks op = (case op of GM_write _ _ _ \<Rightarrow> gm_faults op | _ \<Rightarrow> False)"

definition gmx_enter :: "(tid \<times> gm_op, nat \<times> u8 list, gm_ret, gmem_mutex_dev) entry" where
  "gmx_enter c d = (let (t, op) = c in
     case gm_early op of
       Some r \<Rightarrow> Some (Inl r)
     | None \<Rightarrow> map_option (\<lambda>l. Inr ((0, []), d\<lparr>lock := l\<rparr>)) (mutex_lock t (lock d)))"

definition gmx_move :: "(tid \<times> gm_op, nat \<times> u8 list, gm_ret, gmem_mutex_dev) move" where
  "gmx_move c st d =
     (case gm_copy (snd c) st d of
        (Some st, d) \<Rightarrow> (Inl st, d)
      | (None, d) \<Rightarrow> (Inr (gm_result (snd c) (snd st)),
          if gm_leaks (snd c) then d else d\<lparr>lock := mutex_unlock (lock d)\<rparr>))"

text \<open>The handlers of theory \<open>Gmem\<close>, with their results in one form.\<close>

definition gmx_whole :: "tid \<times> gm_op \<Rightarrow> gmem_mutex_dev \<Rightarrow> (gm_ret \<times> gmem_mutex_dev) option" where
  "gmx_whole c d = (let (t, op) = c in
     case op of
       GM_read ulen sz pos \<Rightarrow> map_option (\<lambda>(r, got, pos, d). ((r, got, pos), d)) (gmem_mutex_read t d ulen sz pos)
     | GM_write ubuf sz pos \<Rightarrow> map_option (\<lambda>(r, pos, d). ((r, [], pos), d)) (gmem_mutex_write t d ubuf sz pos)
     | GM_ioctl cmd \<Rightarrow> map_option (\<lambda>(r, d). ((r, [], 0), d)) (gmem_mutex_ioctl t d cmd))"

section \<open>The rest of a transfer\<close>

definition gmx_finish :: "tid \<times> gm_op \<Rightarrow> nat \<times> u8 list \<Rightarrow> gmem_mutex_dev \<Rightarrow> gm_ret \<times> gmem_mutex_dev" where
  "gmx_finish c st d = (let op = snd c; (k, got) = st;
       got = got @ subarr (mem d) (fst (gm_from op) + k) (snd (gm_from op) - k);
       d = d\<lparr>mem := blit (mem d) (fst (gm_into op) + k) (drop k (snd (gm_into op)))\<rparr> in
     (gm_result op got, if gm_leaks op then d else d\<lparr>lock := mutex_unlock (lock d)\<rparr>))"

lemma blit_byte:
  assumes "off + length bs \<le> length m" and "k < length bs"
  shows "blit (m[off + k := bs ! k]) (off + Suc k) (drop (Suc k) bs) = blit m (off + k) (drop k bs)"
proof -
  have "blit m (off + k) (drop k bs) = blit m (off + k) (bs ! k # drop (Suc k) bs)"
    using assms(2) by (simp add: Cons_nth_drop_Suc)
  also have "\<dots> = blit (blit m (off + k) [bs ! k]) (off + k + length [bs ! k]) (drop (Suc k) bs)"
    using assms by (subst blit_blit_append) simp_all
  also have "blit m (off + k) [bs ! k] = m[off + k := bs ! k]"
    using assms by (simp add: blit_def upd_conv_take_nth_drop)
  finally show ?thesis by simp
qed

lemma subarr_byte: "off + n \<le> length m \<Longrightarrow> k < n \<Longrightarrow> m ! (off + k) # subarr m (off + Suc k) (n - Suc k) = subarr m (off + k) (n - k)"
  by (simp add: subarr_def flip: Cons_nth_drop_Suc take_Suc_Cons) (metis Suc_diff_Suc take_Suc_Cons)

text \<open>A transfer stays within the device.\<close>

lemma gm_from_bound: "gm_early op = None \<Longrightarrow> fst (gm_from op) + snd (gm_from op) \<le> 0x1000"
proof (cases op)
  case (GM_read ulen sz pos)
  assume "gm_early op = None"
  then have "\<not> GMEM_SIZE \<le> (ucast pos :: u32)" using GM_read by (simp add: gm_early_def split: if_splits)
  from gmem_count_bound [OF this, of sz] GM_read show ?thesis by (simp add: gm_from_def)
qed (simp_all add: gm_from_def)

lemma gm_into_bound: "gm_early op = None \<Longrightarrow> fst (gm_into op) + length (snd (gm_into op)) \<le> 0x1000"
proof (cases op)
  case (GM_write ubuf sz pos)
  assume "gm_early op = None"
  then have "\<not> GMEM_SIZE \<le> (ucast pos :: u32)" using GM_write by (simp add: gm_early_def split: if_splits)
  from gmem_count_bound [OF this, of sz] GM_write show ?thesis by (simp add: gm_into_def Let_def)
qed (simp_all add: gm_into_def)

lemma gm_copy_more:
  fixes d :: gmem_mutex_dev
  assumes len: "length (mem d) = 0x1000" and early: "gm_early op = None"
    and copy: "gm_copy op (k, got) d = (Some (k', got'), d')"
  shows "got' @ subarr (mem d') (fst (gm_from op) + k') (snd (gm_from op) - k') =
      got @ subarr (mem d) (fst (gm_from op) + k) (snd (gm_from op) - k)"
    and "d'\<lparr>mem := blit (mem d') (fst (gm_into op) + k') (drop k' (snd (gm_into op)))\<rparr> =
      d\<lparr>mem := blit (mem d) (fst (gm_into op) + k) (drop k (snd (gm_into op)))\<rparr>"
    and "length (mem d') = 0x1000" and "lock d' = lock d"
proof -
  note b = gm_from_bound [OF early] gm_into_bound [OF early]
  have R: "\<exists>ulen sz pos. op = GM_read ulen sz pos \<Longrightarrow> gm_into op = (0, [])"
    and W: "\<nexists>ulen sz pos. op = GM_read ulen sz pos \<Longrightarrow> gm_from op = (0, 0)"
    by (cases op; simp add: gm_into_def gm_from_def)+
  show "got' @ subarr (mem d') (fst (gm_from op) + k') (snd (gm_from op) - k') =
      got @ subarr (mem d) (fst (gm_from op) + k) (snd (gm_from op) - k)"
  proof (cases "\<exists>ulen sz pos. op = GM_read ulen sz pos")
    case True
    then have c: "k < snd (gm_from op)" "k' = Suc k" "got' = got @ [mem d ! (fst (gm_from op) + k)]" "d' = d"
      using copy by (auto simp: gm_copy_def split: prod.splits if_splits)
    with b(1) len subarr_byte [of "fst (gm_from op)" "snd (gm_from op)" "mem d" k] show ?thesis by simp
  next
    case False
    with copy W show ?thesis by (cases op) (auto simp: gm_copy_def subarr_def split: prod.splits if_splits)
  qed
  show "d'\<lparr>mem := blit (mem d') (fst (gm_into op) + k') (drop k' (snd (gm_into op)))\<rparr> =
      d\<lparr>mem := blit (mem d) (fst (gm_into op) + k) (drop k (snd (gm_into op)))\<rparr>"
  proof (cases "\<exists>ulen sz pos. op = GM_read ulen sz pos")
    case True
    with copy R show ?thesis by (auto simp: gm_copy_def split: prod.splits if_splits)
  next
    case False
    then have c: "k < length (snd (gm_into op))" "k' = Suc k"
        "d' = d\<lparr>mem := (mem d)[fst (gm_into op) + k := snd (gm_into op) ! k]\<rparr>"
      using copy by (cases op; auto simp: gm_copy_def split: prod.splits if_splits)+
    with b(2) len blit_byte [of "fst (gm_into op)" "snd (gm_into op)" "mem d" k] show ?thesis by simp
  qed
  show "length (mem d') = 0x1000" "lock d' = lock d"
    using copy len by (cases op; auto simp: gm_copy_def split: prod.splits if_splits)+
qed

lemma gm_copy_last:
  assumes "gm_copy op (k, got) d = (None, d')"
  shows "d' = d" and "subarr (mem d) (fst (gm_from op) + k) (snd (gm_from op) - k) = []"
    and "drop k (snd (gm_into op)) = []"
  using assms by (cases op; auto simp: gm_copy_def gm_from_def gm_into_def subarr_def Let_def split: prod.splits if_splits)+

lemma gmx_whole_finish:
  assumes "length (mem d) = 0x1000" and "gm_early op = None" and "lock d = None"
  shows "gmx_whole (t, op) d = Some (gmx_finish (t, op) (0, []) (d\<lparr>lock := Some t\<rparr>))"
proof (cases op)
  case (GM_read ulen sz pos)
  have "\<not> GMEM_SIZE \<le> (ucast pos :: u32)" using assms(2) GM_read by (simp add: gm_early_def split: if_splits)
  moreover from gmem_count_bound [OF this, of sz] assms(1)
  have "take ulen (subarr (mem d) (unat (ucast pos :: u32)) (unat (gmem_count (ucast pos) sz))) =
      subarr (mem d) (unat (ucast pos :: u32)) (min (unat (gmem_count (ucast pos) sz)) ulen)"
    and "length (subarr (mem d) (unat (ucast pos :: u32)) (unat (gmem_count (ucast pos) sz))) = unat (gmem_count (ucast pos) sz)"
    by (auto simp: subarr_def min_def)
  ultimately show ?thesis using assms(3) GM_read
    by (simp add: gmx_whole_def gmx_finish_def gmem_mutex_read_def gm_from_def gm_into_def gm_result_def gm_faults_def
        gm_leaks_def copy_to_user_def mutex_unlock_def Let_def flip: gmem_count_def)
next
  case (GM_write ubuf sz pos)
  have "\<not> GMEM_SIZE \<le> (ucast pos :: u32)" using assms(2) GM_write by (simp add: gm_early_def split: if_splits)
  then show ?thesis using assms(3) GM_write
    by (simp add: gmx_whole_def gmx_finish_def gmem_mutex_write_def gm_from_def gm_into_def gm_result_def gm_faults_def
        gm_leaks_def copy_from_user_def mutex_unlock_def subarr_def Let_def flip: gmem_count_def)
next
  case (GM_ioctl cmd)
  then have "cmd = MEM_CLEAR" using assms(2) by (simp add: gm_early_def split: if_splits)
  then show ?thesis using assms(3) GM_ioctl
    by (simp add: gmx_whole_def gmx_finish_def gmem_mutex_ioctl_def gm_from_def gm_into_def gm_result_def gm_leaks_def
        mutex_unlock_def subarr_def memset_def)
qed

lemma gmx_whole_early: "gm_early op = Some r \<Longrightarrow> gmx_whole (t, op) d = Some (r, d)"
  by (cases op) (auto simp: gm_early_def gmx_whole_def gmem_mutex_read_def gmem_mutex_write_def gmem_mutex_ioctl_def split: if_splits)

interpretation gmx: monitor gmx_enter gmx_move gmx_whole gmx_finish "\<lambda>d. lock d \<noteq> None" "\<lambda>d. length (mem d) = 0x1000"
  "\<lambda>c. gm_early (snd c) = None"
proof
  show "gmx_enter c s = Some (Inl r) \<Longrightarrow> gmx_whole c x = Some (r, x)" for c s r x
    by (auto simp: gmx_enter_def gmx_whole_early split: prod.splits option.splits)
  show "length (mem s) = 0x1000 \<Longrightarrow> gmx_enter c s = Some (Inr (l, x)) \<Longrightarrow> gmx_whole c s = Some (gmx_finish c l x) \<and>
      lock x \<noteq> None \<and> length (mem x) = 0x1000 \<and> gm_early (snd c) = None" for c s l x
    by (cases "lock s") (auto simp: gmx_enter_def gmx_whole_finish split: prod.splits option.splits)
  show "lock s \<noteq> None \<Longrightarrow> gmx_enter c s \<noteq> Some (Inr y)" for c s y
    by (auto simp: gmx_enter_def split: prod.splits option.splits)
  show "\<not> lock s \<noteq> None \<Longrightarrow> gmx_enter c s \<noteq> None" for c s
    by (auto simp: gmx_enter_def split: prod.splits option.splits)
  show "length (mem s) = 0x1000 \<Longrightarrow> lock s \<noteq> None \<Longrightarrow> gm_early (snd c) = None \<Longrightarrow> gmx_move c l s = (Inl l', x) \<Longrightarrow>
      gmx_finish c l' x = gmx_finish c l s \<and> lock x \<noteq> None \<and> length (mem x) = 0x1000" for c l l' s x
    using gm_copy_more [of s "snd c" "fst l" "snd l" "fst l'" "snd l'" x]
    by (auto simp: gmx_move_def gmx_finish_def Let_def split: prod.splits option.splits)
  show "length (mem s) = 0x1000 \<Longrightarrow> lock s \<noteq> None \<Longrightarrow> gm_early (snd c) = None \<Longrightarrow> gmx_move c l s = (Inr r, x) \<Longrightarrow>
      gmx_finish c l s = (r, x) \<and> length (mem x) = 0x1000" for c l r s x
    using gm_copy_last [of "snd c" "fst l" "snd l" s]
    by (auto simp: gmx_move_def gmx_finish_def Let_def split: prod.splits option.splits)
qed

text \<open>Only a write that faults leaves the mutex behind.\<close>

definition gm_stuck :: "gm_op \<Rightarrow> bool" where
  "gm_stuck op \<longleftrightarrow> gm_early op = None \<and> gm_leaks op"

lemma gmx_whole_frees:
  assumes "gmx_whole c d = Some (r, d')" and "lock d = None" and "\<not> gm_stuck (snd c)" and "length (mem d) = 0x1000"
  shows "lock d' = None" and "length (mem d') = 0x1000"
proof -
  obtain t op where c: "c = (t, op)" by fastforce
  have "lock d' = None \<and> length (mem d') = 0x1000"
  proof (cases "gm_early op")
    case None
    with assms c gmx_whole_finish [OF assms(4) None assms(2)] gm_into_bound [OF None] show ?thesis
      by (auto simp: gmx_finish_def gm_stuck_def mutex_unlock_def memsimps)
  next
    case (Some q)
    with assms c gmx_whole_early [OF Some] show ?thesis by simp
  qed
  then show "lock d' = None" and "length (mem d') = 0x1000" by simp_all
qed

lemma gmx_serially_frees:
  "serially gmx_whole cs d = Some (rs, d') \<Longrightarrow> lock d = None \<Longrightarrow> length (mem d) = 0x1000 \<Longrightarrow>
    list_all (\<lambda>c. \<not> gm_stuck (snd c)) cs \<Longrightarrow> lock d' = None"
proof (induction cs arbitrary: d rs)
  case (Cons c cs)
  then obtain r x where x: "gmx_whole c d = Some (r, x)" by (auto split: option.splits)
  with Cons.prems gmx_whole_frees [OF x] have "lock x = None" "length (mem x) = 0x1000" by simp_all
  with x Cons show ?case by auto
qed simp

text \<open>
  C13. The mutex makes the memory device atomic. Users read, write and clear the device byte by byte in any
  interleaving: at most one of them is between taking and releasing the mutex; whenever none is, the
  calls that have returned, executed as whole handlers in the order of their returns, give the same results and
  the same device; and a user that has made a call never waits for ever, unless a write whose user buffer faulted
  has returned without releasing the mutex.
\<close>

theorem gmem_mutex_atomic:
  assumes "mon_reach gmx_enter gmx_move d s" and "length (mem d) = 0x1000" and "lock d = None"
  shows "(\<forall>t u. is_inside (tasks s t) \<and> is_inside (tasks s u) \<longrightarrow> t = u) \<and>
    ((\<forall>t. \<not> is_inside (tasks s t)) \<longrightarrow>
      serially gmx_whole (map (fst \<circ> snd) (hist s)) d = Some (map (snd \<circ> snd) (hist s), shared s)) \<and>
    ((\<exists>t. tasks s t \<noteq> Outside) \<longrightarrow>
      (\<exists>t s'. tasks s t \<noteq> Outside \<and> mon_step gmx_enter gmx_move t s s') \<or>
      \<not> list_all (\<lambda>c. \<not> gm_stuck (snd c)) (map (fst \<circ> snd) (hist s)))"
proof (intro conjI impI)
  show "\<forall>t u. is_inside (tasks s t) \<and> is_inside (tasks s u) \<longrightarrow> t = u"
    using gmx.exclusive [OF assms(1,2)] by blast
  show ser: "serially gmx_whole (map (fst \<circ> snd) (hist s)) d = Some (map (snd \<circ> snd) (hist s), shared s)"
    if "\<forall>t. \<not> is_inside (tasks s t)" using gmx.serial [OF assms(1,2) that] .
  assume "\<exists>t. tasks s t \<noteq> Outside"
  then obtain t where "tasks s t \<noteq> Outside" ..
  then consider (step) "\<exists>u s'. tasks s u \<noteq> Outside \<and> mon_step gmx_enter gmx_move u s s'"
    | (left) "lock (shared s) \<noteq> None" "\<forall>u. \<not> is_inside (tasks s u)"
    using gmx.progress by blast
  then show "(\<exists>t s'. tasks s t \<noteq> Outside \<and> mon_step gmx_enter gmx_move t s s') \<or>
      \<not> list_all (\<lambda>c. \<not> gm_stuck (snd c)) (map (fst \<circ> snd) (hist s))"
  proof cases
    case left
    with gmx_serially_frees [OF ser [OF left(2)] assms(3,2)] show ?thesis by blast
  qed blast
qed

text \<open>A writer and a reader; the reader calls while the writer is inside.\<close>

abbreviation (input) put_two :: gm_op where "put_two \<equiv> GM_write [0x41, 0x42] 2 0"
abbreviation (input) get_two :: gm_op where "get_two \<equiv> GM_read 2 2 0"

definition gmx0 :: gmem_mutex_dev where
  "gmx0 = \<lparr>mem = replicate 0x1000 0, lock = None\<rparr>"

lemmas gm_run_defs = mon_next_def mon_start_def gmx_enter_def gmx_move_def gm_early_def gm_copy_def gm_from_def gm_into_def
  gm_result_def gm_faults_def gm_leaks_def gmem_count_def mutex_unlock_def mutex_lock_def

lemma put_then_get:
  obtains s where "mon_reach gmx_enter gmx_move gmx0 s" "\<forall>t. \<not> is_inside (tasks s t)"
    "hist s = [(0, (0, put_two), (2, [], 2)), (1, (1, get_two), (2, [0x41, 0x42], 2))]"
proof -
  have "\<exists>s. mon_exec gmx_enter gmx_move
      [Call 0 (0, put_two), Go 0, Go 0, Call 1 (1, get_two), Go 0, Go 0, Go 1, Go 1, Go 1, Go 1] (mon_start gmx0) = Some s \<and>
    (\<forall>t. \<not> is_inside (tasks s t)) \<and>
    hist s = [(0, (0, put_two), (2, [], 2)), (1, (1, get_two), (2, [0x41, 0x42], 2))]"
    by (simp add: gm_run_defs gmx0_def)
  then show ?thesis by (elim exE conjE) (rule that [OF mon_exec_from_start])
qed

theorem gmem_mutex_atomic_witness:
  "\<exists>s. mon_reach gmx_enter gmx_move gmx0 s \<and>
    serially gmx_whole [(0, put_two), (1, get_two)] gmx0 = Some ([(2, [], 2), (2, [0x41, 0x42], 2)], shared s)"
proof -
  obtain s where s: "mon_reach gmx_enter gmx_move gmx0 s" "\<forall>t. \<not> is_inside (tasks s t)"
    "hist s = [(0, (0, put_two), (2, [], 2)), (1, (1, get_two), (2, [0x41, 0x42], 2))]"
    by (rule put_then_get)
  moreover have "length (mem gmx0) = 0x1000" "lock gmx0 = None" by (simp_all add: gmx0_def)
  ultimately show ?thesis using gmem_mutex_atomic [of gmx0 s] by auto
qed

section \<open>The device without a mutex\<close>

definition gm_enter :: "(gm_op, nat \<times> u8 list, gm_ret, gmem_dev) entry" where
  "gm_enter op d = Some (case gm_early op of Some r \<Rightarrow> Inl r | None \<Rightarrow> Inr ((0, []), d))"

definition gm_move :: "(gm_op, nat \<times> u8 list, gm_ret, gmem_dev) move" where
  "gm_move op st d =
     (case gm_copy op st d of
        (Some st, d) \<Rightarrow> (Inl st, d)
      | (None, d) \<Rightarrow> (Inr (gm_result op (snd st)), d))"

definition gm_whole :: "gm_op \<Rightarrow> gmem_dev \<Rightarrow> (gm_ret \<times> gmem_dev) option" where
  "gm_whole op d = Some (case op of
     GM_read ulen sz pos \<Rightarrow> (gmem_read d ulen sz pos, d)
   | GM_write ubuf sz pos \<Rightarrow> (let (r, pos, d) = gmem_write d ubuf sz pos in ((r, [], pos), d))
   | GM_ioctl cmd \<Rightarrow> (let (r, d) = gmem_ioctl d cmd in ((r, [], 0), d)))"

lemma replicate_two: "replicate 2 x = [x, x]"
  by (simp add: numeral_2_eq_2)

text \<open>
  A reader that meets a writer gets a text that was never written: in both serial orders of the two calls
  it gets two bytes of the same text.
\<close>

theorem gmem_torn_read:
  fixes d :: gmem_dev defines "d \<equiv> \<lparr>mem = replicate 0x1000 0\<rparr>"
  shows "\<exists>s. mon_exec gm_enter gm_move [Call 0 put_two, Call 1 get_two, Go 0, Go 0, Go 1, Go 1, Go 1, Go 1, Go 0, Go 0]
      (mon_start d) = Some s \<and> (\<forall>t. tasks s t = Outside) \<and>
      hist s = [(1, get_two, (2, [0x41, 0], 2)), (0, put_two, (2, [], 2))] \<and>
      map_option fst (serially gm_whole [get_two, put_two] d) = Some [(2, [0, 0], 2), (2, [], 2)] \<and>
      map_option fst (serially gm_whole [put_two, get_two] d) = Some [(2, [], 2), (2, [0x41, 0x42], 2)]"
  by (simp add: gm_run_defs gm_enter_def gm_move_def gm_whole_def gmem_read_def gmem_write_def d_def copy_to_user_def
      copy_from_user_def subarr_def blit_def replicate_two)

end
