(* ===== verification/Gmem_Session.thy ===== *)
theory Gmem_Session
  imports Gmem Monitor
begin

text \<open>
  The file operations of the memory devices (the tables \<^verbatim>\<open>gmem_fops\<close> of \<^verbatim>\<open>src/gmem/gmem.c\<close>,
  \<^verbatim>\<open>src/gmem_mutex/gmem_mutex.c\<close> and \<^verbatim>\<open>src/gmem_n/gmem_n.c\<close>) as a user sees them: sequences of system calls on
  file descriptors. They refine a specification whose state is the bytes of each device and, for each open
  descriptor, a device and a position.
\<close>

section \<open>The file operations\<close>

record 'd gmem_operations =
  op_llseek :: "gmem_file \<Rightarrow> loff_t \<Rightarrow> int \<Rightarrow> int \<times> gmem_file"
  op_read :: "gmem_file \<Rightarrow> 'd \<Rightarrow> nat \<Rightarrow> u32 \<Rightarrow> loff_t \<Rightarrow> (int \<times> u8 list \<times> loff_t \<times> 'd) option"
  op_write :: "gmem_file \<Rightarrow> 'd \<Rightarrow> u8 list \<Rightarrow> u32 \<Rightarrow> loff_t \<Rightarrow> (int \<times> loff_t \<times> 'd) option"
  op_ioctl :: "gmem_file \<Rightarrow> 'd \<Rightarrow> u32 \<Rightarrow> (int \<times> 'd) option"
  op_open :: "nat \<Rightarrow> gmem_file \<Rightarrow> int \<times> gmem_file"
  op_release :: "gmem_file \<Rightarrow> int"

definition gmem_release :: "gmem_file \<Rightarrow> int" where
  "gmem_release filp = 0"

definition gmem_fops :: "gmem_dev gmem_operations" where
  "gmem_fops = \<lparr>
     op_llseek = gmem_llseek,
     op_read = (\<lambda>filp d ulen sz ppos. case gmem_read d ulen sz ppos of (r, bs, p) \<Rightarrow> Some (r, bs, p, d)),
     op_write = (\<lambda>filp d ubuf sz ppos. Some (gmem_write d ubuf sz ppos)),
     op_ioctl = (\<lambda>filp d cmd. Some (gmem_ioctl d cmd)),
     op_open = (\<lambda>i_cdev. gmem_open),
     op_release = gmem_release\<rparr>"

definition gmem_mutex_open :: "gmem_file \<Rightarrow> int \<times> gmem_file" where
  "gmem_mutex_open filp = (0, filp\<lparr>private_data := Some 0\<rparr>)"

definition gmem_mutex_release :: "gmem_file \<Rightarrow> int" where
  "gmem_mutex_release filp = 0"

definition gmem_mutex_fops :: "tid \<Rightarrow> gmem_mutex_dev gmem_operations" where
  "gmem_mutex_fops t = \<lparr>
     op_llseek = gmem_mutex_llseek,
     op_read = (\<lambda>filp. gmem_mutex_read t),
     op_write = (\<lambda>filp. gmem_mutex_write t),
     op_ioctl = (\<lambda>filp. gmem_mutex_ioctl t),
     op_open = (\<lambda>i_cdev. gmem_mutex_open),
     op_release = gmem_mutex_release\<rparr>"

definition gmem_n_release :: "gmem_file \<Rightarrow> int" where
  "gmem_n_release filp = 0"

definition gmem_n_fops :: "gmem_n_devs gmem_operations" where
  "gmem_n_fops = \<lparr>
     op_llseek = gmem_n_llseek,
     op_read = (\<lambda>filp d ulen sz ppos. map_option (\<lambda>(r, bs, p). (r, bs, p, d)) (gmem_n_read filp d ulen sz ppos)),
     op_write = gmem_n_write,
     op_ioctl = gmem_n_ioctl,
     op_open = gmem_n_open,
     op_release = gmem_n_release\<rparr>"

section \<open>System calls\<close>

text \<open>
  The kernel hands each call on a descriptor to the file operations of its file: a read or write with
  the position of the file, which it stores back unless the handler failed. \<open>n\<close> minor numbers have a device. A
  call on a descriptor that is not open fails without reaching the driver; the descriptor of an open is an unused
  one.
\<close>

datatype gmem_sys =
    Sys_open nat nat
  | Sys_read nat nat u32
  | Sys_write nat "u8 list" u32
  | Sys_lseek nat loff_t int
  | Sys_ioctl nat u32
  | Sys_close nat

record 'd gmem_session =
  device :: 'd
  files :: "nat \<Rightarrow> gmem_file option"

fun gmem_call :: "nat \<Rightarrow> 'd gmem_operations \<Rightarrow> gmem_sys \<Rightarrow> 'd gmem_session \<Rightarrow> ((int \<times> u8 list) \<times> 'd gmem_session) option" where
  "gmem_call n ops (Sys_open fd minor) s =
    (if files s fd \<noteq> None then Some ((- EBADF, []), s)
     else if n \<le> minor then Some ((- ENXIO, []), s)
     else let (r, filp) = op_open ops minor \<lparr>f_pos = 0, private_data = None\<rparr> in
       Some ((r, []), if r = 0 then s\<lparr>files := (files s)(fd \<mapsto> filp)\<rparr> else s))"
| "gmem_call n ops (Sys_read fd ulen sz) s =
    (case files s fd of
       None \<Rightarrow> Some ((- EBADF, []), s)
     | Some filp \<Rightarrow> map_option (\<lambda>(r, bs, p, d).
         ((r, bs), s\<lparr>device := d, files := (files s)(fd \<mapsto> if 0 \<le> r then filp\<lparr>f_pos := p\<rparr> else filp)\<rparr>))
         (op_read ops filp (device s) ulen sz (f_pos filp)))"
| "gmem_call n ops (Sys_write fd ubuf sz) s =
    (case files s fd of
       None \<Rightarrow> Some ((- EBADF, []), s)
     | Some filp \<Rightarrow> map_option (\<lambda>(r, p, d).
         ((r, []), s\<lparr>device := d, files := (files s)(fd \<mapsto> if 0 \<le> r then filp\<lparr>f_pos := p\<rparr> else filp)\<rparr>))
         (op_write ops filp (device s) ubuf sz (f_pos filp)))"
| "gmem_call n ops (Sys_lseek fd offset orig) s =
    (case files s fd of
       None \<Rightarrow> Some ((- EBADF, []), s)
     | Some filp \<Rightarrow> let (r, filp) = op_llseek ops filp offset orig in
         Some ((r, []), s\<lparr>files := (files s)(fd \<mapsto> filp)\<rparr>))"
| "gmem_call n ops (Sys_ioctl fd cmd) s =
    (case files s fd of
       None \<Rightarrow> Some ((- EBADF, []), s)
     | Some filp \<Rightarrow> map_option (\<lambda>(r, d). ((r, []), s\<lparr>device := d\<rparr>)) (op_ioctl ops filp (device s) cmd))"
| "gmem_call n ops (Sys_close fd) s =
    (case files s fd of
       None \<Rightarrow> Some ((- EBADF, []), s)
     | Some filp \<Rightarrow> Some ((op_release ops filp, []), s\<lparr>files := (files s)(fd := None)\<rparr>))"

section \<open>The specification\<close>

text \<open>
  \<open>img\<close> gives the bytes of each device; \<open>at\<close> the device and the position of each open descriptor. A transfer covers the
  bytes from the position to the end of the device at most; when the user memory is too small the call fails,
  with as much transferred as there is room for, and a write stores zeros for the rest. A seek goes to a target
  between 0 and the size of the device; an absolute one looks at 32 bits of the offset only.
\<close>

record gmem_spec =
  img :: "nat \<Rightarrow> u8 list"
  cursor :: "nat \<Rightarrow> (nat \<times> nat) option"

definition seek_target :: "nat \<Rightarrow> loff_t \<Rightarrow> int \<Rightarrow> int" where
  "seek_target p offset orig =
    (if orig = 0 then (if sint offset < 0 then - 1 else uint offset mod 2 ^ 32)
     else if orig = 1 then int p + sint offset
     else - 1)"

fun spec_call :: "nat \<Rightarrow> gmem_sys \<Rightarrow> gmem_spec \<Rightarrow> (int \<times> u8 list) \<times> gmem_spec" where
  "spec_call n (Sys_open fd minor) s =
    (if cursor s fd \<noteq> None then ((- EBADF, []), s)
     else if n \<le> minor then ((- ENXIO, []), s)
     else ((0, []), s\<lparr>cursor := (cursor s)(fd \<mapsto> (minor, 0))\<rparr>))"
| "spec_call n (Sys_read fd ulen sz) s =
    (case cursor s fd of
       None \<Rightarrow> ((- EBADF, []), s)
     | Some (i, p) \<Rightarrow> let k = min (unat sz) (0x1000 - p) in
         if k \<le> ulen then ((int k, take k (drop p (img s i))), s\<lparr>cursor := (cursor s)(fd \<mapsto> (i, p + k))\<rparr>)
         else ((- EFAULT, take ulen (drop p (img s i))), s))"
| "spec_call n (Sys_write fd ubuf sz) s =
    (case cursor s fd of
       None \<Rightarrow> ((- EBADF, []), s)
     | Some (i, p) \<Rightarrow> let k = min (unat sz) (0x1000 - p); new = take k ubuf @ replicate (k - length ubuf) 0;
           s' = s\<lparr>img := (img s)(i := take p (img s i) @ new @ drop (p + k) (img s i))\<rparr> in
         if k \<le> length ubuf then ((int k, []), s'\<lparr>cursor := (cursor s)(fd \<mapsto> (i, p + k))\<rparr>)
         else ((- EFAULT, []), s'))"
| "spec_call n (Sys_lseek fd offset orig) s =
    (case cursor s fd of
       None \<Rightarrow> ((- EBADF, []), s)
     | Some (i, p) \<Rightarrow> let q = seek_target p offset orig in
         if 0 \<le> q \<and> q \<le> 0x1000 then ((q, []), s\<lparr>cursor := (cursor s)(fd \<mapsto> (i, nat q))\<rparr>)
         else ((- EINVAL, []), s))"
| "spec_call n (Sys_ioctl fd cmd) s =
    (case cursor s fd of
       None \<Rightarrow> ((- EBADF, []), s)
     | Some (i, p) \<Rightarrow>
         if cmd = MEM_CLEAR then ((0, []), s\<lparr>img := (img s)(i := replicate 0x1000 0)\<rparr>)
         else ((- EINVAL, []), s))"
| "spec_call n (Sys_close fd) s =
    (case cursor s fd of
       None \<Rightarrow> ((- EBADF, []), s)
     | Some _ \<Rightarrow> ((0, []), s\<lparr>cursor := (cursor s)(fd := None)\<rparr>))"

fun spec_calls :: "nat \<Rightarrow> gmem_sys list \<Rightarrow> gmem_spec \<Rightarrow> (int \<times> u8 list) list \<times> gmem_spec" where
  "spec_calls n [] s = ([], s)"
| "spec_calls n (c # cs) s = (let (r, s) = spec_call n c s; (rs, s) = spec_calls n cs s in (r # rs, s))"

section \<open>Seeking\<close>

lemma sint_sum_small:
  fixes fp off :: u64
  assumes "unat fp \<le> 0x1000"
  shows "0 \<le> sint (fp + off) \<and> sint (fp + off) \<le> 0x1000 \<longleftrightarrow> 0 \<le> int (unat fp) + sint off \<and> int (unat fp) + sint off \<le> 0x1000"
    and "0 \<le> sint (fp + off) \<Longrightarrow> sint (fp + off) \<le> 0x1000 \<Longrightarrow> sint (fp + off) = int (unat fp) + sint off"
    and "fp + off = of_int (int (unat fp) + sint off)"
proof -
  let ?z = "int (unat fp) + sint off"
  have fp: "sint fp = int (unat fp)" using assms by (intro sint_small64) simp
  have off: "- (2 ^ 63) \<le> sint off" "sint off < 2 ^ 63" using sint_range_size [of off] by (simp_all add: word_size)
  have s: "sint (fp + off) = signed_take_bit 63 ?z" by (simp add: sint_word_ariths fp)
  have cases: "sint (fp + off) = ?z \<or> (0x1000 < ?z \<and> sint (fp + off) < 0)"
  proof (cases "?z < 2 ^ 63")
    case True
    with off have "signed_take_bit 63 ?z = ?z" by (intro signed_take_bit_int_eq_self) auto
    with s show ?thesis by simp
  next
    case False
    have "signed_take_bit 63 ?z = signed_take_bit 63 (?z - 2 ^ 64)"
      by (rule signed_take_bit_eq_iff_take_bit_eq [THEN iffD2]) (simp add: take_bit_eq_mod)
    also have "\<dots> = ?z - 2 ^ 64" using False off assms by (intro signed_take_bit_int_eq_self) auto
    finally show ?thesis using s False off assms by simp
  qed
  then show "0 \<le> sint (fp + off) \<and> sint (fp + off) \<le> 0x1000 \<longleftrightarrow> 0 \<le> ?z \<and> ?z \<le> 0x1000"
    and "0 \<le> sint (fp + off) \<Longrightarrow> sint (fp + off) \<le> 0x1000 \<Longrightarrow> sint (fp + off) = ?z" by auto
  have "of_int (int (unat fp)) = fp" by (simp only: uint_nat [symmetric] word_of_int_uint)
  then show "fp + off = of_int ?z" by simp
qed

lemma chr_llseek_target:
  assumes "unat fp \<le> 0x1000"
  shows "chr_llseek 0x1000 fp offset orig =
    (let q = seek_target (unat fp) offset orig in
     if 0 \<le> q \<and> q \<le> 0x1000 then (q, of_int q) else (- EINVAL, fp))"
proof -
  have u: "uint offset mod 2 ^ 32 = int (unat (ucast offset :: u32))"
    by (simp add: unsigned_ucast_eq take_bit_eq_mod zmod_int uint_nat)
  have up: "unat (ucast (ucast offset :: u32) :: loff_t) = unat (ucast offset :: u32)" by (simp only: unat_ucast_up)
  have s: "sint (ucast (ucast offset :: u32) :: loff_t) = int (unat (ucast offset :: u32))"
    if "unat (ucast offset :: u32) \<le> 0x1000" using that up sint_small64 [of "ucast (ucast offset :: u32)"] by simp
  have o: "of_nat (unat w) = (ucast w :: loff_t)" for w :: u32 by (rule of_nat_unat)
  have q: "seek_target (unat fp) offset 0 = (if sint offset < 0 then - 1 else int (unat (ucast offset :: u32)))"
    by (simp only: seek_target_def u) simp
  consider "orig = 0" | "orig = 1" | "orig \<noteq> 0" "orig \<noteq> 1" by blast
  then show ?thesis
  proof cases
    case 1
    with q s show ?thesis by (auto simp: chr_llseek_def Let_def simp del: unat_ucast_down intro: o [symmetric])
  next
    case 2
    with sint_sum_small [OF assms, of offset] show ?thesis
      by (auto simp: chr_llseek_def seek_target_def Let_def)
  next
    case 3
    then show ?thesis by (simp add: chr_llseek_def seek_target_def)
  qed
qed
section \<open>What the drivers provide\<close>

text \<open>
  The handlers of a driver with \<open>n\<close> devices, each of 4096 bytes; \<open>bytes\<close> are their contents. A driver that is not
  \<open>tolerant\<close> promises nothing after a write whose user buffer faults.
\<close>

locale mem_device =
  fixes n :: nat and ops :: "'d gmem_operations" and good :: "'d \<Rightarrow> bool" and bytes :: "'d \<Rightarrow> nat \<Rightarrow> u8 list"
    and tolerant :: bool
  assumes open_ok: "minor < n \<Longrightarrow> op_open ops minor f = (0, f\<lparr>private_data := Some minor\<rparr>)"
    and release_ok: "op_release ops f = 0"
    and llseek_ok: "op_llseek ops f off orig = (let (r, p) = chr_llseek 0x1000 (f_pos f) off orig in (r, f\<lparr>f_pos := p\<rparr>))"
    and read_ok: "good d \<Longrightarrow> private_data f = Some i \<Longrightarrow> i < n \<Longrightarrow> unat pos \<le> 0x1000 \<Longrightarrow>
      k = min (unat sz) (0x1000 - unat pos) \<Longrightarrow>
      op_read ops f d ulen sz pos =
        Some (if k \<le> ulen then (int k, subarr (bytes d i) (unat pos) k, pos + of_nat k, d)
              else (- EFAULT, take ulen (drop (unat pos) (bytes d i)), pos, d))"
    and write_ok: "good d \<Longrightarrow> private_data f = Some i \<Longrightarrow> i < n \<Longrightarrow> unat pos \<le> 0x1000 \<Longrightarrow>
      k = min (unat sz) (0x1000 - unat pos) \<Longrightarrow> tolerant \<or> k \<le> length ubuf \<Longrightarrow>
      \<exists>d'. op_write ops f d ubuf sz pos =
          Some (if k \<le> length ubuf then (int k, pos + of_nat k, d') else (- EFAULT, pos, d')) \<and>
        good d' \<and> bytes d' = (bytes d)(i := blit (bytes d i) (unat pos) (take k ubuf @ replicate (k - length ubuf) 0))"
    and ioctl_ok: "good d \<Longrightarrow> private_data f = Some i \<Longrightarrow> i < n \<Longrightarrow>
      \<exists>d'. op_ioctl ops f d cmd = Some (if cmd = MEM_CLEAR then 0 else - EINVAL, d') \<and> good d' \<and>
        bytes d' = (if cmd = MEM_CLEAR then (bytes d)(i := replicate 0x1000 0) else bytes d)"

definition gmem_abs :: "('d \<Rightarrow> nat \<Rightarrow> u8 list) \<Rightarrow> 'd gmem_session \<Rightarrow> gmem_spec" where
  "gmem_abs bytes s =
    \<lparr>img = bytes (device s),
     cursor = (\<lambda>fd. map_option (\<lambda>f. (the (private_data f), unat (f_pos f))) (files s fd))\<rparr>"

definition file_ok :: "nat \<Rightarrow> gmem_file \<Rightarrow> bool" where
  "file_ok n f \<longleftrightarrow> (\<exists>i < n. private_data f = Some i) \<and> unat (f_pos f) \<le> 0x1000"

definition session_ok :: "nat \<Rightarrow> ('d \<Rightarrow> bool) \<Rightarrow> 'd gmem_session \<Rightarrow> bool" where
  "session_ok n good s \<longleftrightarrow> good (device s) \<and> (\<forall>fd f. files s fd = Some f \<longrightarrow> file_ok n f)"

definition whole_buffer :: "gmem_sys \<Rightarrow> bool" where
  "whole_buffer c = (case c of Sys_write fd ubuf sz \<Rightarrow> unat sz \<le> length ubuf | _ \<Rightarrow> True)"

lemma pos_plus:
  assumes "unat pos \<le> 0x1000" and "k \<le> 0x1000 - unat pos"
  shows "unat (pos + of_nat k :: loff_t) = unat pos + k"
proof -
  have "unat (of_nat k :: loff_t) = k" using assms by (intro unat_of_nat64) simp
  then show ?thesis using assms by (subst unat_plus64) auto
qed

lemma pad_len: "min a k + (k - a) = (k :: nat)"
  by simp

lemma unat_of_target: "0 \<le> q \<Longrightarrow> q \<le> 0x1000 \<Longrightarrow> unat (of_int q :: loff_t) = nat q"
  using unat_of_nat64 [of "nat q"] by simp

context mem_device
begin

lemma file_cases:
  assumes "session_ok n good s" and "files s fd = Some f"
  obtains i where "i < n" "private_data f = Some i" "unat (f_pos f) \<le> 0x1000"
  using assms by (auto simp: session_ok_def file_ok_def)

text \<open>Each system call does what the specification says.\<close>

abbreviation (input) refines :: "gmem_sys \<Rightarrow> 'd gmem_session \<Rightarrow> bool" where
  "refines c s \<equiv> \<exists>s'. gmem_call n ops c s = Some (fst (spec_call n c (gmem_abs bytes s)), s') \<and>
     gmem_abs bytes s' = snd (spec_call n c (gmem_abs bytes s)) \<and> session_ok n good s'"

lemma open_refines: "session_ok n good s \<Longrightarrow> refines (Sys_open fd minor) s"
  by (auto simp: gmem_abs_def session_ok_def open_ok file_ok_def)

lemma close_refines: "session_ok n good s \<Longrightarrow> refines (Sys_close fd) s"
  by (cases "files s fd") (auto simp: gmem_abs_def session_ok_def release_ok)

lemma ioctl_refines:
  assumes "session_ok n good s" shows "refines (Sys_ioctl fd cmd) s"
proof (cases "files s fd")
  case (Some f)
  with assms obtain i where i: "i < n" "private_data f = Some i" by (rule file_cases)
  from assms have "good (device s)" by (simp add: session_ok_def)
  from ioctl_ok [OF this i(2,1), of cmd] assms Some i show ?thesis by (auto simp: gmem_abs_def session_ok_def)
qed (use assms in \<open>simp add: gmem_abs_def\<close>)

lemma lseek_refines:
  assumes "session_ok n good s" shows "refines (Sys_lseek fd off orig) s"
proof (cases "files s fd")
  case (Some f)
  with assms obtain i where i: "i < n" "private_data f = Some i" "unat (f_pos f) \<le> 0x1000" by (rule file_cases)
  let ?q = "seek_target (unat (f_pos f)) off orig"
  have ok: "file_ok n f" using i by (simp add: file_ok_def)
  show ?thesis
  proof (cases "0 \<le> ?q \<and> ?q \<le> 0x1000")
    case True
    with i unat_of_target [of ?q] have "file_ok n (f\<lparr>f_pos := of_int ?q\<rparr>)" by (simp add: file_ok_def nat_le_iff)
    with True Some i unat_of_target [of ?q] assms show ?thesis
      by (auto simp: gmem_abs_def llseek_ok chr_llseek_target Let_def session_ok_def)
  next
    case False
    with Some i ok assms show ?thesis
      by (auto simp: gmem_abs_def llseek_ok chr_llseek_target Let_def session_ok_def)
  qed
qed (use assms in \<open>simp add: gmem_abs_def\<close>)

lemma read_refines:
  assumes "session_ok n good s" shows "refines (Sys_read fd ulen sz) s"
proof (cases "files s fd")
  case (Some f)
  with assms obtain i where i: "i < n" "private_data f = Some i" "unat (f_pos f) \<le> 0x1000" by (rule file_cases)
  from assms have "good (device s)" by (simp add: session_ok_def)
  note rd = read_ok [OF this i(2,1,3) refl, where sz = sz and ulen = ulen]
  let ?k = "min (unat sz) (0x1000 - unat (f_pos f))"
  have p: "unat (f_pos f + of_nat ?k) = unat (f_pos f) + ?k" using i by (intro pos_plus) simp_all
  then have "file_ok n (f\<lparr>f_pos := f_pos f + of_nat ?k\<rparr>)" "file_ok n f" using i by (simp_all add: file_ok_def)
  with rd p Some i assms show ?thesis
    by (cases "?k \<le> ulen") (auto simp: gmem_abs_def Let_def session_ok_def subarr_def)
qed (use assms in \<open>simp add: gmem_abs_def\<close>)

lemma write_refines:
  assumes "session_ok n good s" and "tolerant \<or> unat sz \<le> length ubuf" shows "refines (Sys_write fd ubuf sz) s"
proof (cases "files s fd")
  case (Some f)
  with assms(1) obtain i where i: "i < n" "private_data f = Some i" "unat (f_pos f) \<le> 0x1000" by (rule file_cases)
  let ?k = "min (unat sz) (0x1000 - unat (f_pos f))"
  from assms have "good (device s)" "tolerant \<or> ?k \<le> length ubuf" by (auto simp: session_ok_def)
  from write_ok [OF this(1) i(2,1,3) refl this(2)] obtain d where d:
    "op_write ops f (device s) ubuf sz (f_pos f) =
      Some (if ?k \<le> length ubuf then (int ?k, f_pos f + of_nat ?k, d) else (- EFAULT, f_pos f, d))" "good d"
    "bytes d = (bytes (device s))(i := blit (bytes (device s) i) (unat (f_pos f)) (take ?k ubuf @ replicate (?k - length ubuf) 0))"
    by blast
  have p: "unat (f_pos f + of_nat ?k) = unat (f_pos f) + ?k" using i by (intro pos_plus) simp_all
  then have "file_ok n (f\<lparr>f_pos := f_pos f + of_nat ?k\<rparr>)" "file_ok n f" using i by (simp_all add: file_ok_def)
  with d p Some i assms show ?thesis
    by (cases "?k \<le> length ubuf") (auto simp: gmem_abs_def Let_def session_ok_def blit_def pad_len)
qed (use assms in \<open>simp add: gmem_abs_def\<close>)

lemma call_refines:
  assumes "session_ok n good s" and "tolerant \<or> whole_buffer c" shows "refines c s"
  using assms open_refines close_refines ioctl_refines lseek_refines read_refines write_refines
  by (cases c) (simp_all only: whole_buffer_def gmem_sys.case)

text \<open>So does every sequence of them.\<close>

lemma calls_refine:
  assumes "session_ok n good s" and "tolerant \<or> list_all whole_buffer cs"
  shows "\<exists>s'. serially (gmem_call n ops) cs s = Some (fst (spec_calls n cs (gmem_abs bytes s)), s') \<and>
     gmem_abs bytes s' = snd (spec_calls n cs (gmem_abs bytes s)) \<and> session_ok n good s'"
  using assms
proof (induction cs arbitrary: s)
  case (Cons c cs)
  then obtain x where x: "gmem_call n ops c s = Some (fst (spec_call n c (gmem_abs bytes s)), x)"
    "gmem_abs bytes x = snd (spec_call n c (gmem_abs bytes s))" "session_ok n good x"
    using call_refines [of s c] by auto
  with Cons show ?case by (fastforce simp: case_prod_beta Let_def)
qed simp

end

section \<open>The three drivers\<close>

lemma gmem_read_at_all:
  assumes "gmem_inv d" and "unat pos \<le> 0x1000" and "k = min (unat sz) (0x1000 - unat pos)"
  shows "gmem_read d ulen sz pos =
    (if k \<le> ulen then (int k, subarr (mem d) (unat pos) k, pos + of_nat k)
     else (- EFAULT, take ulen (drop (unat pos) (mem d)), pos))"
proof (cases "k \<le> ulen")
  case False
  note u = gmem_pos_cases [OF assms(2)]
  have "\<not> GMEM_SIZE \<le> (ucast pos :: u32)" using False assms(3) u(1) by (simp add: word_le_nat_alt)
  moreover have "unat (gmem_count (ucast pos) sz) = k" using u assms by (simp add: unat_gmem_count)
  moreover have "length (subarr (mem d) (unat pos) k) = k" using assms by (simp add: gmem_inv_def memsimps)
  ultimately show ?thesis using False u
    by (auto simp: gmem_read_def Let_def copy_to_user_def subarr_def min_def simp flip: gmem_count_def split: if_splits)
qed (simp add: gmem_read_at [OF assms])

lemma gmem_write_at_all:
  assumes "gmem_inv d" and "unat pos \<le> 0x1000" and "k = min (unat sz) (0x1000 - unat pos)"
    and "d' = d\<lparr>mem := blit (mem d) (unat pos) (take k ubuf @ replicate (k - length ubuf) 0)\<rparr>"
  shows "gmem_write d ubuf sz pos =
    (if k \<le> length ubuf then (int k, pos + of_nat k, d') else (- EFAULT, pos, d'))"
proof (cases "k \<le> length ubuf")
  case False
  note u = gmem_pos_cases [OF assms(2)]
  have "\<not> GMEM_SIZE \<le> (ucast pos :: u32)" using False assms(3) u(1) by (simp add: word_le_nat_alt)
  moreover have "unat (gmem_count (ucast pos) sz) = k" using u assms by (simp add: unat_gmem_count)
  ultimately show ?thesis using False u assms(4)
    by (simp add: gmem_write_def Let_def copy_from_user_def flip: gmem_count_def)
qed (simp add: gmem_write_at [OF assms(1,2,3)] assms(4))

lemma clear_all: "length m = 0x1000 \<Longrightarrow> memset m 0 0 0x1000 = replicate 0x1000 (0 :: u8)"
  by (simp add: memset_def blit_def)

lemma gmem_ioctl_at:
  "gmem_inv d \<Longrightarrow> gmem_ioctl d cmd =
    (if cmd = MEM_CLEAR then (0, d\<lparr>mem := replicate 0x1000 0\<rparr>) else (- EINVAL, d))"
  by (simp add: gmem_ioctl_def gmem_inv_def clear_all)

definition gmem_bytes :: "'a gmem_dev_scheme \<Rightarrow> nat \<Rightarrow> u8 list" where
  "gmem_bytes d i = (if i = 0 then mem d else [])"

definition gmem_n_bytes :: "gmem_n_devs \<Rightarrow> nat \<Rightarrow> u8 list" where
  "gmem_n_bytes ds i = (if i < length ds then mem (ds ! i) else [])"

lemma gmem_bytes_upd: "gmem_bytes (d\<lparr>mem := m\<rparr>) = (gmem_bytes d)(0 := m)"
  by (simp add: gmem_bytes_def fun_eq_iff)

lemma gmem_n_bytes_upd: "i < length ds \<Longrightarrow> gmem_n_bytes (ds[i := d]) = (gmem_n_bytes ds)(i := mem d)"
  by (auto simp: gmem_n_bytes_def fun_eq_iff nth_list_update)

interpretation gmem_user: mem_device 1 gmem_fops gmem_inv gmem_bytes True
proof (unfold_locales, goal_cases)
  case (4 d f i pos k sz ulen)
  then show ?case by (simp add: gmem_fops_def gmem_read_at_all gmem_bytes_def)
next
  case (5 d f i pos k sz ubuf)
  let ?d = "d\<lparr>mem := blit (mem d) (unat pos) (take k ubuf @ replicate (k - length ubuf) 0)\<rparr>"
  have w: "gmem_write d ubuf sz pos = (if k \<le> length ubuf then (int k, pos + of_nat k, ?d) else (- EFAULT, pos, ?d))"
    using 5 by (intro gmem_write_at_all) simp_all
  then have "gmem_inv ?d" using gmem_inv_write [of d ubuf sz pos] 5 by (simp split: if_splits)
  then show ?case using w 5 by (intro exI [of _ ?d]) (auto simp: gmem_fops_def gmem_bytes_upd gmem_bytes_def)
next
  case (6 d f i cmd)
  then show ?case by (auto simp: gmem_fops_def gmem_ioctl_at gmem_bytes_upd gmem_inv_def)
qed (simp_all add: gmem_fops_def gmem_open_def gmem_release_def gmem_llseek_def Let_def)

interpretation gmem_mutex_user: mem_device 1 "gmem_mutex_fops t" gmem_mutex_inv gmem_bytes False for t
proof (unfold_locales, goal_cases)
  case (4 d f i pos k sz ulen)
  then have "gmem_inv (gmem_dev.truncate d)" "lock d = None"
    by (simp_all add: gmem_inv_def gmem_mutex_inv_def gmem_dev.truncate_def)
  with 4 show ?case
    by (simp add: gmem_mutex_fops_def gmem_mutex_read_free gmem_read_at_all gmem_bytes_def gmem_dev.truncate_def)
next
  case (5 d f i pos k sz ubuf)
  then show ?case
    by (auto simp: gmem_mutex_fops_def gmem_mutex_write_ok gmem_bytes_upd gmem_bytes_def gmem_mutex_inv_def memsimps)
next
  case (6 d f i cmd)
  then have "d\<lparr>lock := None\<rparr> = d" by (cases d) (simp add: gmem_mutex_inv_def)
  with 6 show ?case
    by (auto simp: gmem_mutex_fops_def gmem_mutex_ioctl_def gmem_mutex_inv_def gmem_bytes_def fun_eq_iff mutex_unlock_def clear_all)
qed (simp_all add: gmem_mutex_fops_def gmem_mutex_open_def gmem_mutex_release_def gmem_mutex_llseek_def Let_def)

interpretation gmem_n_user: mem_device DEVICE_NUM gmem_n_fops gmem_n_inv gmem_n_bytes True
proof (unfold_locales, goal_cases)
  case (4 d f i pos k sz ulen)
  then show ?case using gmem_n_inv_nth [of d i]
    by (simp add: gmem_n_fops_def gmem_n_read_eq gmem_read_at_all gmem_n_bytes_def gmem_n_inv_def)
next
  case (5 ds f i pos k sz ubuf)
  let ?d = "(ds ! i)\<lparr>mem := blit (mem (ds ! i)) (unat pos) (take k ubuf @ replicate (k - length ubuf) 0)\<rparr>"
  have l: "i < length ds" and inv: "gmem_inv (ds ! i)" using 5 gmem_n_inv_nth [of ds i] by (simp_all add: gmem_n_inv_def)
  have w: "gmem_write (ds ! i) ubuf sz pos = (if k \<le> length ubuf then (int k, pos + of_nat k, ?d) else (- EFAULT, pos, ?d))"
    using 5 inv by (intro gmem_write_at_all) simp_all
  then have "gmem_inv ?d" using gmem_inv_write [of "ds ! i" ubuf sz pos] inv by (simp split: if_splits)
  then have "gmem_n_inv (ds[i := ?d])" using 5 gmem_n_inv_update by blast
  then show ?case using w 5 l
    by (intro exI [of _ "ds[i := ?d]"]) (simp add: gmem_n_fops_def gmem_n_write_eq gmem_n_bytes_upd, simp add: gmem_n_bytes_def)
next
  case (6 ds f i cmd)
  then have l: "i < length ds" and inv: "gmem_inv (ds ! i)" using gmem_n_inv_nth [of ds i] by (simp_all add: gmem_n_inv_def)
  then have "gmem_n_inv (ds[i := (ds ! i)\<lparr>mem := replicate 0x1000 0\<rparr>])" using 6 by (intro gmem_n_inv_update) (simp_all add: gmem_inv_def)
  with 6 l inv show ?case by (auto simp: gmem_n_fops_def gmem_n_ioctl_def clear_all gmem_inv_def gmem_n_bytes_upd)
qed (simp_all add: gmem_n_fops_def gmem_n_open_def gmem_n_release_def gmem_n_llseek_def Let_def)

section \<open>Users of the memory devices\<close>


text \<open>Two descriptors on one device: what the first writes, the second reads, from its own position.\<close>

definition zeroed :: "'d \<Rightarrow> 'd gmem_session" where
  "zeroed d = \<lparr>device = d, files = (\<lambda>_. None)\<rparr>"

definition two_users :: "gmem_sys list" where
  "two_users = [Sys_open 3 0, Sys_open 4 0, Sys_write 3 [0x41, 0x42] 2, Sys_read 4 2 2, Sys_lseek 4 (- 1) 1, Sys_lseek 3 0x1001 0, Sys_close 3]"

lemma spec_two_users:
  "n > 0 \<Longrightarrow> length (b 0) = 0x1000 \<Longrightarrow> fst (spec_calls n two_users \<lparr>img = b, cursor = (\<lambda>_. None)\<rparr>) =
    [(0, []), (0, []), (2, []), (2, [0x41, 0x42]), (1, []), (- EINVAL, []), (0, [])]"
  by (simp add: two_users_def seek_target_def)


end
