(* ===== verification/Sysfs.thy ===== *)
theory Sysfs
  imports Memloader C_Strings
begin

text \<open>
  The attributes that firmware loading and the memory loader have in sysfs: the tables of
  \<^verbatim>\<open>src/memloader/firmware.c\<close> and \<^verbatim>\<open>src/memloader/memloader_core.c\<close> (names and modes, with \<^verbatim>\<open>SYSFS_ATTR\<close> of
  \<^verbatim>\<open>src/generic/kernel_compat.h\<close>), the text a reader gets, and what a writer can change.
\<close>

unbundle bit_operations_syntax

section \<open>Attributes\<close>

record attribute =
  attr_name :: string
  attr_mode :: u32

definition SYSFS_ATTR :: "string \<Rightarrow> u32 \<Rightarrow> attribute" where
  "SYSFS_ATTR n m = \<lparr>attr_name = n, attr_mode = m\<rparr>"

abbreviation S_IRUGO :: u32 where "S_IRUGO \<equiv> 0x124"
abbreviation S_IWUGO :: u32 where "S_IWUGO \<equiv> 0x92"

definition fw_attrs :: "attribute list" where
  "fw_attrs = [
     SYSFS_ATTR ''state'' (S_IRUGO OR S_IWUGO),
     SYSFS_ATTR ''filename'' (S_IRUGO OR S_IWUGO),
     SYSFS_ATTR ''blockread'' (S_IRUGO OR S_IWUGO),
     SYSFS_ATTR ''blocksize'' (S_IRUGO OR S_IWUGO),
     SYSFS_ATTR ''blockdelay'' (S_IRUGO OR S_IWUGO),
     SYSFS_ATTR ''devicemask'' (S_IRUGO OR S_IWUGO),
     SYSFS_ATTR ''progress_pct'' S_IRUGO,
     SYSFS_ATTR ''progress_size'' S_IRUGO,
     SYSFS_ATTR ''total_size'' S_IRUGO]"

definition memloader_attrs :: "attribute list" where
  "memloader_attrs = [
     SYSFS_ATTR ''load-address'' (S_IRUGO OR S_IWUGO),
     SYSFS_ATTR ''load-size'' S_IRUGO]"

definition readable :: "attribute \<Rightarrow> bool" where "readable a \<longleftrightarrow> attr_mode a AND S_IRUGO \<noteq> 0"
definition writable :: "attribute \<Rightarrow> bool" where "writable a \<longleftrightarrow> attr_mode a AND S_IWUGO \<noteq> 0"

text \<open>The text that the show handlers print: \<^verbatim>\<open>%d\<close>, \<^verbatim>\<open>%s\<close>, \<^verbatim>\<open>0x%llx\<close> or \<^verbatim>\<open>0x%x\<close>, and a line feed.\<close>

abbreviation (input) LF :: char where "LF \<equiv> CHR 0x0A"

definition print_d :: "int \<Rightarrow> string" where
  "print_d n = (if n < 0 then CHR ''-'' # dec (nat (- n)) else dec (nat n))"

definition fw_show_text :: "string \<Rightarrow> 'd fw_context \<Rightarrow> int \<times> string" where
  "fw_show_text attr ctx = (case fw_show attr ctx of
     Number n \<Rightarrow> let t = print_d n @ [LF] in (int (length t), t)
   | Text s \<Rightarrow> let t = s @ [LF] in (int (length t), t)
   | Show_error e \<Rightarrow> (e, []))"

definition memloader_show_text :: "string \<Rightarrow> memloader_info \<Rightarrow> int \<times> string" where
  "memloader_show_text attr info = (case memloader_show attr info of
     Hex v \<Rightarrow> let t = ''0x'' @ radix 16 (unat v) @ [LF] in (int (length t), t)
   | Hex32 n \<Rightarrow> let t = ''0x'' @ radix 16 (unat (of_int n :: u32)) @ [LF] in (int (length t), t)
   | Ml_error e \<Rightarrow> (e, []))"

text \<open>
  The kernel's side: an access goes to the handler only if the attribute is in the table and its mode
  allows it. A store handler may not return, which is \<open>None\<close>.
\<close>

record 'c kobj_type =
  kt_show :: "string \<Rightarrow> 'c \<Rightarrow> int \<times> string"
  kt_store :: "string \<Rightarrow> string \<Rightarrow> 'c \<Rightarrow> (int \<times> 'c) option"
  kt_release :: "'c \<Rightarrow> 'c"
  default_attrs :: "attribute list"

definition fw_release :: "bool \<times> 'd fw_context \<Rightarrow> bool \<times> 'd fw_context" where
  "fw_release kobj = kobj"

definition fw_kobj_type :: "strtol \<Rightarrow> 'd fw_callbacks \<Rightarrow> int \<times> firmware \<Rightarrow> (nat \<Rightarrow> fw_state option) \<Rightarrow> fw_state option \<Rightarrow>
    (bool \<times> 'd fw_context) kobj_type" where
  "fw_kobj_type strtol cb req env env_end = \<lparr>
     kt_show = (\<lambda>attr (lock, ctx). fw_show_text attr ctx),
     kt_store = (\<lambda>attr buf (lock, ctx). fw_store strtol cb req env env_end attr buf lock ctx),
     kt_release = fw_release,
     default_attrs = fw_attrs\<rparr>"

definition memloader_release :: "memloader_info \<Rightarrow> memloader_info" where
  "memloader_release kobj = kobj"

definition memloader_kobj_type :: "strtol \<Rightarrow> memloader_info kobj_type" where
  "memloader_kobj_type strtol = \<lparr>
     kt_show = memloader_show_text,
     kt_store = (\<lambda>attr buf info. Some (memloader_store strtol attr buf info)),
     kt_release = memloader_release,
     default_attrs = memloader_attrs\<rparr>"

abbreviation (input) ENOENT' :: int where "ENOENT' \<equiv> 2"
abbreviation (input) EACCES' :: int where "EACCES' \<equiv> 13"

definition sysfs_read :: "'c kobj_type \<Rightarrow> string \<Rightarrow> 'c \<Rightarrow> int \<times> string" where
  "sysfs_read kt name c = (case find (\<lambda>a. attr_name a = name) (default_attrs kt) of
     None \<Rightarrow> (- ENOENT', [])
   | Some a \<Rightarrow> if readable a then kt_show kt name c else (- EACCES', []))"

definition sysfs_write :: "'c kobj_type \<Rightarrow> string \<Rightarrow> string \<Rightarrow> 'c \<Rightarrow> (int \<times> 'c) option" where
  "sysfs_write kt name buf c = (case find (\<lambda>a. attr_name a = name) (default_attrs kt) of
     None \<Rightarrow> Some (- ENOENT', c)
   | Some a \<Rightarrow> if writable a then kt_store kt name buf c else Some (- EACCES', c))"

section \<open>Settings\<close>

text \<open>The settings of a context are C integers, and the name fits its array and does not end in white space.\<close>

definition is_int32 :: "int \<Rightarrow> bool" where "is_int32 n \<longleftrightarrow> - (2 ^ 31) \<le> n \<and> n < 2 ^ 31"

definition fw_settings_ok :: "'d fw_context \<Rightarrow> bool" where
  "fw_settings_ok ctx \<longleftrightarrow> is_int32 (blockread ctx) \<and> is_int32 (blocksize ctx) \<and> is_int32 (blockdelay ctx) \<and>
     is_int32 (devicemask ctx) \<and> filename ctx \<noteq> [] \<and> length (filename ctx) < FILENAME_SIZE \<and> \<not> fw_space (last (filename ctx))"

text \<open>What the kernel documents of \<^verbatim>\<open>simple_strtol\<close> with base 10: it reads a decimal number up to the first other character.\<close>

definition strtol_reads :: "strtol \<Rightarrow> bool" where
  "strtol_reads strtol \<longleftrightarrow> (\<forall>n. is_int32 n \<longrightarrow> strtol 10 (print_d n @ [LF]) = n)"

definition settings :: "string list" where
  "settings = [''filename'', ''blockread'', ''blocksize'', ''blockdelay'', ''devicemask'']"

lemma is_int32_to_int32: "is_int32 (to_int32 x)"
proof -
  have "- (2 ^ 31) \<le> signed_take_bit 31 x" "signed_take_bit 31 x < 2 ^ 31"
    using signed_take_bit_int_greater_eq_minus_exp [of 31 x] signed_take_bit_int_less_exp [of 31 x] by simp_all
  then show ?thesis by (simp add: is_int32_def to_int32_def)
qed

lemma int32_same: "is_int32 n \<Longrightarrow> to_int32 n = n"
  by (simp add: is_int32_def to_int32_small)

lemma strip_len_app: "n \<le> length s \<Longrightarrow> strip_len (s @ t) n = strip_len s n"
  by (induction n) (auto simp: nth_append)

lemma filename_back:
  assumes "filename ctx \<noteq> []" and "length (filename ctx) < FILENAME_SIZE" and "\<not> fw_space (last (filename ctx))"
  shows "fw_set_filename (filename ctx @ [LF]) ctx = (0, ctx)"
proof -
  let ?s = "filename ctx"
  obtain k where k: "length ?s = Suc k" using assms(1) by (cases "length ?s") simp_all
  have "?s ! k = last ?s" using assms(1) k by (simp add: last_conv_nth)
  then have "strip_len (?s @ [LF]) (Suc (length ?s)) = length ?s"
    using assms(3) k by (simp add: strip_len_app fw_space_def nth_append)
  then show ?thesis using assms by (simp add: fw_set_filename_def)
qed

lemma filename_stored:
  assumes "fw_set_filename buf ctx = (r, ctx')"
  shows "r < 0 \<and> ctx' = ctx \<or>
    r = 0 \<and> (\<exists>f. ctx' = ctx\<lparr>filename := f\<rparr> \<and> f \<noteq> [] \<and> length f < FILENAME_SIZE \<and> \<not> fw_space (last f))"
proof -
  let ?n = "strip_len buf (length buf)"
  have n: "?n \<le> length buf" by (rule strip_len_bound)
  show ?thesis
  proof (cases "?n = 0 \<or> FILENAME_SIZE \<le> ?n")
    case False
    then have "last (take ?n buf) = buf ! (?n - 1)" using n by (subst last_conv_nth) auto
    with False assms strip_len_last [of buf "length buf"] n show ?thesis
      by (intro disjI2 conjI exI [of _ "take ?n buf"]) (auto simp: fw_set_filename_def Let_def)
  qed (use assms in \<open>auto simp: fw_set_filename_def\<close>)
qed

lemma fw_show_other:
  "b \<noteq> ''filename'' \<Longrightarrow> fw_show b (ctx\<lparr>filename := f\<rparr>) = fw_show b ctx"
  "b \<noteq> ''blockread'' \<Longrightarrow> fw_show b (ctx\<lparr>blockread := n\<rparr>) = fw_show b ctx"
  "b \<noteq> ''blocksize'' \<Longrightarrow> fw_show b (ctx\<lparr>blocksize := n\<rparr>) = fw_show b ctx"
  "b \<noteq> ''blockdelay'' \<Longrightarrow> fw_show b (ctx\<lparr>blockdelay := n\<rparr>) = fw_show b ctx"
  "b \<noteq> ''devicemask'' \<Longrightarrow> fw_show b (ctx\<lparr>devicemask := n\<rparr>) = fw_show b ctx"
  by (simp_all add: fw_show_def)

lemma settings_cases:
  assumes "a \<in> set settings"
  obtains "a = ''filename''" | "a = ''blockread''" | "a = ''blocksize''" | "a = ''blockdelay''" | "a = ''devicemask''"
proof -
  from assms have "a = ''filename'' \<or> a = ''blockread'' \<or> a = ''blocksize'' \<or> a = ''blockdelay'' \<or> a = ''devicemask''"
    by (simp only: settings_def list.set insert_iff empty_iff simp_thms)
  then show thesis by (elim disjE) (erule that)+
qed

text \<open>A store to a setting changes this setting only, to an admissible value.\<close>

lemma store_setting:
  assumes "a \<in> set settings" and "fw_settings_ok ctx"
  shows "\<exists>r ctx'. fw_store strtol cb req env env_end a buf lock ctx = Some (r, lock, ctx') \<and> fw_settings_ok ctx' \<and>
    (r < 0 \<longrightarrow> ctx' = ctx) \<and> (\<forall>b. b \<noteq> a \<longrightarrow> fw_show b ctx' = fw_show b ctx)"
proof -
  have num: ?thesis if "fw_store strtol cb req env env_end a buf lock ctx = Some (int (length buf), lock, ctx')"
    "fw_settings_ok ctx'" "\<forall>b. b \<noteq> a \<longrightarrow> fw_show b ctx' = fw_show b ctx" for ctx'
    using that by auto
  note i = is_int32_to_int32 [of "strtol 10 buf"]
  from assms(1) show ?thesis
  proof (cases rule: settings_cases)
    case 1
    obtain r c where rc: "fw_set_filename buf ctx = (r, c)" by fastforce
    moreover have "fw_settings_ok c \<and> (r < 0 \<longrightarrow> c = ctx) \<and> (\<forall>b. b \<noteq> ''filename'' \<longrightarrow> fw_show b c = fw_show b ctx)"
      using filename_stored [OF rc] assms(2)
      by (elim disjE conjE exE) (simp_all add: fw_settings_ok_def fw_show_other)
    ultimately show ?thesis using 1 by (simp add: fw_store_def)
  next
    case 2
    then show ?thesis using assms(2) i
      by (intro num [of "ctx\<lparr>blockread := to_int32 (strtol 10 buf)\<rparr>"])
        (simp_all add: fw_store_def fw_set_blockread_def fw_settings_ok_def fw_show_other)
  next
    case 3
    then show ?thesis using assms(2) i
      by (intro num [of "ctx\<lparr>blocksize := to_int32 (strtol 10 buf)\<rparr>"])
        (simp_all add: fw_store_def fw_set_blocksize_def fw_settings_ok_def fw_show_other)
  next
    case 4
    then show ?thesis using assms(2) i
      by (intro num [of "ctx\<lparr>blockdelay := to_int32 (strtol 10 buf)\<rparr>"])
        (simp_all add: fw_store_def fw_set_delay_def fw_settings_ok_def fw_show_other)
  next
    case 5
    then show ?thesis using assms(2) i
      by (intro num [of "ctx\<lparr>devicemask := to_int32 (strtol 10 buf)\<rparr>"])
        (simp_all add: fw_store_def fw_set_devicemask_def fw_settings_ok_def fw_show_other)
  qed
qed

text \<open>What a setting shows can be stored again and changes nothing.\<close>

lemma store_shown:
  assumes "a \<in> set settings" and "fw_settings_ok ctx" and "strtol_reads strtol"
  shows "fw_store strtol cb req env env_end a (snd (fw_show_text a ctx)) lock ctx =
    Some (fst (fw_show_text a ctx), lock, ctx)"
proof -
  have n: "to_int32 (strtol 10 (print_d n @ [LF])) = n" if "is_int32 n" for n
    using assms(3) that int32_same by (simp add: strtol_reads_def)
  from assms(1) show ?thesis
    using assms(2) n filename_back [of ctx]
    by (cases rule: settings_cases) (simp_all add: fw_store_def fw_set_blockread_def fw_set_blocksize_def fw_set_delay_def
          fw_set_devicemask_def fw_settings_ok_def fw_show_def fw_show_text_def Let_def)
qed

section \<open>The attribute files\<close>

lemmas sysfs_defs = sysfs_read_def sysfs_write_def fw_kobj_type_def memloader_kobj_type_def fw_attrs_def memloader_attrs_def
  SYSFS_ATTR_def readable_def writable_def

lemma mode_bits [simp]: "S_IRUGO AND S_IRUGO \<noteq> (0 :: u32)" "S_IRUGO AND S_IWUGO = (0 :: u32)"
  "(S_IRUGO OR S_IWUGO) AND S_IRUGO \<noteq> (0 :: u32)" "(S_IRUGO OR S_IWUGO) AND S_IWUGO \<noteq> (0 :: u32)"
  by simp_all

lemma write_setting: "a \<in> set settings \<Longrightarrow> sysfs_write (fw_kobj_type strtol cb req env env_end) a buf (lock, ctx) =
    fw_store strtol cb req env env_end a buf lock ctx"
  by (erule settings_cases) (simp_all add: sysfs_defs)

lemma read_any: "a \<in> set fw_attrs \<Longrightarrow>
    sysfs_read (fw_kobj_type strtol cb req env env_end) (attr_name a) (lock, ctx) = fw_show_text (attr_name a) ctx"
  by (auto simp: sysfs_defs)

lemma shown_length:
  assumes "a \<in> set fw_attrs"
  shows "fst (fw_show_text (attr_name a) ctx) = int (length (snd (fw_show_text (attr_name a) ctx)))"
    and "snd (fw_show_text (attr_name a) ctx) \<noteq> []"
  using assms by (auto simp: fw_attrs_def SYSFS_ATTR_def fw_show_text_def fw_show_def Let_def)

lemma refused:
  assumes "a \<notin> set settings" and "a \<noteq> ''state''"
  shows "\<exists>r < 0. sysfs_write (fw_kobj_type strtol cb req env env_end) a buf c = Some (r, c)"
  using assms by (auto simp: settings_def sysfs_defs)


text \<open>A number parser with this behaviour.\<close>

lemma c_number_line:
  "c_number 10 (dec n @ [LF]) = (False, n, True)" "c_number 10 (CHR ''-'' # dec n @ [LF]) = (True, n, True)"
proof -
  obtain c cs where r: "dec n = c # cs" using radix_digits [of 10 n] by (cases "dec n") auto
  have all: "list_all (\<lambda>c. digit_val c < 10) (dec n)" using radix_digits [of 10 n] by simp
  then have "digit_val c < 36" using r by simp
  then have c: "\<not> c_space c" "c \<noteq> CHR ''-''" "c \<noteq> CHR ''+''" using not_sign_digit by blast+
  have b: "base_prefix 10 (dec n @ [LF]) = (10, dec n @ [LF])" by (simp add: base_prefix_def split: list.split)
  have "\<not> digit_val LF < 10" "\<not> c_space CHR ''-''" by code_simp+
  then have "takeWhile (\<lambda>c. digit_val c < 10) (dec n @ [LF]) = dec n"
    using all by (subst takeWhile_append2) (auto simp: list_all_iff)
  then show "c_number 10 (dec n @ [LF]) = (False, n, True)" "c_number 10 (CHR ''-'' # dec n @ [LF]) = (True, n, True)"
    using c b r number_radix [of 10 n] \<open>\<not> c_space CHR ''-''\<close> by (simp_all add: c_number_def)
qed

lemma atol_reads: "strtol_reads (\<lambda>_. atol)"
  by (auto simp: strtol_reads_def print_d_def atol_def c_number_line)


end
