(* ===== verification/Relay_Log.thy ===== *)
theory Relay_Log
  imports Eoe Dhcp C_Strings
begin

text \<open>
  The log output of the packet relay: \<^verbatim>\<open>myLogFun\<close> of \<^verbatim>\<open>src/test_suite/netrelay/relay.c\<close> and the two routines
  \<^verbatim>\<open>packetDump\<close> of \<^verbatim>\<open>eoe_filter.c\<close> and \<^verbatim>\<open>dhcp_filter.c\<close>, which print the packets before and after they are edited.
\<close>

section \<open>Messages\<close>

datatype log_line = To_syslog int string | To_stderr string | To_stdout string

type_synonym log_out = "log_line list"

abbreviation (input) LOG_ERR :: int where "LOG_ERR \<equiv> 3"
abbreviation (input) LOG_DEBUG :: int where "LOG_DEBUG \<equiv> 7"
abbreviation (input) MAX_LOG_BUF_SIZE :: nat where "MAX_LOG_BUF_SIZE \<equiv> 255"
abbreviation (input) NL :: string where "NL \<equiv> [CHR 0x0A]"

text \<open>
  \<open>text\<close> is what the format string and its arguments give; the buffer is 255 bytes longer than the format string and
  cuts it off.
\<close>

definition myLogFun :: "relay_vars \<Rightarrow> string \<Rightarrow> nat \<Rightarrow> string \<Rightarrow> int \<Rightarrow> string \<Rightarrow> string \<Rightarrow> log_out \<Rightarrow> log_out" where
  "myLogFun v fileName lineNum func priority fmt text out =
    (if priority = LOG_DEBUG \<and> logLevel v = 0 then out
     else let logBuf = snprintf_str (length fmt + MAX_LOG_BUF_SIZE) text in
       if syslogEnabled v then
         out @ [To_syslog priority (''('' @ fileName @ '':'' @ func @ '':'' @ dec lineNum @ '') '' @ logBuf)]
       else if priority = LOG_ERR then out @ [To_stderr logBuf]
       else out @ [To_stdout logBuf])"

definition get_logLevel :: "relay_vars \<Rightarrow> nat" where
  "get_logLevel v = logLevel v"

section \<open>Dumping packets\<close>

definition upper_digit :: "nat \<Rightarrow> char" where
  "upper_digit n = (if n < 10 then char_of (48 + n) else char_of (55 + n))"

text \<open>\<^verbatim>\<open>%02X\<close> and a space.\<close>

definition hex2 :: "u8 \<Rightarrow> string" where
  "hex2 b = [upper_digit (unat b div 16), upper_digit (unat b mod 16), CHR '' '']"

text \<open>
  The dump of \<^verbatim>\<open>eoe_filter.c\<close> prints byte by byte. A packet that does not lie in its memory block would be read
  beyond it: \<open>None\<close>.
\<close>

fun eoe_dump_loop :: "relay_vars \<Rightarrow> u8 list \<Rightarrow> nat \<Rightarrow> log_out \<Rightarrow> log_out" where
  "eoe_dump_loop v [] i out = out"
| "eoe_dump_loop v (b # bs) i out =
    (let out = (if i mod 16 = 0 then myLogFun v ''eoe_filter.c'' 176 ''packetDump'' LOG_DEBUG NL NL out else out);
         out = myLogFun v ''eoe_filter.c'' 177 ''packetDump'' LOG_DEBUG ''%02X '' (hex2 b) out in
     eoe_dump_loop v bs (Suc i) out)"

definition dump_total :: "u32 \<Rightarrow> string" where
  "dump_total n = NL @ ''Total size: '' @
     (if sint n < 0 then CHR ''-'' # dec (nat (- sint n)) else dec (unat n)) @ NL"

abbreviation (input) total_fmt :: string where "total_fmt \<equiv> NL @ ''Total size: %d'' @ NL"

definition eoe_packetDump :: "relay_vars \<Rightarrow> buffer \<Rightarrow> string \<Rightarrow> log_out \<Rightarrow> log_out option" where
  "eoe_packetDump v b desc out =
    (if get_logLevel v \<le> 1 then Some out
     else case buffer_bytes b of
       None \<Rightarrow> None
     | Some bs \<Rightarrow>
         let out = myLogFun v ''eoe_filter.c'' 173 ''packetDump'' LOG_DEBUG ''%s'' desc out;
             out = eoe_dump_loop v bs 0 out in
         Some (myLogFun v ''eoe_filter.c'' 179 ''packetDump'' LOG_DEBUG total_fmt (dump_total (bsize b)) out))"

text \<open>
  The dump of \<^verbatim>\<open>dhcp_filter.c\<close> collects the bytes in an array of 64 characters and prints the array whenever a new
  line of 16 bytes begins, and after the loop when the last line is not full.
\<close>

definition c_string :: "string \<Rightarrow> string" where
  "c_string cs = takeWhile (\<lambda>c. c \<noteq> CHR 0x00) cs"

fun dhcp_dump_loop :: "relay_vars \<Rightarrow> u8 list \<Rightarrow> nat \<Rightarrow> string \<Rightarrow> log_out \<Rightarrow> string \<times> log_out" where
  "dhcp_dump_loop v [] i line out = (line, out)"
| "dhcp_dump_loop v (b # bs) i line out =
    (let out = (if i mod 16 = 0
         then myLogFun v ''dhcp_filter.c'' 132 ''packetDump'' LOG_DEBUG ''%s'' (c_string line)
           (myLogFun v ''dhcp_filter.c'' 131 ''packetDump'' LOG_DEBUG NL NL out)
         else out);
         line = blit line ((i mod 16) * 3) (hex2 b @ [CHR 0x00]) in
     dhcp_dump_loop v bs (Suc i) line out)"

definition dhcp_packetDump :: "relay_vars \<Rightarrow> buffer \<Rightarrow> string \<Rightarrow> log_out \<Rightarrow> log_out option" where
  "dhcp_packetDump v b desc out =
    (if get_logLevel v \<le> 1 then Some out
     else case buffer_bytes b of
       None \<Rightarrow> None
     | Some bs \<Rightarrow>
         let out = myLogFun v ''dhcp_filter.c'' 128 ''packetDump'' LOG_DEBUG ''%s'' desc out;
             (line, out) = dhcp_dump_loop v bs 0 (replicate 64 (CHR 0x00)) out;
             out = (if length bs mod 16 \<noteq> 0
               then myLogFun v ''dhcp_filter.c'' 137 ''packetDump'' LOG_DEBUG (NL @ ''%s'' @ NL) (NL @ c_string line @ NL) out
               else out) in
         Some (myLogFun v ''dhcp_filter.c'' 139 ''packetDump'' LOG_DEBUG total_fmt (dump_total (bsize b)) out))"

text \<open>The editing routines with their dumps.\<close>

abbreviation (input) before_edit :: string where "before_edit \<equiv> ''## Before packet edit(original data)''"
abbreviation (input) after_edit :: string where "after_edit \<equiv> ''## After packet edit(data will be forward)''"

definition logged_edit :: "(relay_vars \<Rightarrow> buffer \<Rightarrow> string \<Rightarrow> log_out \<Rightarrow> log_out option) \<Rightarrow> (buffer \<Rightarrow> u32 \<Rightarrow> buffer) \<Rightarrow>
    relay_vars \<Rightarrow> buffer \<Rightarrow> u32 \<Rightarrow> log_out \<Rightarrow> (buffer \<times> log_out) option" where
  "logged_edit dump edit v b dir out =
    (case dump v b before_edit out of
       None \<Rightarrow> None
     | Some out \<Rightarrow> let b = edit b dir in map_option (Pair b) (dump v b after_edit out))"

definition eoe_packetEdit :: "relay_vars \<Rightarrow> buffer \<Rightarrow> u32 \<Rightarrow> log_out \<Rightarrow> (buffer \<times> log_out) option" where
  "eoe_packetEdit = logged_edit eoe_packetDump eoe_edit"

definition dhcp_packetEdit :: "relay_vars \<Rightarrow> buffer \<Rightarrow> u32 \<Rightarrow> log_out \<Rightarrow> (buffer \<times> log_out) option" where
  "dhcp_packetEdit = logged_edit dhcp_packetDump dhcp_edit"

section \<open>What is printed\<close>

fun line_text :: "log_line \<Rightarrow> string" where
  "line_text (To_syslog p t) = t"
| "line_text (To_stderr t) = t"
| "line_text (To_stdout t) = t"

definition out_text :: "log_out \<Rightarrow> string" where
  "out_text out = concat (map line_text out)"

definition debugging :: "relay_vars \<Rightarrow> bool" where
  "debugging v \<longleftrightarrow> 1 < logLevel v \<and> \<not> syslogEnabled v"

lemma log_text:
  assumes "debugging v" and "length t < length fmt + 255"
  shows "out_text (myLogFun v f n g LOG_DEBUG fmt t out) = out_text out @ t"
  using assms by (simp add: myLogFun_def debugging_def out_text_def snprintf_str_def Let_def)

text \<open>The lines of a dump: the bytes in groups of 16.\<close>

fun hex_rows :: "u8 list \<Rightarrow> string list" where
  "hex_rows [] = []"
| "hex_rows (b # bs) = concat (map hex2 (take 16 (b # bs))) # hex_rows (drop 16 (b # bs))"

lemma hex2_length [simp]: "length (hex2 b) = 3"
  by (simp add: hex2_def)

lemma upper_digit_nz: "n < 16 \<Longrightarrow> upper_digit n \<noteq> CHR 0x00"
proof -
  assume n: "n < 16"
  have "of_char (upper_digit n) \<noteq> (0 :: nat)" using n by (simp add: upper_digit_def of_char_of)
  moreover have "of_char (CHR 0x00) = (0 :: nat)" by simp
  ultimately show ?thesis by metis
qed

lemma hex2_no_nul: "CHR 0x00 \<notin> set (hex2 b)"
proof -
  have "unat b div 16 < 16" using unsigned_less [of b, where ?'a = nat] by (simp add: less_mult_imp_div_less)
  then have "upper_digit (unat b div 16) \<noteq> CHR 0x00" "upper_digit (unat b mod 16) \<noteq> CHR 0x00"
    using upper_digit_nz by simp_all
  then show ?thesis by (simp add: hex2_def)
qed

lemma length_hex_concat: "length (concat (map hex2 bs)) = 3 * length bs"
  by (induction bs) simp_all

text \<open>The dump of \<^verbatim>\<open>eoe_filter.c\<close>.\<close>

fun eoe_text :: "nat \<Rightarrow> u8 list \<Rightarrow> string" where
  "eoe_text i [] = []"
| "eoe_text i (b # bs) = (if i mod 16 = 0 then NL else []) @ hex2 b @ eoe_text (Suc i) bs"

lemma eoe_loop_text: "debugging v \<Longrightarrow> out_text (eoe_dump_loop v bs i out) = out_text out @ eoe_text i bs"
  by (induction bs arbitrary: i out) (simp_all add: log_text Let_def)

lemma eoe_text_block:
  "0 < i mod 16 \<Longrightarrow> i mod 16 + length c \<le> 16 \<Longrightarrow> eoe_text i (c @ rest) = concat (map hex2 c) @ eoe_text (i + length c) rest"
proof (induction c arbitrary: i)
  case (Cons b c)
  then show ?case
  proof (cases c)
    case (Cons b' c')
    then have "0 < Suc i mod 16" "Suc i mod 16 + length c \<le> 16" using Cons.prems by (simp_all add: mod_Suc)
    with Cons.IH [of "Suc i"] Cons.prems show ?thesis by simp
  qed simp
qed simp

lemma eoe_text_rows: "i mod 16 = 0 \<Longrightarrow> eoe_text i bs = concat (map (Cons (CHR 0x0A)) (hex_rows bs))"
proof (induction bs arbitrary: i rule: hex_rows.induct)
  case (2 b bs)
  have "Suc i mod 16 = 1" using 2(2) by (simp add: mod_Suc)
  then have t: "eoe_text i (b # take 15 bs @ drop 15 bs) =
      NL @ hex2 b @ concat (map hex2 (take 15 bs)) @ eoe_text (Suc i + length (take 15 bs)) (drop 15 bs)"
    using 2(2) eoe_text_block [of "Suc i" "take 15 bs" "drop 15 bs"] by simp
  show ?case
  proof (cases "15 \<le> length bs")
    case True
    then have "(Suc i + length (take 15 bs)) mod 16 = 0" using 2(2) by (simp add: mod_Suc)
    with 2(1) [of "Suc i + length (take 15 bs)"] t show ?thesis by simp
  next
    case False
    then have "drop 15 bs = []" by simp
    then show ?thesis using t by simp
  qed
qed simp

text \<open>The dump of \<^verbatim>\<open>dhcp_filter.c\<close>: what the array holds after \<open>k\<close> bytes of a line.\<close>

definition row_holds :: "string \<Rightarrow> nat \<Rightarrow> string \<Rightarrow> bool" where
  "row_holds line k t \<longleftrightarrow> length line = 64 \<and> length t = 3 * k \<and> CHR 0x00 \<notin> set t \<and>
     (\<exists>rest. line = t @ CHR 0x00 # rest)"

lemma row_holds_string: "row_holds line k t \<Longrightarrow> c_string line = t"
  by (auto simp: row_holds_def c_string_def takeWhile_append)

lemma row_holds_first: "length line = 64 \<Longrightarrow> row_holds (blit line 0 (hex2 b @ [CHR 0x00])) 1 (hex2 b)"
  using hex2_no_nul [of b] by (auto simp: row_holds_def blit_def)

lemma row_holds_next:
  assumes "row_holds line k t" and "k < 16"
  shows "row_holds (blit line (k * 3) (hex2 b @ [CHR 0x00])) (Suc k) (t @ hex2 b)"
  using assms hex2_no_nul [of b] by (auto simp: row_holds_def blit_def)

lemma dhcp_row:
  assumes "0 < i mod 16" and "i mod 16 + length c \<le> 16" and "row_holds line (i mod 16) t"
  shows "\<exists>line'. dhcp_dump_loop v (c @ rest) i line out = dhcp_dump_loop v rest (i + length c) line' out \<and>
    row_holds line' (i mod 16 + length c) (t @ concat (map hex2 c))"
  using assms
proof (induction c arbitrary: i line t)
  case (Cons b c)
  let ?l = "blit line ((i mod 16) * 3) (hex2 b @ [CHR 0x00])"
  have h: "row_holds ?l (Suc (i mod 16)) (t @ hex2 b)" using Cons.prems by (intro row_holds_next) simp_all
  show ?case
  proof (cases c)
    case Nil
    with h Cons.prems show ?thesis by (intro exI [of _ ?l]) simp
  next
    case (Cons b' c')
    then have m: "Suc i mod 16 = Suc (i mod 16)" using Cons.prems by (simp add: mod_Suc)
    with Cons.prems Cons.IH [of "Suc i" ?l "t @ hex2 b"] h show ?thesis by auto
  qed
qed auto

lemma dhcp_rows:
  assumes "debugging v" and "i mod 16 = 0" and "length line = 64" and "length (c_string line) \<le> 48"
    and "dhcp_dump_loop v bs i line out = (line', out')"
  shows "out_text out' = out_text out @
      (if bs = [] then [] else concat (map (Cons (CHR 0x0A)) (c_string line # butlast (hex_rows bs)))) \<and>
    (bs \<noteq> [] \<longrightarrow> c_string line' = last (hex_rows bs))"
  using assms
proof (induction bs arbitrary: i line out rule: hex_rows.induct)
  case (2 b bs)
  let ?l = "blit line 0 (hex2 b @ [CHR 0x00])"
  let ?o = "myLogFun v ''dhcp_filter.c'' 132 ''packetDump'' LOG_DEBUG ''%s'' (c_string line)
           (myLogFun v ''dhcp_filter.c'' 131 ''packetDump'' LOG_DEBUG NL NL out)"
  let ?row = "hex2 b @ concat (map hex2 (take 15 bs))" and ?j = "Suc i + length (take 15 bs)"
  have o: "out_text ?o = out_text out @ NL @ c_string line" using 2(2,5) by (simp add: log_text)
  have m: "Suc i mod 16 = 1" using 2(3) by (simp add: mod_Suc)
  have "row_holds ?l (Suc i mod 16) (hex2 b)" using row_holds_first [OF 2(4), of b] m by simp
  from dhcp_row [OF _ _ this, of "take 15 bs" v "drop 15 bs" ?o] m obtain l where l:
    "dhcp_dump_loop v (take 15 bs @ drop 15 bs) (Suc i) ?l ?o = dhcp_dump_loop v (drop 15 bs) ?j l ?o"
    "row_holds l (Suc (length (take 15 bs))) ?row" by auto
  have run: "dhcp_dump_loop v (drop 15 bs) ?j l ?o = (line', out')" using 2(6) 2(3) l(1) by simp
  have row: "c_string l = ?row" "length l = 64" "length ?row \<le> 48"
    using row_holds_string [OF l(2)] l(2) by (simp_all add: row_holds_def length_hex_concat)
  show ?case
  proof (cases "drop 15 bs = []")
    case True
    then have "hex_rows (b # bs) = [?row]" by simp
    with run row o True show ?thesis by simp
  next
    case False
    then have "15 < length bs" by simp
    then have "?j mod 16 = 0" using 2(3) by (simp add: mod_Suc)
    with 2(1) [OF 2(2), of ?j l ?o] run row False have
      "out_text out' = out_text ?o @ concat (map (Cons (CHR 0x0A)) (?row # butlast (hex_rows (drop 15 bs)))) \<and>
        c_string line' = last (hex_rows (drop 15 bs))" by simp
    moreover have "hex_rows (drop 15 bs) \<noteq> []" using False by (cases "drop 15 bs") simp_all
    ultimately show ?thesis using o by simp
  qed
qed simp

lemma length_dec_u32: "n < 2 ^ 32 \<Longrightarrow> length (dec n) \<le> 10"
  by (rule length_radix) simp_all

lemma length_dump_total: "length (dump_total n) \<le> 30"
proof -
  have "unat n < 2 ^ 32" using unat_u32_bound [of n] by simp
  moreover have "nat (- sint n) < 2 ^ 32" using sint_range_size [of n] by (auto simp: word_size)
  ultimately show ?thesis using length_dec_u32 [of "unat n"] length_dec_u32 [of "nat (- sint n)"]
    by (simp add: dump_total_def)
qed

text \<open>
  The dumps. Below log level 2 nothing is printed. Otherwise the dump of \<^verbatim>\<open>eoe_filter.c\<close> shows all bytes in lines of
  16. The dump of \<^verbatim>\<open>dhcp_filter.c\<close> begins with an empty line, and shows the last line only if it is not full: of a
  packet whose size is a multiple of 16 the last 16 bytes are not shown.
\<close>

theorem packet_dumps:
  assumes "debugging v" and "buffer_bytes b = Some bs" and "length desc < 255"
  shows "\<exists>out' out''. eoe_packetDump v b desc out = Some out' \<and>
      out_text out' = out_text out @ desc @ concat (map (Cons (CHR 0x0A)) (hex_rows bs)) @ dump_total (bsize b) \<and>
    dhcp_packetDump v b desc out = Some out'' \<and>
      out_text out'' = out_text out @ desc @
        (if bs = [] then [] else NL @ concat (map (Cons (CHR 0x0A)) (butlast (hex_rows bs)))) @
        (if length bs mod 16 = 0 then [] else NL @ last (hex_rows bs) @ NL) @ dump_total (bsize b)"
proof -
  have l: "1 < logLevel v" using assms(1) by (simp add: debugging_def)
  have t: "length (dump_total (bsize b)) < length total_fmt + 255" using length_dump_total [of "bsize b"] by simp
  obtain line out1 where lo: "dhcp_dump_loop v bs 0 (replicate 64 (CHR 0x00))
      (myLogFun v ''dhcp_filter.c'' 128 ''packetDump'' LOG_DEBUG ''%s'' desc out) = (line, out1)" by fastforce
  have empty: "c_string (replicate 64 (CHR 0x00)) = []" by (simp add: c_string_def takeWhile_replicate)
  note rows = dhcp_rows [OF assms(1) _ _ _ lo, unfolded empty, simplified]
  have last: "length (last (hex_rows bs)) \<le> 48" if "bs \<noteq> []"
    using that
  proof (induction bs rule: hex_rows.induct)
    case (2 b bs)
    then show ?case by (cases "drop 15 bs") (simp_all add: length_hex_concat)
  qed simp
  define out2 where "out2 = (if length bs mod 16 \<noteq> 0
    then myLogFun v ''dhcp_filter.c'' 137 ''packetDump'' LOG_DEBUG (NL @ ''%s'' @ NL) (NL @ c_string line @ NL) out1 else out1)"
  have "bs \<noteq> [] \<Longrightarrow> c_string line = last (hex_rows bs)" and e: "length bs mod 16 \<noteq> 0 \<Longrightarrow> bs \<noteq> []" using rows by auto
  then have out2: "out_text out2 = out_text out1 @ (if length bs mod 16 = 0 then [] else NL @ last (hex_rows bs) @ NL)"
    using last by (cases "length bs mod 16 = 0") (simp_all add: out2_def log_text [OF assms(1)])
  have out1: "out_text out1 = out_text out @ desc @
      (if bs = [] then [] else NL @ concat (map (Cons (CHR 0x0A)) (butlast (hex_rows bs))))"
    using rows assms(3) by (simp add: log_text [OF assms(1)])
  have "dhcp_packetDump v b desc out =
      Some (myLogFun v ''dhcp_filter.c'' 139 ''packetDump'' LOG_DEBUG total_fmt (dump_total (bsize b)) out2)"
    using l assms(2) lo by (simp add: dhcp_packetDump_def get_logLevel_def out2_def)
  then have d: "\<exists>out''. dhcp_packetDump v b desc out = Some out'' \<and>
      out_text out'' = out_text out @ desc @
        (if bs = [] then [] else NL @ concat (map (Cons (CHR 0x0A)) (butlast (hex_rows bs)))) @
        (if length bs mod 16 = 0 then [] else NL @ last (hex_rows bs) @ NL) @ dump_total (bsize b)"
    using log_text [OF assms(1) t] out1 out2 by (intro exI conjI) (assumption, simp)
  have "\<exists>out'. eoe_packetDump v b desc out = Some out' \<and>
      out_text out' = out_text out @ desc @ concat (map (Cons (CHR 0x0A)) (hex_rows bs)) @ dump_total (bsize b)"
    using l assms t by (auto simp: eoe_packetDump_def get_logLevel_def log_text eoe_loop_text eoe_text_rows Let_def)
  with d show ?thesis by blast
qed

text \<open>Logging does not change what happens to the packet, and it never fails on a packet inside its buffer.\<close>

theorem logged_edit_same:
  assumes "buffer_bytes b \<noteq> None" and "buffer_bytes (eoe_edit b dir) \<noteq> None" and "buffer_bytes (dhcp_edit b dir) \<noteq> None"
  shows "map_option fst (eoe_packetEdit v b dir out) = Some (eoe_edit b dir) \<and>
    map_option fst (dhcp_packetEdit v b dir out) = Some (dhcp_edit b dir) \<and>
    (logLevel v \<le> 1 \<longrightarrow> map_option snd (eoe_packetEdit v b dir out) = Some out \<and>
       map_option snd (dhcp_packetEdit v b dir out) = Some out)"
  using assms
  by (auto simp: eoe_packetEdit_def dhcp_packetEdit_def logged_edit_def eoe_packetDump_def dhcp_packetDump_def
      get_logLevel_def Let_def split: prod.splits)

end
