(* ===== verification/Platform.thy ===== *)
theory Platform
  imports Gfifo_Drivers Memloader Uio Watchdog Led
begin

text \<open>
  The platform drivers: their tables (name, compatible strings, probe and remove), the module functions that register
  them, and the platform bus that binds a driver to a device whenever both are there. The locale \<open>managed_driver\<close> says
  what a driver must provide for everything to be released again; the FIFO drivers, the memory
  loader and the UIO driver provide it. The sources are \<^verbatim>\<open>src/led/led_dev.c\<close>, \<^verbatim>\<open>src/watchdog/watchdog.c\<close>,
  \<^verbatim>\<open>src/memloader/memloader_core.c\<close>, \<^verbatim>\<open>src/uio/uio.c\<close>, \<^verbatim>\<open>src/gfifo_platform\<close>, \<^verbatim>\<open>src/gfifo_misc\<close> and \<^verbatim>\<open>src/gfifo_misc_n\<close>.
\<close>

section \<open>Drivers and devices\<close>

record ('k, 's) platform_driver =
  pd_name :: string
  of_match_table :: "string list"
  pd_probe :: "'k \<Rightarrow> 's \<Rightarrow> (int \<times> 's) option"
  pd_remove :: "'s \<Rightarrow> (int \<times> 's) option"

text \<open>A device has a name, the compatible strings of its node, and the answers the kernel gives to its probe.\<close>

record 'k platform_dev =
  dev_name :: string
  compatible :: "string list"
  answers :: 'k

definition platform_match :: "('k, 's) platform_driver \<Rightarrow> 'k platform_dev \<Rightarrow> bool" where
  "platform_match d x \<longleftrightarrow> list_ex (\<lambda>c. c \<in> set (of_match_table d)) (compatible x) \<or> dev_name x = pd_name d"

definition led_dev_driver :: "'io iobus \<Rightarrow> (led_kernel \<times> led_node list, 'io led_sys) platform_driver" where
  "led_dev_driver bus = \<lparr>pd_name = ''leds_dev'', of_match_table = [''alu, dev-leds''],
     pd_probe = (\<lambda>(k, nodes). led_dev_probe bus k nodes), pd_remove = led_dev_remove bus\<rparr>"

definition dev_watchdog_driver :: "'io iobus \<Rightarrow> (wd_kernel, 'io dev_watchdog) platform_driver" where
  "dev_watchdog_driver bus = \<lparr>pd_name = ''dev_watchdog'', of_match_table = [''dev-watchdog''],
     pd_probe = dev_watchdog_probe bus, pd_remove = dev_watchdog_remove bus\<rparr>"

text \<open>The state of the memory loader: the lock of firmware loading and the device. \<open>zeroed\<close> is a fresh allocation.\<close>

definition memloader_driver :: "memloader_info fw_context \<Rightarrow> (memloader_kernel, bool \<times> memloader_pdev) platform_driver" where
  "memloader_driver zeroed = \<lparr>pd_name = ''memloader'', of_match_table = [''memloader''],
     pd_probe = (\<lambda>k (lock, p). Some (memloader_probe k zeroed lock p)),
     pd_remove = (\<lambda>(lock, p). map_option (\<lambda>(r, p). (r, lock, p)) (memloader_remove p))\<rparr>"

definition ldd_uio_driver :: "int \<Rightarrow> (uio_kernel, uio_sys) platform_driver" where
  "ldd_uio_driver uio_irq = \<lparr>pd_name = ''ldd_uio'', of_match_table = [''ldd_uio''],
     pd_probe = (\<lambda>k s. Some (ldd_uio_probe k uio_irq s)), pd_remove = ldd_uio_remove\<rparr>"

definition gfifo_platform_driver :: "(chr_kernel, chr_module) platform_driver" where
  "gfifo_platform_driver = \<lparr>pd_name = ''gfifo'', of_match_table = [],
     pd_probe = (\<lambda>k s. Some (gfifo_platform_probe k s)), pd_remove = (\<lambda>s. Some (0, gfifo_platform_remove s))\<rparr>"

definition gfifo_misc_driver :: "nat \<Rightarrow> (misc_kernel, misc_state) platform_driver" where
  "gfifo_misc_driver pdev = \<lparr>pd_name = ''gfifo'', of_match_table = [],
     pd_probe = (\<lambda>k s. Some (gfifo_misc_probe k pdev s)), pd_remove = gfifo_misc_remove pdev\<rparr>"

definition gfifo_misc_n_driver :: "nat \<Rightarrow> (misc_kernel, misc_state) platform_driver" where
  "gfifo_misc_n_driver pdev = \<lparr>pd_name = ''gfifo'', of_match_table = [],
     pd_probe = (\<lambda>k s. Some (gfifo_misc_n_probe k pdev s)), pd_remove = gfifo_misc_n_remove pdev\<rparr>"

section \<open>The bus\<close>

text \<open>
  The driver core. A driver is bound to a matching device as soon as both are there and \<^verbatim>\<open>probe\<close> returns
  zero; before one of them goes, \<^verbatim>\<open>remove\<close> is called. After a failing probe and after remove the core frees what is bound
  to the device, \<open>devm\<close>. A probe or remove function that does not return or follows a null pointer is \<open>None\<close>.
\<close>

record ('k, 's) platform =
  loaded :: bool
  plugged :: "'k platform_dev option"
  bound :: bool
  sys :: 's

definition bind :: "('k, 's) platform_driver \<Rightarrow> ('s \<Rightarrow> 's) \<Rightarrow> ('k, 's) platform \<Rightarrow> ('k, 's) platform option" where
  "bind d devm p = (case plugged p of
     None \<Rightarrow> Some p
   | Some x \<Rightarrow>
       if loaded p \<and> \<not> bound p \<and> platform_match d x
       then map_option (\<lambda>(r, s). if r = 0 then p\<lparr>bound := True, sys := s\<rparr> else p\<lparr>sys := devm s\<rparr>) (pd_probe d (answers x) (sys p))
       else Some p)"

definition unbind :: "('k, 's) platform_driver \<Rightarrow> ('s \<Rightarrow> 's) \<Rightarrow> ('k, 's) platform \<Rightarrow> ('k, 's) platform option" where
  "unbind d devm p =
     (if bound p then map_option (\<lambda>(r, s). p\<lparr>bound := False, sys := devm s\<rparr>) (pd_remove d (sys p)) else Some p)"

definition platform_driver_register :: "('k, 's) platform_driver \<Rightarrow> ('s \<Rightarrow> 's) \<Rightarrow> ('k, 's) platform \<Rightarrow> ('k, 's) platform option" where
  "platform_driver_register d devm p = bind d devm (p\<lparr>loaded := True\<rparr>)"

definition platform_driver_unregister :: "('k, 's) platform_driver \<Rightarrow> ('s \<Rightarrow> 's) \<Rightarrow> ('k, 's) platform \<Rightarrow> ('k, 's) platform option" where
  "platform_driver_unregister d devm p = map_option (\<lambda>p. p\<lparr>loaded := False\<rparr>) (unbind d devm p)"

text \<open>The module functions. The LED, watchdog and memory loader modules release everything themselves, UIO does not.\<close>

definition led_dev_driver_init :: "'io iobus \<Rightarrow> (led_kernel \<times> led_node list, 'io led_sys) platform \<Rightarrow> (led_kernel \<times> led_node list, 'io led_sys) platform option" where
  "led_dev_driver_init bus = platform_driver_register (led_dev_driver bus) id"

definition led_dev_driver_exit :: "'io iobus \<Rightarrow> (led_kernel \<times> led_node list, 'io led_sys) platform \<Rightarrow> (led_kernel \<times> led_node list, 'io led_sys) platform option" where
  "led_dev_driver_exit bus = platform_driver_unregister (led_dev_driver bus) id"

definition dev_watchdog_module_init :: "'io iobus \<Rightarrow> (wd_kernel, 'io dev_watchdog) platform \<Rightarrow> (wd_kernel, 'io dev_watchdog) platform option" where
  "dev_watchdog_module_init bus p =
     platform_driver_register (dev_watchdog_driver bus) id (p\<lparr>sys := dev_watchdog_init (sys p)\<rparr>)"

definition dev_watchdog_exit :: "'io iobus \<Rightarrow> (wd_kernel, 'io dev_watchdog) platform \<Rightarrow> (wd_kernel, 'io dev_watchdog) platform option" where
  "dev_watchdog_exit bus = platform_driver_unregister (dev_watchdog_driver bus) id"

definition memloader_init :: "memloader_info fw_context \<Rightarrow> (memloader_kernel, bool \<times> memloader_pdev) platform \<Rightarrow> (memloader_kernel, bool \<times> memloader_pdev) platform option" where
  "memloader_init zeroed = platform_driver_register (memloader_driver zeroed) id"

definition memloader_exit :: "memloader_info fw_context \<Rightarrow> (memloader_kernel, bool \<times> memloader_pdev) platform \<Rightarrow> (memloader_kernel, bool \<times> memloader_pdev) platform option" where
  "memloader_exit zeroed = platform_driver_unregister (memloader_driver zeroed) id"

definition ldd_uio_module_init :: "int \<Rightarrow> (uio_kernel, uio_sys) platform \<Rightarrow> (uio_kernel, uio_sys) platform option" where
  "ldd_uio_module_init uio_irq = platform_driver_register (ldd_uio_driver uio_irq) devm_release"

definition ldd_uio_exit :: "int \<Rightarrow> (uio_kernel, uio_sys) platform \<Rightarrow> (uio_kernel, uio_sys) platform option" where
  "ldd_uio_exit uio_irq = platform_driver_unregister (ldd_uio_driver uio_irq) devm_release"

text \<open>Anything can happen in any order: the module comes and goes, and so does the device.\<close>

datatype 'k plat_event = Load | Unload | Plug "'k platform_dev" | Unplug

fun platform_event :: "('k, 's) platform_driver \<Rightarrow> ('s \<Rightarrow> 's) \<Rightarrow> 'k plat_event \<Rightarrow> ('k, 's) platform \<Rightarrow> ('k, 's) platform option" where
  "platform_event d devm Load p = (if loaded p then Some p else platform_driver_register d devm p)"
| "platform_event d devm Unload p = (if loaded p then platform_driver_unregister d devm p else Some p)"
| "platform_event d devm (Plug x) p = (if plugged p \<noteq> None then Some p else bind d devm (p\<lparr>plugged := Some x\<rparr>))"
| "platform_event d devm Unplug p = map_option (\<lambda>p. p\<lparr>plugged := None\<rparr>) (unbind d devm p)"

fun platform_events :: "('k, 's) platform_driver \<Rightarrow> ('s \<Rightarrow> 's) \<Rightarrow> 'k plat_event list \<Rightarrow> ('k, 's) platform \<Rightarrow> ('k, 's) platform option" where
  "platform_events d devm [] p = Some p"
| "platform_events d devm (e # es) p =
    (case platform_event d devm e p of None \<Rightarrow> None | Some p \<Rightarrow> platform_events d devm es p)"

definition platform0 :: "'s \<Rightarrow> ('k, 's) platform" where
  "platform0 s = \<lparr>loaded = False, plugged = None, bound = False, sys = s\<rparr>"

section \<open>Drivers that release what they acquire\<close>

text \<open>
  \<open>clean\<close> states hold nothing of the driver, \<open>attached\<close> ones what a device needs. \<open>fine\<close> are the answers of the kernel for
  which a failing probe cleans up.
\<close>

locale managed_driver =
  fixes d :: "('k, 's) platform_driver" and devm :: "'s \<Rightarrow> 's"
    and clean attached :: "'s \<Rightarrow> bool" and fine :: "'k \<Rightarrow> bool"
  assumes probe_ok: "clean s \<Longrightarrow> fine k \<Longrightarrow>
      \<exists>r s'. pd_probe d k s = Some (r, s') \<and> (if r = 0 then attached s' else clean (devm s'))"
    and remove_ok: "attached s \<Longrightarrow> \<exists>r s'. pd_remove d s = Some (r, s') \<and> clean (devm s')"
begin

definition managed :: "('k, 's) platform \<Rightarrow> bool" where
  "managed p \<longleftrightarrow> (if bound p then loaded p \<and> plugged p \<noteq> None \<and> attached (sys p) else clean (sys p)) \<and>
     (\<forall>x. plugged p = Some x \<longrightarrow> fine (answers x))"

lemma bind_managed:
  assumes "managed p"
  shows "\<exists>q. bind d devm p = Some q \<and> managed q \<and> loaded q = loaded p \<and> plugged q = plugged p"
proof (cases "plugged p")
  case (Some x)
  show ?thesis
  proof (cases "loaded p \<and> \<not> bound p \<and> platform_match d x")
    case True
    with assms Some have "clean (sys p)" "fine (answers x)" by (simp_all add: managed_def)
    from probe_ok [OF this] obtain r s where
      "pd_probe d (answers x) (sys p) = Some (r, s)" "if r = 0 then attached s else clean (devm s)" by blast
    with True Some assms show ?thesis by (auto simp: bind_def managed_def)
  next
    case False
    with Some assms show ?thesis by (auto simp: bind_def)
  qed
qed (use assms in \<open>simp add: bind_def\<close>)

lemma unbind_managed:
  assumes "managed p"
  shows "\<exists>q. unbind d devm p = Some q \<and> \<not> bound q \<and> managed q \<and> loaded q = loaded p \<and> plugged q = plugged p"
proof (cases "bound p")
  case True
  with assms have "attached (sys p)" by (simp add: managed_def)
  from remove_ok [OF this] obtain r s where "pd_remove d (sys p) = Some (r, s)" "clean (devm s)" by blast
  with True assms show ?thesis
    by (intro exI [of _ "p\<lparr>bound := False, sys := devm s\<rparr>"]) (auto simp: unbind_def managed_def)
qed (use assms in \<open>simp add: unbind_def\<close>)

lemma event_managed:
  assumes "managed p" and "\<forall>x. e = Plug x \<longrightarrow> fine (answers x)"
  shows "\<exists>q. platform_event d devm e p = Some q \<and> managed q"
proof (cases e)
  case Load
  show ?thesis
  proof (cases "loaded p")
    case False
    with assms(1) have "managed (p\<lparr>loaded := True\<rparr>)" by (auto simp: managed_def)
    from bind_managed [OF this] False Load show ?thesis by (auto simp: platform_driver_register_def)
  qed (use assms Load in simp)
next
  case Unload
  from unbind_managed [OF assms(1)] Unload assms(1) show ?thesis
    by (auto simp: platform_driver_unregister_def managed_def)
next
  case (Plug x)
  show ?thesis
  proof (cases "plugged p")
    case None
    with assms Plug have "managed (p\<lparr>plugged := Some x\<rparr>)" by (auto simp: managed_def)
    from bind_managed [OF this] None Plug show ?thesis by auto
  qed (use assms Plug in simp)
next
  case Unplug
  from unbind_managed [OF assms(1)] Unplug show ?thesis by (auto simp: managed_def)
qed

lemma events_managed:
  "managed p \<Longrightarrow> \<forall>x. Plug x \<in> set es \<longrightarrow> fine (answers x) \<Longrightarrow> \<exists>q. platform_events d devm es p = Some q \<and> managed q"
proof (induction es arbitrary: p)
  case (Cons e es)
  then obtain q where "platform_event d devm e p = Some q" "managed q" using event_managed [of p e] by auto
  with Cons show ?case by auto
qed simp

text \<open>Whatever happens, every call returns, and whenever the driver is not bound nothing is held.\<close>

lemma released:
  assumes "clean s" and "\<forall>x. Plug x \<in> set es \<longrightarrow> fine (answers x)"
  shows "\<exists>p. platform_events d devm es (platform0 s) = Some p \<and> (if bound p then attached (sys p) else clean (sys p))"
proof -
  have "managed (platform0 s)" using assms(1) by (simp add: managed_def platform0_def)
  from events_managed [OF this assms(2)] show ?thesis by (auto simp: managed_def split: if_splits)
qed

end

section \<open>The drivers\<close>

interpretation gfifo_plat: managed_driver gfifo_platform_driver id chr_clean "gmem_attached 1" "\<lambda>_. True"
proof (unfold_locales, goal_cases)
  case (1 s k)
  obtain r s' where p: "gfifo_platform_probe k s = (r, s')" by fastforce
  moreover have "r = 0 \<or> r < 0" using p by (auto simp: gfifo_platform_probe_def split: prod.splits if_splits)
  ultimately show ?case
    using gfifo_platform_chr.init_fail [OF 1(1) p] gfifo_platform_chr.init_ok [OF 1(1) p] by (auto simp: gfifo_platform_driver_def)
next
  case (2 s)
  then show ?case using gfifo_platform_chr.exit_clean by (simp add: gfifo_platform_driver_def)
qed

definition uio_clean :: "uio_sys \<Rightarrow> bool" where
  "uio_clean s \<longleftrightarrow> allocs s = [] \<and> mapped s = [] \<and> uio_devs s = []"

definition uio_attached :: "uio_sys \<Rightarrow> bool" where
  "uio_attached s \<longleftrightarrow> (\<exists>info va. uio_drvdata s = Some info \<and> uio_devs s = [info] \<and> internal_addr info = Some va \<and> mapped s = [va])"

interpretation uio_plat: managed_driver "ldd_uio_driver uio_irq" devm_release uio_clean uio_attached "\<lambda>k. uio_register k = 0"
  for uio_irq
proof (unfold_locales, goal_cases)
  case (1 s k)
  obtain r s' where p: "ldd_uio_probe k uio_irq s = (r, s')" by fastforce
  have "if r = 0 then uio_attached s' else uio_clean (devm_release s')"
    using p 1 by (auto simp: ldd_uio_probe_def uio_fail_def devm_release_def uio_clean_def uio_attached_def Let_def
        split: option.splits if_splits)
  with p show ?case by (simp add: ldd_uio_driver_def)
next
  case (2 s)
  then show ?case
    by (auto simp: ldd_uio_driver_def ldd_uio_remove_def devm_release_def uio_clean_def uio_attached_def)
qed

definition ml_clean :: "bool \<times> memloader_pdev \<Rightarrow> bool" where
  "ml_clean s \<longleftrightarrow> ml_alloc (snd s) = 0 \<and> \<not> ml_kobj (snd s) \<and> (\<forall>c. drvdata_ctx (snd s) = Some c \<longrightarrow> \<not> kobj_added c)"

definition ml_attached :: "bool \<times> memloader_pdev \<Rightarrow> bool" where
  "ml_attached s \<longleftrightarrow> ml_alloc (snd s) = 1 \<and> ml_kobj (snd s) \<and> drvdata_ctx (snd s) \<noteq> None"

interpretation ml_plat: managed_driver "memloader_driver (z\<lparr>kobj_added := False\<rparr>)" id ml_clean ml_attached
  "\<lambda>k. kobject_add_ret (ml_tree k) \<le> 0" for z
proof (unfold_locales, goal_cases)
  case (1 s k)
  obtain lock p where s: "s = (lock, p)" by fastforce
  obtain r l p' where p: "memloader_probe k (z\<lparr>kobj_added := False\<rparr>) lock p = (r, l, p')" by (metis prod_cases3)
  have "ml_attached (l, p')" if "r = 0"
    using p that 1(1) s by (auto simp: memloader_probe_def ml_attached_def ml_clean_def Let_def split: if_splits option.splits prod.splits)
  moreover have "ml_clean (l, p')" if "r \<noteq> 0"
    using memloader_lifecycle [OF p _ 1(2)] that 1(1) s by (auto simp: ml_clean_def)
  ultimately show ?case using p s by (auto simp: memloader_driver_def)
next
  case (2 s)
  then show ?case
    by (cases s) (auto simp: memloader_driver_def memloader_remove_def ml_attached_def ml_clean_def fw_cleanup_kobj)
qed

definition misc_clean :: "misc_state \<Rightarrow> bool" where
  "misc_clean s \<longleftrightarrow> live s = [] \<and> miscdevs s = []"

definition misc_attached :: "nat \<Rightarrow> misc_state \<Rightarrow> bool" where
  "misc_attached i s \<longleftrightarrow> drvdata s i = Some i \<and> live s = [i] \<and> (\<exists>n. miscdevs s = [(i, n)])"

definition misc_fine :: "misc_kernel \<Rightarrow> bool" where
  "misc_fine k \<longleftrightarrow> \<not> misc_kzalloc_ok k \<or> misc_register_ret k = 0"

interpretation misc_plat: managed_driver "gfifo_misc_driver i" id misc_clean "misc_attached i" misc_fine for i
  by unfold_locales (auto simp: gfifo_misc_driver_def gfifo_misc_probe_def gfifo_misc_remove_def misc_clean_def
      misc_attached_def misc_fine_def Let_def)

interpretation misc_n_plat: managed_driver "gfifo_misc_n_driver i" id misc_clean "misc_attached i" misc_fine for i
  by unfold_locales (auto simp: gfifo_misc_n_driver_def gfifo_misc_n_probe_def gfifo_misc_n_remove_def misc_clean_def
      misc_attached_def misc_fine_def Let_def)


text \<open>The UIO driver is loaded, its device appears, disappears and appears again, and the module is unloaded.\<close>

definition uio_node :: "uio_kernel platform_dev" where
  "uio_node = \<lparr>dev_name = ''7c000000.ldd_uio'', compatible = [''ldd_uio''],
     answers = \<lparr>kz_platdata = True, kz_uioinfo = True, kz_name = True, of_resource = Some (0x7c000000, 0x7c000fff),
       of_iomap = Some 0xd0000000, of_irq = 63, uio_register = 0\<rparr>\<rparr>"

definition replug :: "uio_kernel plat_event list" where
  "replug = [Load, Plug uio_node, Unplug, Plug uio_node]"


section \<open>Which driver gets which device\<close>

text \<open>
  The nodes that the sources document find their drivers, and no other driver of the repository takes them. The three
  FIFO modules have the same driver name and take each other's devices. The compatible string of the LED
  driver contains a space: a node with the usual vendor and device parts, as the driver itself
  expects of the parent node, is not taken.
\<close>

lemma platform_matching:
  "platform_match (ldd_uio_driver irq) x \<longleftrightarrow> ''ldd_uio'' \<in> set (compatible x) \<or> dev_name x = ''ldd_uio''"
  "platform_match (memloader_driver z) y \<longleftrightarrow> ''memloader'' \<in> set (compatible y) \<or> dev_name y = ''memloader''"
  "platform_match (dev_watchdog_driver bus) w \<longleftrightarrow> ''dev-watchdog'' \<in> set (compatible w) \<or> dev_name w = ''dev_watchdog''"
  "platform_match (led_dev_driver bus) l \<longleftrightarrow> ''alu, dev-leds'' \<in> set (compatible l) \<or> dev_name l = ''leds_dev''"
  "platform_match gfifo_platform_driver g \<longleftrightarrow> dev_name g = ''gfifo''"
  "platform_match (gfifo_misc_driver i) h \<longleftrightarrow> dev_name h = ''gfifo''"
  "platform_match (gfifo_misc_n_driver i) h \<longleftrightarrow> dev_name h = ''gfifo''"
  by (auto simp: platform_match_def ldd_uio_driver_def memloader_driver_def dev_watchdog_driver_def led_dev_driver_def
      gfifo_platform_driver_def gfifo_misc_driver_def gfifo_misc_n_driver_def list_ex_iff)

lemma led_node_not_matched:
  "dev_name l \<noteq> ''leds_dev'' \<Longrightarrow> compatible l = [''alu,dev-leds''] \<Longrightarrow> \<not> platform_match (led_dev_driver bus) l"
  by (simp add: platform_matching)

end
