(* ===== verification/Spec2Isabelle.thy ===== *)
theory Spec2Isabelle
  imports File_Reader Gfifo_Drivers Watchdog_Session Memloader Led Logbuffer Eoe Dhcp Limitfs_Run Mem_Tools
    Smemcap Calamares Uio Netlink Gfifo_Tests Ga_Sched Gmem_Sched Gmem_Session Sysfs Relay_Log Platform
begin

text \<open>
  A verification of the Linux device drivers in this repository: C modules for the kernel, and
  tools and test programs for user space. The drivers are independent modules; what they share is the
  kernel and copied code. The parts, and the theories that model them, first the kernel modules:

  \<^item> \<^verbatim>\<open>Ldd_Prelude\<close>: machine integers, error numbers, byte arrays, transfers between kernel and user
    memory, the mutex, and what a C program may rely on of \<^verbatim>\<open>memcpy\<close> (locale \<open>memcpy_contract\<close>).
  \<^item> \<^verbatim>\<open>Chr_Common\<close>: what the character drivers repeat, \<^verbatim>\<open>llseek\<close> and the registration of device
    numbers, and two interfaces: \<open>byte_file\<close>, what a program relies on that reads or writes a byte
    device, and \<open>chr_lifecycle\<close>, what the module loader relies on.
  \<^item> \<^verbatim>\<open>Gmem\<close>: the memory devices \<^verbatim>\<open>src/gmem\<close>, \<^verbatim>\<open>src/gmem_mutex\<close> and \<^verbatim>\<open>src/gmem_n\<close>. A handler is a
    function on the device, the file position and the user buffer; a handler that would wait for the
    mutex for ever is \<open>None\<close>.
  \<^item> \<^verbatim>\<open>Monitor\<close>: any number of tasks whose calls work on a shared state, one atomic step of one task at a time
    (locale \<open>monitor\<close>: when the steps of a call keep the others out, the calls take effect one after the other).
  \<^item> \<^verbatim>\<open>Gmem_Sched\<close>: the steps of the handlers of \<^verbatim>\<open>gmem\<close> and \<^verbatim>\<open>gmem_mutex\<close>, byte by byte, under every schedule.
  \<^item> \<^verbatim>\<open>Gmem_Session\<close>: the \<^verbatim>\<open>file_operations\<close> of the three memory devices, with sequences of system calls on
    descriptors and their specification (locale \<open>mem_device\<close>).
  \<^item> \<^verbatim>\<open>File_Reader\<close>: \<^verbatim>\<open>src/test_suite/file_reader.c\<close>, a client of \<open>byte_file\<close>.
  \<^item> \<^verbatim>\<open>Gfifo_Core\<close>, \<^verbatim>\<open>Gfifo_Sched\<close>, \<^verbatim>\<open>Gfifo_Protocol\<close>, \<^verbatim>\<open>Gfifo_Drivers\<close>: the six FIFO drivers
    \<^verbatim>\<open>src/gfifo\<close>, \<^verbatim>\<open>src/gfifo_nonblock\<close>, \<^verbatim>\<open>src/gfifo_async\<close>, \<^verbatim>\<open>src/gfifo_platform\<close>,
    \<^verbatim>\<open>src/gfifo_misc\<close>, \<^verbatim>\<open>src/gfifo_misc_n\<close>. Their handlers are the same code up to the buffer size,
    the \<^verbatim>\<open>poll\<close> handler and the SIGIO notification, which a configuration record describes. The
    first theory has the data part, which refines a queue of bytes (locale \<open>byte_queue\<close>); the second
    the handlers as atomic steps of any number of tasks, with the mutex, the two wait queues, the
    scheduler and signals; the third the invariant over all interleavings and its consequences;
    the fourth the drivers themselves, each with its \<^verbatim>\<open>file_operations\<close> table and life cycle
    (locales \<open>gfifo_driver\<close> and \<open>misc_driver\<close>).
  \<^item> \<^verbatim>\<open>Generic_Access\<close>: locked register access, \<^verbatim>\<open>src/generic/generic_access.c\<close>, over an abstract bus;
    \<open>reg_port\<close>, \<open>locked_port\<close> and \<open>io_memory\<close> say when registers behave as memory. \<^verbatim>\<open>Ga_Sched\<close> has the accesses as
    steps of concurrent tasks.
  \<^item> \<^verbatim>\<open>Watchdog\<close>: \<^verbatim>\<open>src/watchdog/watchdog.c\<close>, a client of the register access; its timer handler,
    worker and commands are also a step relation, since nothing orders them. \<^verbatim>\<open>Watchdog_Session\<close> has its
    \<^verbatim>\<open>file_operations\<close>, with sequences of system calls, ticks and runs of the worker from \<^verbatim>\<open>probe\<close> to \<^verbatim>\<open>remove\<close>.
  \<^item> \<^verbatim>\<open>Firmware\<close> and \<^verbatim>\<open>Memloader\<close>: \<^verbatim>\<open>src/memloader/firmware.c\<close>, the loading of firmware through
    callbacks of a driver (locale \<open>fw_writer\<close>), and \<^verbatim>\<open>src/memloader/memloader_core.c\<close>, the driver
    that loads an image into physical memory. \<^verbatim>\<open>Sysfs\<close>: the attribute tables and object types of both, with the
    macro \<^verbatim>\<open>SYSFS_ATTR\<close> of \<^verbatim>\<open>src/generic/kernel_compat.h\<close>, and what a user reads and writes there.
  \<^item> \<^verbatim>\<open>Led\<close>: \<^verbatim>\<open>src/led\<close>, also a client of the register access: brightness, the work queue, the device
    tree, activation and deactivation.
  \<^item> \<^verbatim>\<open>Logbuffer\<close>: \<^verbatim>\<open>src/logbuffer/logbuffer.c\<close>, which shows the lines of a log left in memory.
  \<^item> \<^verbatim>\<open>Netlink\<close>: \<^verbatim>\<open>src/netlink/netlink.c\<close> and the program \<^verbatim>\<open>src/test_suite/netlink.c\<close> that talks to it.
  \<^item> \<^verbatim>\<open>Uio\<close>: \<^verbatim>\<open>src/uio/uio.c\<close> and \<^verbatim>\<open>src/simple_interrupt/simple_interrup.c\<close>.
  \<^item> \<^verbatim>\<open>Platform\<close>: the \<^verbatim>\<open>platform_driver\<close> tables of the seven platform drivers and the module functions that
    register them: the binding of the devices, by name or through the device tree, to the drivers.

  The programs, all in \<^verbatim>\<open>src/test_suite\<close>:

  \<^item> \<^verbatim>\<open>C_Strings\<close>: printing and reading numbers as the C library does.
  \<^item> \<^verbatim>\<open>User_Io\<close>: what several programs repeat around \<^verbatim>\<open>read\<close> and \<^verbatim>\<open>write\<close>, the loops over short and
    interrupted transfers, with their contract (locale \<open>byte_sink\<close>).
  \<^item> \<^verbatim>\<open>Bpf\<close>, \<^verbatim>\<open>Relay\<close>, \<^verbatim>\<open>Eoe\<close>, \<^verbatim>\<open>Dhcp\<close>: the packet relay \<^verbatim>\<open>netrelay\<close>. The first has the machine that runs
    socket filters and the two filter programs; the second \<^verbatim>\<open>relay.c\<close>, with the locale \<open>relay_service\<close> for what
    the forwarding loop relies on from a service; the others the services \<^verbatim>\<open>eoe_filter.c\<close> and
    \<^verbatim>\<open>dhcp_filter.c\<close>, which interpret it once for each direction. \<^verbatim>\<open>Relay_Log\<close>: the log lines and packet dumps.
  \<^item> \<^verbatim>\<open>Limitfs\<close>: \<^verbatim>\<open>limitfs.c\<close>, a FUSE file system with a size limit, over an abstract file system below it;
    \<^verbatim>\<open>Limitfs_Run\<close>: its table of operations, with sequences of requests after \<^verbatim>\<open>main\<close>.
  \<^item> \<^verbatim>\<open>Memutil\<close> and \<^verbatim>\<open>Mem_Tools\<close>: \<^verbatim>\<open>memutil\<close>, which saves and loads regions of the physical memory, and the tools
    \<^verbatim>\<open>asciidump.c\<close>, \<^verbatim>\<open>dump_memory_to_file.c\<close> and \<^verbatim>\<open>clearmem.c\<close>.
  \<^item> \<^verbatim>\<open>Smemcap\<close>: \<^verbatim>\<open>smemcap.c\<close>, which writes a tar archive, with a reader of such archives.
  \<^item> \<^verbatim>\<open>Calamares\<close>: \<^verbatim>\<open>calamares_bin.c\<close>, a terminal relay; its signal handlers and terminal settings are a
    step relation.
  \<^item> \<^verbatim>\<open>Gfifo_Tests\<close>: \<^verbatim>\<open>gfifo_poll.c\<close>, \<^verbatim>\<open>gfifo_poll_n.c\<close> and \<^verbatim>\<open>gfifo_signal.c\<close>, over the masks that the FIFO drivers'
    \<^verbatim>\<open>poll\<close> handlers give.

  \<^bold>\<open>Machine.\<close> The makefiles build for 32-bit ARM: \<^verbatim>\<open>unsigned int\<close>, \<^verbatim>\<open>unsigned long\<close>, \<^verbatim>\<open>size_t\<close> and
  \<^verbatim>\<open>phys_addr_t\<close> have 32 bits, \<^verbatim>\<open>loff_t\<close> is a signed 64-bit number. Words wrap as in C. Signed C
  integers that are only compared and added in range are integers; where they overflow or are
  narrowed, \<open>to_int32\<close> is written out.

  \<^bold>\<open>Parameters.\<close> What is not in the repository is an argument: the kernel's answers at registration
  and allocation, the bus accessors, \<^verbatim>\<open>ioremap\<close>, \<^verbatim>\<open>request_firmware\<close>, \<^verbatim>\<open>simple_strtol\<close>, the
  device tree, \<^verbatim>\<open>memcpy\<close>; for the programs the answers of the system calls, as a list where a loop asks
  again and again. When such a list is used up the program waits for an answer, which the results of
  the loops show as such (\<open>None\<close>, \<open>Fwd_waiting\<close>, \<open>Polling\<close>). Laws that are needed of the parameters are
  hypotheses (\<open>memcpy_contract\<close>, \<open>io_memory\<close>, \<open>willing\<close>, \<open>takes_blocks\<close>, \<open>backing_file\<close>), which the witnesses
  discharge for concrete instances. A step of a C program that leaves an array is \<open>None\<close> or an outcome of
  its own (\<open>Fwd_overrun\<close>), and the theorems say when it cannot happen.

  \<^bold>\<open>What is shown.\<close>
  Memory devices: \<^verbatim>\<open>read\<close>, \<^verbatim>\<open>write\<close> and \<^verbatim>\<open>llseek\<close> on every branch for 32-bit offsets, write-then-read,
  the aliasing of larger offsets, isolation of the sixteen devices, the mutex on every path
  and the one path that forgets it, loading and unloading, and that the read loop of the test
  program ends with the contents printed. Sequences of system calls refine arrays of bytes with a position per
  descriptor; with the mutex the handlers are atomic under every schedule, and without it a reader can see a mixture.
  FIFO drivers: over every execution, mutual exclusion, a fill level within the buffer, no lost
  wake-up, no deadlock, FIFO order of the bytes, the possible results of \<^verbatim>\<open>read\<close>, the accuracy of \<^verbatim>\<open>poll\<close>
  and of SIGIO; the behaviour of \<^verbatim>\<open>FIFO_CLEAR\<close>; what goes wrong with a \<^verbatim>\<open>memcpy\<close> that copies
  downwards; the life cycles.
  Register access: masked updates for all widths, balanced locking, the hook's range, two defects; accesses of
  concurrent tasks are atomic, no update is lost, and what a change of the lock mode can break.
  Watchdog: enabling with read-back, life cycle, and stopping under every interleaving; from \<^verbatim>\<open>probe\<close> to \<^verbatim>\<open>remove\<close>, how
  often it is kicked and what the status line says.
  Firmware: how a load ends under arbitrary callbacks and cancellation; that the memory loader
  stores exactly the image; where failures are hidden, pages corrupted and locks released; that settings written
  to the attributes are read back.
  Platform drivers: a device that is bound is released when its driver is unregistered; one driver never matches.
  LEDs: what is set is read back; queued requests have the effect of direct ones; the life cycle.
  Log buffer: the printed lines are the lines of the log; every branch of showing it.
  Netlink and UIO: the exchange of messages; what probing leaves and removing returns.
  Packet relay: each filter program accepts exactly the frames of a predicate over the frame, and always
  gives a verdict; the forwarding loops send every packet once and in order; encapsulation and VLAN
  translation are undone by the opposite direction; no loop through the filter; how the program starts; what
  the dumps show, and that logging does not change the packets.
  File system: the counter follows the writes, the size computation returns and what it counts; over sequences of
  requests the counter stays the size of the tree, except after a rename over an existing file.
  Memory tools: the mapped window covers the region, save and load are inverse, the dump shows
  every byte once, the clear tool clears the region.
  Archive: what was written is read back. Terminal relay: settings are restored at every orderly
  stop and end, no byte is lost, different terminals have different locks. Test programs: what they print
  about the FIFOs is true, except for one that asks for no event.

  \<^bold>\<open>Termination.\<close> Loops are structural recursions, in the programs often over the list of answers, or
  have a termination proof (\<open>fw_loop\<close>: each round writes at least one byte; \<open>memloader_pages\<close>: each
  round advances in a finite page array; \<open>process_loop\<close>, \<open>show_loop\<close>, \<open>print_lines\<close>, \<open>bpf_run\<close>). The loop of
  \<^verbatim>\<open>file_reader\<close> depends on the file and is a partial function to \<open>option\<close>; that it returns on a
  memory device is proved. One definition has fuel: the walk through directories, \<open>dir_size_at\<close>, takes the
  depth down to which it goes, and it is proved that any depth not below that of the tree gives the
  result. Executions of concurrent tasks are inductive relations.

  \<^bold>\<open>Not modelled.\<close> The kernel modules' log messages (but for the line of the watchdog's \<^verbatim>\<open>probe\<close>), delays and
  time measurement; the bodies of kernel services and of the C library; the scheduling inside the kernel's mutex
  and timer code. Of \<^verbatim>\<open>src/generic/kernel_compat.h\<close> only \<^verbatim>\<open>SYSFS_ATTR\<close> is a definition: the rest chooses between
  versions of kernel functions. Failing
  \<^verbatim>\<open>calloc\<close> and \<^verbatim>\<open>opendir\<close> in \<^verbatim>\<open>smemcap.c\<close>, and paths that do not fit the arrays of the handlers of \<^verbatim>\<open>limitfs.c\<close>,
  are left out.
\<close>

end
